(* ===== verification/Prelude.thy ===== *)
theory Prelude imports Main "HOL-Library.Word" begin

text \<open>
  What every component of the development shares: the machine types of the firmware, the
  ESP-IDF error codes, the run-time faults a C statement can end in, the program type
  (explicit state passing with faults as values) with its sequencing operators, and the
  proof rules for them.

  A C function that returns \<open>esp_err_t\<close> is a \<open>prog\<close>: it takes the state and either
  returns a value with the new state (\<open>Ret\<close>) or ends in a fault (\<open>Fault\<close>): a null or
  dangling pointer, a write past the end of a buffer, a failed \<open>assert\<close>, a wait that never
  ends, a call depth the task's stack cannot hold, a DMA transfer longer than its buffer, or
  a panic of the Rust part.
\<close>

section \<open>Machine types and error codes\<close>

unbundle bit_operations_syntax

type_synonym u8 = "8 word"
type_synonym u16 = "16 word"
type_synonym u32 = "32 word"
type_synonym esp_err_t = "32 word"
type_synonym ptr = nat

text \<open>
  A pointer is a natural number, and 0 is \<open>NULL\<close>. The codes of \<open>esp_err.h\<close> are the values
  ESP-IDF documents; they are 32-bit patterns (\<open>esp_err_t\<close> is an \<open>int\<close>).
\<close>

abbreviation (input) ESP_OK :: esp_err_t where "ESP_OK \<equiv> 0"
abbreviation (input) ESP_FAIL :: esp_err_t where "ESP_FAIL \<equiv> - 1"
abbreviation (input) ESP_ERR_NO_MEM :: esp_err_t where "ESP_ERR_NO_MEM \<equiv> 0x101"
abbreviation (input) ESP_ERR_INVALID_ARG :: esp_err_t where "ESP_ERR_INVALID_ARG \<equiv> 0x102"
abbreviation (input) ESP_ERR_INVALID_STATE :: esp_err_t where "ESP_ERR_INVALID_STATE \<equiv> 0x103"
abbreviation (input) ESP_ERR_INVALID_SIZE :: esp_err_t where "ESP_ERR_INVALID_SIZE \<equiv> 0x104"
abbreviation (input) ESP_ERR_NOT_FOUND :: esp_err_t where "ESP_ERR_NOT_FOUND \<equiv> 0x105"
abbreviation (input) ESP_ERR_NOT_SUPPORTED :: esp_err_t where "ESP_ERR_NOT_SUPPORTED \<equiv> 0x106"
abbreviation (input) ESP_ERR_TIMEOUT :: esp_err_t where "ESP_ERR_TIMEOUT \<equiv> 0x107"
abbreviation (input) ESP_ERR_INVALID_CRC :: esp_err_t where "ESP_ERR_INVALID_CRC \<equiv> 0x109"
abbreviation (input) NULL :: ptr where "NULL \<equiv> 0"

section \<open>Programs\<close>

datatype fault =
    NullDeref
  | UseAfterFree
  | BufferOverflow
  | AssertFailed
  | Blocked
  | StackExhausted
  | DmaOverrun
  | Panicked

datatype ('a, 's) outcome = Ret 'a 's | Fault fault

type_synonym ('s, 'a) prog = "'s \<Rightarrow> ('a, 's) outcome"

definition return :: "'a \<Rightarrow> ('s, 'a) prog" where
  "return a = (\<lambda>s. Ret a s)"

definition bind :: "('s, 'a) prog \<Rightarrow> ('a \<Rightarrow> ('s, 'b) prog) \<Rightarrow> ('s, 'b) prog" where
  "bind m k = (\<lambda>s. case m s of Ret a t \<Rightarrow> k a t | Fault f \<Rightarrow> Fault f)"

definition fault :: "fault \<Rightarrow> ('s, 'a) prog" where
  "fault f = (\<lambda>_. Fault f)"

definition gets :: "('s \<Rightarrow> 'a) \<Rightarrow> ('s, 'a) prog" where
  "gets f = (\<lambda>s. Ret (f s) s)"

definition modify :: "('s \<Rightarrow> 's) \<Rightarrow> ('s, unit) prog" where
  "modify f = (\<lambda>s. Ret () (f s))"

text \<open>\<open>assert(b)\<close> of the C library, and \<open>b\<close> as a guard for any other fault.\<close>

definition guard :: "fault \<Rightarrow> bool \<Rightarrow> ('s, unit) prog" where
  "guard f b = (if b then return () else fault f)"

text \<open>
  \<open>on_error m h k\<close> is \<open>MSC_RETURN_ON_ERROR\<close> (with \<open>h\<close> returning the code) and
  \<open>MSC_GOTO_ON_ERROR\<close> (with \<open>h\<close> the code after the label \<open>fail\<close>): when \<open>m\<close> returns
  a code other than \<open>ESP_OK\<close>, \<open>h\<close> runs with it, otherwise \<open>k\<close> does. \<open>then_do\<close> runs a
  call whose result the source does not look at.
\<close>

definition on_error ::
    "('s, esp_err_t) prog \<Rightarrow> (esp_err_t \<Rightarrow> ('s, 'a) prog) \<Rightarrow> ('s, 'a) prog \<Rightarrow> ('s, 'a) prog" where
  "on_error m h k = bind m (\<lambda>e. if e \<noteq> ESP_OK then h e else k)"

definition then_do :: "('s, 'a) prog \<Rightarrow> ('s, 'b) prog \<Rightarrow> ('s, 'b) prog" where
  "then_do m k = bind m (\<lambda>_. k)"

text \<open>\<open>ESP_ERROR_CHECK\<close> aborts on an error.\<close>

definition ESP_ERROR_CHECK :: "('s, esp_err_t) prog \<Rightarrow> ('s, unit) prog" where
  "ESP_ERROR_CHECK m = bind m (\<lambda>e. guard AssertFailed (e = ESP_OK))"

lemma return_run [simp]: "return a s = Ret a s"
  by (simp add: return_def)

lemma fault_run [simp]: "fault f s = Fault f"
  by (simp add: fault_def)

lemma gets_run [simp]: "gets f s = Ret (f s) s"
  by (simp add: gets_def)

lemma modify_run [simp]: "modify f s = Ret () (f s)"
  by (simp add: modify_def)

lemma guard_run [simp]: "guard f b s = (if b then Ret () s else Fault f)"
  by (simp add: guard_def)

lemma bind_run: "bind m k s = (case m s of Ret a t \<Rightarrow> k a t | Fault f \<Rightarrow> Fault f)"
  by (simp add: bind_def)

lemma bind_return [simp]: "bind (return a) k = k a"
  by (simp add: bind_def fun_eq_iff)

lemma bind_Ret [simp]: "m s = Ret a t \<Longrightarrow> bind m k s = k a t"
  by (simp add: bind_def)

lemma bind_Fault [simp]: "m s = Fault f \<Longrightarrow> bind m k s = Fault f"
  by (simp add: bind_def)

lemma bind_eq_Ret: "bind m k s = Ret b u \<longleftrightarrow> (\<exists>a t. m s = Ret a t \<and> k a t = Ret b u)"
  by (auto simp: bind_def split: outcome.splits)

lemma bind_eq_Fault:
  "bind m k s = Fault f \<longleftrightarrow> m s = Fault f \<or> (\<exists>a t. m s = Ret a t \<and> k a t = Fault f)"
  by (auto simp: bind_def split: outcome.splits)

lemma bind_assoc: "bind (bind m k) h = bind m (\<lambda>a. bind (k a) h)"
  by (auto simp: bind_def fun_eq_iff split: outcome.splits)

lemma on_error_Ret [simp]: "m s = Ret e t \<Longrightarrow> on_error m h k s = (if e \<noteq> ESP_OK then h e t else k t)"
  by (simp add: on_error_def)

lemma on_error_Fault [simp]: "m s = Fault f \<Longrightarrow> on_error m h k s = Fault f"
  by (simp add: on_error_def)

lemma on_error_eq_Ret:
  "on_error m h k s = Ret b u \<longleftrightarrow>
     (\<exists>e t. m s = Ret e t \<and> (if e \<noteq> ESP_OK then h e t = Ret b u else k t = Ret b u))"
  by (auto simp: on_error_def bind_eq_Ret)

lemma on_error_eq_Fault:
  "on_error m h k s = Fault f \<longleftrightarrow>
     m s = Fault f \<or> (\<exists>e t. m s = Ret e t \<and> (if e \<noteq> ESP_OK then h e t = Fault f else k t = Fault f))"
  by (auto simp: on_error_def bind_eq_Fault)

lemma then_do_Ret [simp]: "m s = Ret a t \<Longrightarrow> then_do m k s = k t"
  by (simp add: then_do_def)

lemma then_do_Fault [simp]: "m s = Fault f \<Longrightarrow> then_do m k s = Fault f"
  by (simp add: then_do_def)

lemma then_do_eq_Ret: "then_do m k s = Ret b u \<longleftrightarrow> (\<exists>a t. m s = Ret a t \<and> k t = Ret b u)"
  by (auto simp: then_do_def bind_eq_Ret)

lemma then_do_eq_Fault:
  "then_do m k s = Fault f \<longleftrightarrow> m s = Fault f \<or> (\<exists>a t. m s = Ret a t \<and> k t = Fault f)"
  by (auto simp: then_do_def bind_eq_Fault)

lemmas prog_Ret = bind_eq_Ret on_error_eq_Ret then_do_eq_Ret
lemmas prog_Fault = bind_eq_Fault on_error_eq_Fault then_do_eq_Fault

section \<open>Frames: what a program keeps\<close>

text \<open>
  \<open>keeps R m\<close>: whenever \<open>m\<close> returns, its start and end state are related by \<open>R\<close>.
  For a reflexive and transitive \<open>R\<close> this is closed under sequencing, so a frame of a
  whole function follows from the frames of the calls it makes.
\<close>

definition keeps :: "('s \<Rightarrow> 's \<Rightarrow> bool) \<Rightarrow> ('s, 'a) prog \<Rightarrow> bool" where
  "keeps R m \<longleftrightarrow> (\<forall>s a t. m s = Ret a t \<longrightarrow> R s t)"

lemma keepsI: "(\<And>s a t. m s = Ret a t \<Longrightarrow> R s t) \<Longrightarrow> keeps R m"
  by (simp add: keeps_def)

lemma keepsD: "keeps R m \<Longrightarrow> m s = Ret a t \<Longrightarrow> R s t"
  by (simp add: keeps_def)

lemma keeps_mono: "keeps R m \<Longrightarrow> (\<And>s t. R s t \<Longrightarrow> S s t) \<Longrightarrow> keeps S m"
  by (auto simp: keeps_def)

locale frame_relation =
  fixes R :: "'s \<Rightarrow> 's \<Rightarrow> bool"
  assumes R_refl: "R s s"
    and R_trans: "R s t \<Longrightarrow> R t u \<Longrightarrow> R s u"
begin

lemma keeps_return: "keeps R (return a)"
  by (simp add: keeps_def R_refl)

lemma keeps_fault: "keeps R (fault f)"
  by (simp add: keeps_def)

lemma keeps_gets: "keeps R (gets f)"
  by (simp add: keeps_def R_refl)

lemma keeps_guard: "keeps R (guard f b)"
  by (simp add: keeps_def R_refl)

lemma keeps_modify: "(\<And>s. R s (f s)) \<Longrightarrow> keeps R (modify f)"
  by (simp add: keeps_def)

lemma keeps_bind: "keeps R m \<Longrightarrow> (\<And>a. keeps R (k a)) \<Longrightarrow> keeps R (bind m k)"
  unfolding keeps_def bind_eq_Ret by (meson R_trans)

lemma keeps_then_do: "keeps R m \<Longrightarrow> keeps R k \<Longrightarrow> keeps R (then_do m k)"
  unfolding then_do_def by (rule keeps_bind)

lemma keeps_on_error:
  "keeps R m \<Longrightarrow> (\<And>e. keeps R (h e)) \<Longrightarrow> keeps R k \<Longrightarrow> keeps R (on_error m h k)"
  unfolding on_error_def by (rule keeps_bind) simp_all

lemma keeps_if: "(b \<Longrightarrow> keeps R m) \<Longrightarrow> (\<not> b \<Longrightarrow> keeps R k) \<Longrightarrow> keeps R (if b then m else k)"
  by simp

lemma keeps_option:
  "(x = None \<Longrightarrow> keeps R m) \<Longrightarrow> (\<And>y. x = Some y \<Longrightarrow> keeps R (k y)) \<Longrightarrow>
     keeps R (case x of None \<Rightarrow> m | Some y \<Rightarrow> k y)"
  by (cases x) simp_all

lemma keeps_prod: "(\<And>a b. x = (a, b) \<Longrightarrow> keeps R (k a b)) \<Longrightarrow> keeps R (case x of (a, b) \<Rightarrow> k a b)"
  by (cases x) simp

lemmas keeps_rules = keeps_return keeps_fault keeps_gets keeps_guard keeps_bind keeps_then_do
  keeps_on_error keeps_if keeps_option keeps_prod

end

section \<open>Safety: which faults a program can end in\<close>

text \<open>
  \<open>runs F P m Q\<close>: from every state that satisfies \<open>P\<close> the program either returns a value
  and a state that satisfy \<open>Q\<close>, or ends in one of the faults \<open>F\<close>. With \<open>F = {}\<close> this is
  total correctness. \<open>maintains F I m\<close> is the special case of an invariant.
\<close>

definition runs ::
    "fault set \<Rightarrow> ('s \<Rightarrow> bool) \<Rightarrow> ('s, 'a) prog \<Rightarrow> ('a \<Rightarrow> 's \<Rightarrow> bool) \<Rightarrow> bool" where
  "runs F P m Q \<longleftrightarrow> (\<forall>s. P s \<longrightarrow> (case m s of Ret a t \<Rightarrow> Q a t | Fault f \<Rightarrow> f \<in> F))"

abbreviation maintains :: "fault set \<Rightarrow> ('s \<Rightarrow> bool) \<Rightarrow> ('s, 'a) prog \<Rightarrow> bool" where
  "maintains F I m \<equiv> runs F I m (\<lambda>_. I)"

lemma runsI:
  "(\<And>s. P s \<Longrightarrow> case m s of Ret a t \<Rightarrow> Q a t | Fault f \<Rightarrow> f \<in> F) \<Longrightarrow> runs F P m Q"
  by (simp add: runs_def)

lemma runs_at: "runs F P m Q \<Longrightarrow> P s \<Longrightarrow> case m s of Ret a t \<Rightarrow> Q a t | Fault f \<Rightarrow> f \<in> F"
  by (simp add: runs_def)

lemma outcome_mono:
  assumes "case r of Ret a t \<Rightarrow> Q a t | Fault f \<Rightarrow> f \<in> F"
    and "\<And>a t. Q a t \<Longrightarrow> Q' a t" and "\<And>f. f \<in> F \<Longrightarrow> F' f"
  shows "case r of Ret a t \<Rightarrow> Q' a t | Fault f \<Rightarrow> F' f"
  using assms by (cases r) simp_all

lemma runs_RetD: "runs F P m Q \<Longrightarrow> P s \<Longrightarrow> m s = Ret a t \<Longrightarrow> Q a t"
  by (force simp: runs_def)

lemma runs_FaultD: "runs F P m Q \<Longrightarrow> P s \<Longrightarrow> m s = Fault f \<Longrightarrow> f \<in> F"
  by (force simp: runs_def)

lemma runs_total: "runs {} P m Q \<Longrightarrow> P s \<Longrightarrow> \<exists>a t. m s = Ret a t \<and> Q a t"
  by (cases "m s") (force simp: runs_def)+

lemma runs_weaken:
  "runs F P m Q \<Longrightarrow> F \<subseteq> F' \<Longrightarrow> (\<And>s. P' s \<Longrightarrow> P s) \<Longrightarrow> (\<And>a s. Q a s \<Longrightarrow> Q' a s) \<Longrightarrow>
     runs F' P' m Q'"
  by (force simp: runs_def split: outcome.splits)

lemma runs_return: "(\<And>s. P s \<Longrightarrow> Q a s) \<Longrightarrow> runs F P (return a) Q"
  by (simp add: runs_def)

lemma runs_fault: "f \<in> F \<Longrightarrow> runs F P (fault f) Q"
  by (simp add: runs_def)

lemma runs_gets: "(\<And>s. P s \<Longrightarrow> Q (f s) s) \<Longrightarrow> runs F P (gets f) Q"
  by (simp add: runs_def)

lemma runs_modify: "(\<And>s. P s \<Longrightarrow> Q () (f s)) \<Longrightarrow> runs F P (modify f) Q"
  by (simp add: runs_def)

lemma runs_guard: "(\<And>s. P s \<Longrightarrow> b \<Longrightarrow> Q () s) \<Longrightarrow> f \<in> F \<or> b \<Longrightarrow> runs F P (guard f b) Q"
  by (auto simp: runs_def)

lemma runs_bind: "runs F P m Q \<Longrightarrow> (\<And>a. runs F (Q a) (k a) S) \<Longrightarrow> runs F P (bind m k) S"
  by (force simp: runs_def bind_def split: outcome.splits)

lemma runs_then_do: "runs F P m (\<lambda>_. Q) \<Longrightarrow> runs F Q k S \<Longrightarrow> runs F P (then_do m k) S"
  unfolding then_do_def by (erule runs_bind) simp

lemma runs_on_error:
  "runs F P m Q \<Longrightarrow> (\<And>e. e \<noteq> ESP_OK \<Longrightarrow> runs F (Q e) (h e) S) \<Longrightarrow> runs F (Q ESP_OK) k S \<Longrightarrow>
     runs F P (on_error m h k) S"
  unfolding on_error_def by (erule runs_bind) simp

lemma runs_if:
  "(b \<Longrightarrow> runs F P m Q) \<Longrightarrow> (\<not> b \<Longrightarrow> runs F P k Q) \<Longrightarrow> runs F P (if b then m else k) Q"
  by simp

lemma runs_prod: "(\<And>a b. x = (a, b) \<Longrightarrow> runs F P (k a b) Q) \<Longrightarrow> runs F P (case x of (a, b) \<Rightarrow> k a b) Q"
  by (cases x) simp

lemma runs_conj_pre: "(c \<Longrightarrow> runs F P m Q) \<Longrightarrow> runs F (\<lambda>s. c \<and> P s) m Q"
  by (cases c) (simp_all add: runs_def)

text \<open>Rules for carrying one invariant through a function.\<close>

lemmas maintains_rules =
  runs_bind [where Q = "\<lambda>_. I" and S = "\<lambda>_. I" and P = I for I]
  runs_then_do [where Q = I and S = "\<lambda>_. I" and P = I for I]
  runs_on_error [where Q = "\<lambda>_. I" and S = "\<lambda>_. I" and P = I for I]
  runs_if runs_prod

lemma maintains_return [simp]: "maintains F I (return a)"
  by (simp add: runs_return)

lemma maintains_gets [simp]: "maintains F I (gets f)"
  by (simp add: runs_gets)

section \<open>Bytes\<close>

text \<open>
  \<open>overwrite xs ys\<close> is a buffer \<open>ys\<close> after the bytes \<open>xs\<close> were written to its start; its
  length stays. \<open>mem_read g n xs\<close> is what \<open>memcpy\<close> of \<open>n\<close> bytes reads from an object
  with the bytes \<open>xs\<close>: past the object's end it reads whatever \<open>g\<close> says lies there.
\<close>

definition overwrite :: "'a list \<Rightarrow> 'a list \<Rightarrow> 'a list" where
  "overwrite xs ys = take (length ys) xs @ drop (length xs) ys"

definition mem_read :: "(nat \<Rightarrow> 'a) \<Rightarrow> nat \<Rightarrow> 'a list \<Rightarrow> 'a list" where
  "mem_read g n xs = take n xs @ map g [length xs..<n]"

lemma length_overwrite [simp]: "length (overwrite xs ys) = length ys"
  by (simp add: overwrite_def)

lemma overwrite_Nil [simp]: "overwrite [] ys = ys"
  by (simp add: overwrite_def)

lemma overwrite_full: "length xs = length ys \<Longrightarrow> overwrite xs ys = xs"
  by (simp add: overwrite_def)

lemma take_overwrite: "n \<le> length xs \<Longrightarrow> length xs \<le> length ys \<Longrightarrow> take n (overwrite xs ys) = take n xs"
  by (simp add: overwrite_def)

lemma length_mem_read [simp]: "length (mem_read g n xs) = n"
  by (simp add: mem_read_def)

lemma mem_read_exact [simp]: "mem_read g (length xs) xs = xs"
  by (simp add: mem_read_def)

lemma take_mem_read: "k \<le> length xs \<Longrightarrow> k \<le> n \<Longrightarrow> take k (mem_read g n xs) = take k xs"
  by (simp add: mem_read_def min_def)

section \<open>Little-endian words\<close>

text \<open>
  The microcontroller is little-endian: a packed struct holds a 32-bit field as \<open>le32\<close> and
  a 16-bit field as \<open>le16\<close>. \<open>bswap32\<close> and \<open>bswap16\<close> are the compiler's byte swaps.
\<close>

definition le16 :: "u16 \<Rightarrow> u8 list" where
  "le16 x = [ucast x, ucast (drop_bit 8 x)]"

definition le32 :: "u32 \<Rightarrow> u8 list" where
  "le32 x = [ucast x, ucast (drop_bit 8 x), ucast (drop_bit 16 x), ucast (drop_bit 24 x)]"

definition of_le16 :: "u8 list \<Rightarrow> u16" where
  "of_le16 b = ucast (b ! 0) OR push_bit 8 (ucast (b ! 1))"

definition of_le32 :: "u8 list \<Rightarrow> u32" where
  "of_le32 b = ucast (b ! 0) OR push_bit 8 (ucast (b ! 1)) OR
     push_bit 16 (ucast (b ! 2)) OR push_bit 24 (ucast (b ! 3))"

definition bswap16 :: "u16 \<Rightarrow> u16" where
  "bswap16 x = of_le16 (rev (le16 x))"

definition bswap32 :: "u32 \<Rightarrow> u32" where
  "bswap32 x = of_le32 (rev (le32 x))"

lemma length_le16 [simp]: "length (le16 x) = 2"
  by (simp add: le16_def)

lemma length_le32 [simp]: "length (le32 x) = 4"
  by (simp add: le32_def)

lemma not_bit_u8 [simp]: "8 \<le> n \<Longrightarrow> \<not> bit (a :: u8) n"
  by (auto dest: bit_imp_le_length)

lemma of_le16_le16 [simp]: "of_le16 (le16 x) = x"
  by (rule bit_word_eqI) (auto simp: of_le16_def le16_def bit_simps)

lemma of_le32_le32 [simp]: "of_le32 (le32 x) = x"
proof (rule bit_word_eqI)
  fix n :: nat
  assume n: "n < LENGTH(32)"
  then have "n < 8 \<or> 8 \<le> n \<and> n < 16 \<or> 16 \<le> n \<and> n < 24 \<or> 24 \<le> n \<and> n < 32" by auto
  with n show "bit (of_le32 (le32 x)) n = bit x n"
    by (elim disjE) (auto simp: of_le32_def le32_def bit_simps)
qed

lemma le16_of_le16 [simp]: "le16 (of_le16 [a, b]) = [a, b]"
  by (auto simp: of_le16_def le16_def bit_simps intro!: bit_word_eqI)

lemma le32_of_le32 [simp]: "le32 (of_le32 [a, b, c, d]) = [a, b, c, d]"
  by (auto simp: of_le32_def le32_def bit_simps intro!: bit_word_eqI)

lemma le16_bswap16 [simp]: "le16 (bswap16 x) = rev (le16 x)"
  unfolding bswap16_def by (simp add: le16_def [of x])

lemma le32_bswap32 [simp]: "le32 (bswap32 x) = rev (le32 x)"
  unfolding bswap32_def by (simp add: le32_def [of x])

lemma bswap16_bswap16 [simp]: "bswap16 (bswap16 x) = x"
  unfolding bswap16_def [of "bswap16 x"] by simp

lemma bswap32_bswap32 [simp]: "bswap32 (bswap32 x) = x"
  unfolding bswap32_def [of "bswap32 x"] by simp

lemma le32_inject [simp]: "le32 x = le32 y \<longleftrightarrow> x = y"
  by (metis of_le32_le32)

lemma le16_inject [simp]: "le16 x = le16 y \<longleftrightarrow> x = y"
  by (metis of_le16_le16)

end
