(* ===== verification/Msc_State.thy ===== *)
theory Msc_State imports Prelude begin

text \<open>
  The data of the USB mass-storage driver (\<open>private_include/msc_common.h\<close>,
  \<open>private_include/diskio_usb.h\<close>, \<open>include/usb/msc_host.h\<close>), its state, and the interface
  to the code it calls that is not part of the repository: the USB host library, FreeRTOS,
  the C allocator, FatFs and the ESP-IDF virtual file system.

  The external code is an \<open>env\<close>: for every call the driver makes, a function that gives the
  call's results from the history of all calls so far (with their results) and the call's
  arguments. An \<open>env\<close> is a parameter of every definition that makes such a call, so a theorem
  quantifies over everything the host stack and the device on the bus may do. Every call
  appends one \<open>event\<close> to \<open>hist\<close>, in the order the code makes them.
\<close>

section \<open>Structures of the driver\<close>

datatype msc_endpoint = MSC_EP_OUT | MSC_EP_IN

record msc_config =
  bulk_in_mps :: u16
  bulk_in_ep :: u8
  bulk_out_ep :: u8
  iface_num :: u8

record usb_disk =
  block_size :: u32
  block_count :: u32

text \<open>
  \<open>msc_device_t\<close>. The list link \<open>tailq_entry\<close> is the position of the device in the driver's
  \<open>devices_tailq\<close>, and \<open>xfer\<close> is a pointer into \<open>xfers\<close> of the state below.
\<close>

record msc_device =
  transfer_done :: ptr
  handle :: ptr
  xfer :: ptr
  config :: msc_config
  disk :: usb_disk

datatype usb_transfer_status =
    USB_TRANSFER_STATUS_COMPLETED
  | USB_TRANSFER_STATUS_STALL
  | USB_TRANSFER_STATUS_TIMED_OUT
  | USB_TRANSFER_STATUS_OTHER nat

text \<open>\<open>usb_transfer_t\<close>, the fields the driver reads or writes; \<open>data_buffer_size\<close> is the length
  of \<open>data_buffer\<close>, and \<open>callback\<close> says whether \<open>transfer_callback\<close> was stored.\<close>

record usb_transfer =
  data_buffer :: "u8 list"
  num_bytes :: nat
  device_handle :: ptr
  bEndpointAddress :: u8
  callback :: bool
  timeout_ms :: nat
  xfer_context :: ptr
  status :: usb_transfer_status
  actual_num_bytes :: nat

record msc_driver =
  client_handle :: ptr
  user_cb :: ptr
  user_arg :: ptr
  all_events_handled :: ptr
  end_client_event_handling :: bool
  event_handling_started :: bool
  devices_tailq :: "ptr list"

datatype msc_host_event =
    MSC_DEVICE_CONNECTED u8
  | MSC_DEVICE_DISCONNECTED ptr

datatype usb_host_client_event =
    USB_HOST_CLIENT_EVENT_NEW_DEV u8
  | USB_HOST_CLIENT_EVENT_DEV_GONE ptr
  | USB_HOST_CLIENT_EVENT_OTHER nat

text \<open>
  \<open>msc_host_vfs_t\<close> of \<open>src/msc_host_vfs.c\<close>: the FatFs drive string (without its terminator), the
  copy of the mount path with the block it occupies (\<open>None\<close> for a \<open>NULL\<close> pointer), and the drive number.
\<close>

record msc_host_vfs =
  vfs_drive :: string
  vfs_base_path :: "(ptr \<times> string) option"
  vfs_pdrv :: u8

definition zero_config :: msc_config where
  "zero_config = \<lparr>bulk_in_mps = 0, bulk_in_ep = 0, bulk_out_ep = 0, iface_num = 0\<rparr>"

definition zero_device :: msc_device where
  "zero_device = \<lparr>transfer_done = NULL, handle = NULL, xfer = NULL, config = zero_config,
     disk = \<lparr>block_size = 0, block_count = 0\<rparr>\<rparr>"

section \<open>Descriptors and other data the host library hands out\<close>

record usb_intf_desc =
  bInterfaceNumber :: u8
  bInterfaceClass :: u8
  bInterfaceSubClass :: u8
  bInterfaceProtocol :: u8

record usb_ep_desc =
  ep_address :: u8
  wMaxPacketSize :: u16

record usb_config_desc =
  wTotalLength :: u16
  cfg_bytes :: "u8 list"

record usb_device_desc =
  idProduct :: u16
  idVendor :: u16

record usb_str_desc =
  bLength :: u8
  wData :: "u16 list"

record usb_device_info =
  str_desc_manufacturer :: "usb_str_desc option"
  str_desc_product :: "usb_str_desc option"
  str_desc_serial_num :: "usb_str_desc option"

datatype fresult = FR_OK | FR_INT_ERR | FR_NO_FILESYSTEM | FR_OTHER nat

section \<open>Events: the calls that leave the repository\<close>

datatype usb_event =
    EvHalt ptr u8 esp_err_t
  | EvFlush ptr u8 esp_err_t
  | EvClear ptr u8 esp_err_t
  | EvSubmit usb_transfer esp_err_t
  | EvSubmitControl ptr usb_transfer esp_err_t
  | EvTransferWait ptr nat bool
  | EvTakeForever ptr
  | EvXferAlloc nat ptr esp_err_t
  | EvXferFree ptr esp_err_t

datatype host_event =
    EvDeviceOpen ptr u8 ptr esp_err_t
  | EvDeviceClose ptr ptr esp_err_t
  | EvGetConfig ptr esp_err_t
  | EvGetDeviceDesc ptr esp_err_t
  | EvGetDeviceInfo ptr esp_err_t
  | EvPrintDescriptors
  | EvClaim ptr ptr u8 esp_err_t
  | EvRelease ptr ptr u8 esp_err_t
  | EvClientRegister ptr esp_err_t
  | EvClientDeregister ptr esp_err_t
  | EvClientUnblock ptr esp_err_t
  | EvHandleEvents ptr u32 esp_err_t
  | EvLibHandleEvents nat
  | EvLibInstall esp_err_t

datatype os_event =
    EvSemCreate ptr
  | EvSemGive ptr
  | EvSemDelete ptr
  | EvSemTake ptr
  | EvDelay nat
  | EvTaskCreate nat nat int bool
  | EvTaskDelete
  | EvCalloc ptr
  | EvFree ptr
  | EvUserCb ptr ptr msc_host_event
  | EvSenseLog u8 u8 u8 string
  | EvGpioReset nat
  | EvGpioOutput nat
  | EvGpioLevel nat nat

datatype fs_event =
    EvGetDrive u8 esp_err_t
  | EvDiskRegister u8
  | EvDiskUnregister u8
  | EvVfsRegister string string nat esp_err_t
  | EvVfsUnregister string
  | EvMount ptr string nat fresult
  | EvUnmount string
  | EvMkfs string nat fresult

datatype event = Usb usb_event | Host host_event | Os os_event | Fs fs_event

section \<open>The environment\<close>

text \<open>
  What the host stack reports when the driver waits for a submitted transfer: whether the
  semaphore was given within the timeout, the status, the bytes received and their number.
\<close>

record completion =
  cmp_received :: bool
  cmp_status :: usb_transfer_status
  cmp_data :: "u8 list"
  cmp_actual :: nat

text \<open>
  \<open>r_memory h i\<close> is the byte at offset \<open>i\<close> of memory the code did not initialise (a local
  variable without an initialiser, a fresh transfer buffer, the bytes after a struct).
  \<open>round_up_to_mps\<close> and the two \<open>parse_next\<close> functions are the pure helpers of
  \<open>usb_helpers.h\<close>: the smallest multiple of a packet size, and the next descriptor of a type
  after an offset, with its offset.
\<close>

record env =
  round_up_to_mps :: "nat \<Rightarrow> nat \<Rightarrow> nat"
  parse_next_interface :: "usb_config_desc \<Rightarrow> nat \<Rightarrow> (usb_intf_desc \<times> nat) option"
  parse_next_endpoint :: "usb_config_desc \<Rightarrow> nat \<Rightarrow> (usb_ep_desc \<times> nat) option"
  r_memory :: "event list \<Rightarrow> nat \<Rightarrow> u8"
  r_endpoint_halt :: "event list \<Rightarrow> ptr \<Rightarrow> u8 \<Rightarrow> esp_err_t"
  r_endpoint_flush :: "event list \<Rightarrow> ptr \<Rightarrow> u8 \<Rightarrow> esp_err_t"
  r_endpoint_clear :: "event list \<Rightarrow> ptr \<Rightarrow> u8 \<Rightarrow> esp_err_t"
  r_transfer_submit :: "event list \<Rightarrow> usb_transfer \<Rightarrow> esp_err_t"
  r_submit_control :: "event list \<Rightarrow> ptr \<Rightarrow> usb_transfer \<Rightarrow> esp_err_t"
  r_completion :: "event list \<Rightarrow> usb_transfer \<Rightarrow> completion"
  r_take_forever :: "event list \<Rightarrow> ptr \<Rightarrow> bool"
  r_transfer_alloc :: "event list \<Rightarrow> nat \<Rightarrow> esp_err_t"
  r_transfer_free :: "event list \<Rightarrow> ptr \<Rightarrow> esp_err_t"
  r_sem_create :: "event list \<Rightarrow> bool"
  r_device_open :: "event list \<Rightarrow> ptr \<Rightarrow> u8 \<Rightarrow> esp_err_t \<times> ptr"
  r_device_close :: "event list \<Rightarrow> ptr \<Rightarrow> ptr \<Rightarrow> esp_err_t"
  r_get_config :: "event list \<Rightarrow> ptr \<Rightarrow> esp_err_t \<times> usb_config_desc"
  r_device_desc :: "event list \<Rightarrow> ptr \<Rightarrow> esp_err_t \<times> usb_device_desc"
  r_device_info :: "event list \<Rightarrow> ptr \<Rightarrow> esp_err_t \<times> usb_device_info"
  r_interface_claim :: "event list \<Rightarrow> ptr \<Rightarrow> ptr \<Rightarrow> u8 \<Rightarrow> esp_err_t"
  r_interface_release :: "event list \<Rightarrow> ptr \<Rightarrow> ptr \<Rightarrow> u8 \<Rightarrow> esp_err_t"
  r_client_register :: "event list \<Rightarrow> esp_err_t \<times> ptr"
  r_client_deregister :: "event list \<Rightarrow> ptr \<Rightarrow> esp_err_t"
  r_client_unblock :: "event list \<Rightarrow> ptr \<Rightarrow> esp_err_t"
  r_handle_events :: "event list \<Rightarrow> ptr \<Rightarrow> u32 \<Rightarrow> usb_host_client_event list \<times> esp_err_t"
  r_task_create :: "event list \<Rightarrow> nat \<Rightarrow> nat \<Rightarrow> int \<Rightarrow> bool"
  r_calloc :: "event list \<Rightarrow> bool"
  r_get_drive :: "event list \<Rightarrow> esp_err_t \<times> u8"
  r_vfs_register :: "event list \<Rightarrow> string \<Rightarrow> string \<Rightarrow> nat \<Rightarrow> esp_err_t \<times> ptr"
  r_mount :: "event list \<Rightarrow> string \<Rightarrow> nat \<Rightarrow> fresult"
  r_mkfs :: "event list \<Rightarrow> string \<Rightarrow> nat \<Rightarrow> fresult"

section \<open>The state\<close>

text \<open>
  The file-scope variables of the C files (\<open>cbw_tag\<close>; \<open>s_msc_driver\<close>, as the object it points to and,
  while there is one, its address \<open>driver_addr\<close>; \<open>s_disks\<close>), the heap
  objects the driver owns (devices, transfers, mounts) as maps from pointers, and the history. A
  pointer that is not in a map was freed or never allocated. \<open>next_ptr\<close> is the next address
  the allocator hands out: fresh, and never \<open>NULL\<close>.
\<close>

record sys =
  hist :: "event list"
  cbw_tag :: u32
  s_msc_driver :: "msc_driver option"
  devs :: "ptr \<rightharpoonup> msc_device"
  xfers :: "ptr \<rightharpoonup> usb_transfer"
  next_ptr :: ptr
  s_disks :: "ptr list"
  vfss :: "ptr \<rightharpoonup> msc_host_vfs"
  driver_addr :: ptr

text \<open>
  \<open>ask f ev\<close> is one external call: its result is \<open>f\<close> of the history, and \<open>ev\<close> of the result
  is appended to the history.
\<close>

definition emit :: "event \<Rightarrow> (sys, unit) prog" where
  "emit e = modify (\<lambda>s. s\<lparr>hist := hist s @ [e]\<rparr>)"

definition ask :: "(event list \<Rightarrow> 'r) \<Rightarrow> ('r \<Rightarrow> event) \<Rightarrow> (sys, 'r) prog" where
  "ask f ev = bind (gets (\<lambda>s. f (hist s))) (\<lambda>r. then_do (emit (ev r)) (return r))"

lemma emit_run [simp]: "emit e s = Ret () (s\<lparr>hist := hist s @ [e]\<rparr>)"
  by (simp add: emit_def)

lemma ask_run [simp]:
  "ask f ev s = Ret (f (hist s)) (s\<lparr>hist := hist s @ [ev (f (hist s))]\<rparr>)"
  by (simp add: ask_def)

definition deref_dev :: "ptr \<Rightarrow> (sys, msc_device) prog" where
  "deref_dev p = (\<lambda>s. if p = NULL then Fault NullDeref
     else case devs s p of None \<Rightarrow> Fault UseAfterFree | Some d \<Rightarrow> Ret d s)"

definition deref_xfer :: "ptr \<Rightarrow> (sys, usb_transfer) prog" where
  "deref_xfer p = (\<lambda>s. if p = NULL then Fault NullDeref
     else case xfers s p of None \<Rightarrow> Fault UseAfterFree | Some x \<Rightarrow> Ret x s)"

definition put_dev :: "ptr \<Rightarrow> msc_device \<Rightarrow> (sys, unit) prog" where
  "put_dev p d = modify (\<lambda>s. s\<lparr>devs := (devs s)(p \<mapsto> d)\<rparr>)"

definition put_xfer :: "ptr \<Rightarrow> usb_transfer \<Rightarrow> (sys, unit) prog" where
  "put_xfer p x = modify (\<lambda>s. s\<lparr>xfers := (xfers s)(p \<mapsto> x)\<rparr>)"

text \<open>The global \<open>s_msc_driver\<close>, dereferenced.\<close>

definition the_driver :: "(sys, msc_driver) prog" where
  "the_driver = (\<lambda>s. case s_msc_driver s of None \<Rightarrow> Fault NullDeref | Some d \<Rightarrow> Ret d s)"

lemma deref_dev_Some [simp]: "p \<noteq> NULL \<Longrightarrow> devs s p = Some d \<Longrightarrow> deref_dev p s = Ret d s"
  by (simp add: deref_dev_def)

lemma deref_dev_None: "p \<noteq> NULL \<Longrightarrow> devs s p = None \<Longrightarrow> deref_dev p s = Fault UseAfterFree"
  by (simp add: deref_dev_def)

lemma deref_dev_NULL [simp]: "deref_dev NULL s = Fault NullDeref"
  by (simp add: deref_dev_def)

lemma deref_dev_eq_Ret: "deref_dev p s = Ret d t \<longleftrightarrow> p \<noteq> NULL \<and> devs s p = Some d \<and> t = s"
  by (auto simp: deref_dev_def split: option.splits)

lemma deref_xfer_Some [simp]: "p \<noteq> NULL \<Longrightarrow> xfers s p = Some x \<Longrightarrow> deref_xfer p s = Ret x s"
  by (simp add: deref_xfer_def)

lemma deref_xfer_None: "p \<noteq> NULL \<Longrightarrow> xfers s p = None \<Longrightarrow> deref_xfer p s = Fault UseAfterFree"
  by (simp add: deref_xfer_def)

lemma deref_xfer_NULL [simp]: "deref_xfer NULL s = Fault NullDeref"
  by (simp add: deref_xfer_def)

lemma deref_xfer_eq_Ret: "deref_xfer p s = Ret x t \<longleftrightarrow> p \<noteq> NULL \<and> xfers s p = Some x \<and> t = s"
  by (auto simp: deref_xfer_def split: option.splits)

lemma put_dev_run [simp]: "put_dev p d s = Ret () (s\<lparr>devs := (devs s)(p \<mapsto> d)\<rparr>)"
  by (simp add: put_dev_def)

lemma put_xfer_run [simp]: "put_xfer p x s = Ret () (s\<lparr>xfers := (xfers s)(p \<mapsto> x)\<rparr>)"
  by (simp add: put_xfer_def)

lemma the_driver_Some [simp]: "s_msc_driver s = Some d \<Longrightarrow> the_driver s = Ret d s"
  by (simp add: the_driver_def)

lemma the_driver_None [simp]: "s_msc_driver s = None \<Longrightarrow> the_driver s = Fault NullDeref"
  by (simp add: the_driver_def)

lemma the_driver_eq_Ret: "the_driver s = Ret d t \<longleftrightarrow> s_msc_driver s = Some d \<and> t = s"
  by (auto simp: the_driver_def split: option.splits)

section \<open>External calls of the transfer layer\<close>

definition usb_host_endpoint_halt :: "env \<Rightarrow> ptr \<Rightarrow> u8 \<Rightarrow> (sys, esp_err_t) prog" where
  "usb_host_endpoint_halt env h ep = ask (\<lambda>hs. r_endpoint_halt env hs h ep) (\<lambda>e. Usb (EvHalt h ep e))"

definition usb_host_endpoint_flush :: "env \<Rightarrow> ptr \<Rightarrow> u8 \<Rightarrow> (sys, esp_err_t) prog" where
  "usb_host_endpoint_flush env h ep = ask (\<lambda>hs. r_endpoint_flush env hs h ep) (\<lambda>e. Usb (EvFlush h ep e))"

definition usb_host_endpoint_clear :: "env \<Rightarrow> ptr \<Rightarrow> u8 \<Rightarrow> (sys, esp_err_t) prog" where
  "usb_host_endpoint_clear env h ep = ask (\<lambda>hs. r_endpoint_clear env hs h ep) (\<lambda>e. Usb (EvClear h ep e))"

definition usb_host_transfer_submit :: "env \<Rightarrow> ptr \<Rightarrow> (sys, esp_err_t) prog" where
  "usb_host_transfer_submit env xp = bind (deref_xfer xp) (\<lambda>x.
     ask (\<lambda>hs. r_transfer_submit env hs x) (\<lambda>e. Usb (EvSubmit x e)))"

definition usb_host_transfer_submit_control :: "env \<Rightarrow> ptr \<Rightarrow> ptr \<Rightarrow> (sys, esp_err_t) prog" where
  "usb_host_transfer_submit_control env client xp = bind (deref_xfer xp) (\<lambda>x.
     ask (\<lambda>hs. r_submit_control env hs client x) (\<lambda>e. Usb (EvSubmitControl client x e)))"

text \<open>
  \<open>usb_host_transfer_free\<close> with \<open>NULL\<close> does nothing; otherwise it frees the transfer unless it
  reports an error. \<open>usb_host_transfer_alloc\<close> hands out a fresh transfer whose buffer has the
  requested size, and writes its out parameter only when it succeeds.
\<close>

definition usb_host_transfer_free :: "env \<Rightarrow> ptr \<Rightarrow> (sys, esp_err_t) prog" where
  "usb_host_transfer_free env xp =
     (if xp = NULL then return ESP_OK
      else bind (deref_xfer xp) (\<lambda>_.
        bind (ask (\<lambda>hs. r_transfer_free env hs xp) (\<lambda>e. Usb (EvXferFree xp e))) (\<lambda>e.
          if e \<noteq> ESP_OK then return e
          else then_do (modify (\<lambda>s. s\<lparr>xfers := (xfers s)(xp := None)\<rparr>)) (return ESP_OK))))"

definition fresh_xfer :: "env \<Rightarrow> event list \<Rightarrow> nat \<Rightarrow> usb_transfer" where
  "fresh_xfer env hs n = \<lparr>data_buffer = map (r_memory env hs) [0..<n], num_bytes = 0,
     device_handle = NULL, bEndpointAddress = 0, callback = False, timeout_ms = 0,
     xfer_context = NULL, status = USB_TRANSFER_STATUS_COMPLETED, actual_num_bytes = 0\<rparr>"

definition usb_host_transfer_alloc :: "env \<Rightarrow> nat \<Rightarrow> (sys, esp_err_t \<times> ptr) prog" where
  "usb_host_transfer_alloc env n = (\<lambda>s.
     let e = r_transfer_alloc env (hist s) n; p = next_ptr s in
     if e \<noteq> ESP_OK then Ret (e, NULL) (s\<lparr>hist := hist s @ [Usb (EvXferAlloc n NULL e)]\<rparr>)
     else Ret (ESP_OK, p) (s\<lparr>hist := hist s @ [Usb (EvXferAlloc n p e)],
       xfers := (xfers s)(p \<mapsto> fresh_xfer env (hist s) n), next_ptr := Suc p\<rparr>))"

text \<open>
  \<open>xSemaphoreTake\<close> on a device's \<open>transfer_done\<close>. If the host stack gives the semaphore in
  time, it has written the result of the transfer before: the status, the number of bytes and
  the bytes received, which start at the buffer's start for a bulk transfer and after the
  setup packet for a control transfer (endpoint 0). With \<open>portMAX_DELAY\<close> the call returns only
  if the semaphore is given at all.
\<close>

definition USB_SETUP_PACKET_SIZE :: nat where [simp]: "USB_SETUP_PACKET_SIZE = 8"

definition complete_transfer :: "completion \<Rightarrow> usb_transfer \<Rightarrow> usb_transfer" where
  "complete_transfer c x =
     (let off = (if bEndpointAddress x = 0 then USB_SETUP_PACKET_SIZE else 0) in
      x\<lparr>status := cmp_status c, actual_num_bytes := cmp_actual c,
        data_buffer := take off (data_buffer x) @ overwrite (cmp_data c) (drop off (data_buffer x))\<rparr>)"

definition take_transfer_done :: "env \<Rightarrow> ptr \<Rightarrow> ptr \<Rightarrow> nat \<Rightarrow> (sys, bool) prog" where
  "take_transfer_done env sem xp ticks = bind (deref_xfer xp) (\<lambda>x.
     bind (gets (\<lambda>s. r_completion env (hist s) x)) (\<lambda>c.
       then_do (emit (Usb (EvTransferWait sem ticks (cmp_received c))))
         (if cmp_received c then then_do (put_xfer xp (complete_transfer c x)) (return True)
          else return False)))"

definition take_forever :: "env \<Rightarrow> ptr \<Rightarrow> (sys, unit) prog" where
  "take_forever env sem = bind (gets (\<lambda>s. r_take_forever env (hist s) sem)) (\<lambda>ok.
     then_do (emit (Usb (EvTakeForever sem))) (guard Blocked ok))"

definition vTaskDelay :: "nat \<Rightarrow> (sys, unit) prog" where
  "vTaskDelay ms = emit (Os (EvDelay ms))"

lemma length_complete_transfer [simp]:
  "length (data_buffer (complete_transfer c x)) = length (data_buffer x)"
  by (simp add: complete_transfer_def Let_def)

lemma length_fresh_xfer [simp]: "length (data_buffer (fresh_xfer env hs n)) = n"
  by (simp add: fresh_xfer_def)

section \<open>What the transfer and command layers keep\<close>

text \<open>
  A transfer or a SCSI command leaves the installed driver and the disk table alone, only adds
  to the history, and changes nothing of any device but the pointer to its transfer
  (\<open>bus_frame\<close>). \<open>tag_frame\<close> says that the tag counter of the command layer did not move.
\<close>

definition same_device :: "msc_device option \<Rightarrow> msc_device option \<Rightarrow> bool" where
  "same_device a b \<longleftrightarrow> map_option (\<lambda>d. d\<lparr>xfer := NULL\<rparr>) a = map_option (\<lambda>d. d\<lparr>xfer := NULL\<rparr>) b"

definition bus_frame :: "sys \<Rightarrow> sys \<Rightarrow> bool" where
  "bus_frame s t \<longleftrightarrow> s_msc_driver t = s_msc_driver s \<and> s_disks t = s_disks s \<and> vfss t = vfss s \<and>
     next_ptr s \<le> next_ptr t \<and> (\<exists>es. hist t = hist s @ es) \<and>
     (\<forall>p. same_device (devs s p) (devs t p))"

definition tag_frame :: "sys \<Rightarrow> sys \<Rightarrow> bool" where
  "tag_frame s t \<longleftrightarrow> cbw_tag t = cbw_tag s"

lemma same_device_refl [simp]: "same_device a a"
  by (simp add: same_device_def)

lemma same_device_trans: "same_device a b \<Longrightarrow> same_device b c \<Longrightarrow> same_device a c"
  by (simp add: same_device_def)

lemma same_device_Some:
  "same_device (Some d) b \<longleftrightarrow> (\<exists>d'. b = Some d' \<and> d'\<lparr>xfer := xfer d\<rparr> = d)"
proof (cases b)
  case None
  then show ?thesis by (simp add: same_device_def)
next
  case (Some a)
  then show ?thesis by (cases a; cases d) (auto simp: same_device_def)
qed

lemma bus_frame_refl [simp]: "bus_frame s s"
  by (simp add: bus_frame_def)

lemma bus_frame_trans: "bus_frame s t \<Longrightarrow> bus_frame t u \<Longrightarrow> bus_frame s u"
  by (auto simp: bus_frame_def intro: same_device_trans)

text \<open>
  The interface of every such relation to the proofs about transfers and commands: it is
  closed under the four kinds of primitive state change the layer makes.
\<close>

named_theorems frame_intros

locale layer_frame = frame_relation R for R :: "sys \<Rightarrow> sys \<Rightarrow> bool" +
  assumes R_hist: "R s (s\<lparr>hist := hist s @ es\<rparr>)"
    and R_xfers: "R s (s\<lparr>xfers := f\<rparr>)"
    and R_alloc: "R s (s\<lparr>next_ptr := Suc (next_ptr s)\<rparr>)"
    and R_dev_xfer: "devs s p = Some d \<Longrightarrow> R s (s\<lparr>devs := (devs s)(p \<mapsto> d\<lparr>xfer := xp\<rparr>)\<rparr>)"
begin

lemmas [frame_intros] = keeps_rules

lemma keeps_emit [frame_intros]: "keeps R (emit e)"
  by (simp add: keeps_def R_hist)

lemma keeps_ask [frame_intros]: "keeps R (ask f ev)"
  by (auto simp: keeps_def R_hist)

lemma keeps_deref_dev [frame_intros]: "keeps R (deref_dev p)"
  by (auto simp: keeps_def deref_dev_eq_Ret R_refl)

lemma keeps_deref_xfer [frame_intros]: "keeps R (deref_xfer p)"
  by (auto simp: keeps_def deref_xfer_eq_Ret R_refl)

lemma keeps_the_driver [frame_intros]: "keeps R the_driver"
  by (auto simp: keeps_def the_driver_eq_Ret R_refl)

lemma keeps_put_xfer [frame_intros]: "keeps R (put_xfer p x)"
  by (auto simp: keeps_def R_xfers)

lemma keeps_modify_xfers [frame_intros]: "keeps R (modify (\<lambda>s. s\<lparr>xfers := g s\<rparr>))"
  by (auto simp: keeps_def R_xfers)

lemma keeps_transfer_alloc [frame_intros]: "keeps R (usb_host_transfer_alloc env n)"
proof (rule keepsI)
  fix s r t
  assume run: "usb_host_transfer_alloc env n s = Ret r t"
  let ?e = "r_transfer_alloc env (hist s) n"
  show "R s t"
  proof (cases "?e = ESP_OK")
    case False
    with run show ?thesis
      by (auto simp: usb_host_transfer_alloc_def Let_def R_hist)
  next
    case True
    let ?a = "s\<lparr>hist := hist s @ [Usb (EvXferAlloc n (next_ptr s) ESP_OK)]\<rparr>"
    let ?b = "?a\<lparr>xfers := (xfers s)(next_ptr s \<mapsto> fresh_xfer env (hist s) n)\<rparr>"
    have "R s ?a" by (rule R_hist)
    moreover have "R ?a ?b" by (rule R_xfers)
    moreover have "R ?b (?b\<lparr>next_ptr := Suc (next_ptr ?b)\<rparr>)" by (rule R_alloc)
    ultimately have "R s (?b\<lparr>next_ptr := Suc (next_ptr ?b)\<rparr>)" by (blast intro: R_trans)
    then show ?thesis
      using run True by (auto simp: usb_host_transfer_alloc_def Let_def)
  qed
qed

lemma keeps_case_endpoint [frame_intros]:
  "(ep = MSC_EP_OUT \<Longrightarrow> keeps R m) \<Longrightarrow> (ep = MSC_EP_IN \<Longrightarrow> keeps R k) \<Longrightarrow>
     keeps R (case ep of MSC_EP_OUT \<Rightarrow> m | MSC_EP_IN \<Rightarrow> k)"
  by (cases ep) simp_all

lemma keeps_case_status [frame_intros]:
  "keeps R a \<Longrightarrow> keeps R b \<Longrightarrow> keeps R c \<Longrightarrow> (\<And>n. keeps R (d n)) \<Longrightarrow>
     keeps R (case st of USB_TRANSFER_STATUS_COMPLETED \<Rightarrow> a | USB_TRANSFER_STATUS_STALL \<Rightarrow> b
       | USB_TRANSFER_STATUS_TIMED_OUT \<Rightarrow> c | USB_TRANSFER_STATUS_OTHER n \<Rightarrow> d n)"
  by (cases st) simp_all

lemma keeps_endpoint_halt [frame_intros]: "keeps R (usb_host_endpoint_halt env h ep)"
  unfolding usb_host_endpoint_halt_def by (intro frame_intros)

lemma keeps_endpoint_flush [frame_intros]: "keeps R (usb_host_endpoint_flush env h ep)"
  unfolding usb_host_endpoint_flush_def by (intro frame_intros)

lemma keeps_endpoint_clear [frame_intros]: "keeps R (usb_host_endpoint_clear env h ep)"
  unfolding usb_host_endpoint_clear_def by (intro frame_intros)

lemma keeps_submit [frame_intros]: "keeps R (usb_host_transfer_submit env xp)"
  unfolding usb_host_transfer_submit_def by (intro frame_intros)

lemma keeps_submit_control [frame_intros]: "keeps R (usb_host_transfer_submit_control env c xp)"
  unfolding usb_host_transfer_submit_control_def by (intro frame_intros)

lemma keeps_transfer_free [frame_intros]: "keeps R (usb_host_transfer_free env xp)"
  unfolding usb_host_transfer_free_def by (intro frame_intros)

lemma keeps_take_transfer_done [frame_intros]: "keeps R (take_transfer_done env sem xp ticks)"
  unfolding take_transfer_done_def by (intro frame_intros)

lemma keeps_take_forever [frame_intros]: "keeps R (take_forever env sem)"
  unfolding take_forever_def by (intro frame_intros)

lemma keeps_vTaskDelay [frame_intros]: "keeps R (vTaskDelay ms)"
  unfolding vTaskDelay_def by (intro frame_intros)

end

interpretation bus: layer_frame bus_frame
  by unfold_locales (auto simp: same_device_def bus_frame_def intro: bus_frame_trans)

interpretation tag: layer_frame tag_frame
  by unfold_locales (auto simp: tag_frame_def)

end
