(* ===== verification/Msc_Transfer.thy ===== *)
theory Msc_Transfer imports Msc_State begin

text \<open>
  The transfer layer of \<open>src/msc_host.c\<close>: bulk and control transfers over the device's one
  \<open>usb_transfer_t\<close>, waiting for their completion, and the control requests of the Bulk-Only
  Transport. A function that receives into caller memory takes that memory's bytes and
  returns them updated; the length of the list is the size of the object, so a \<open>memcpy\<close>
  past its end is the fault \<open>BufferOverflow\<close>.
\<close>

section \<open>Error codes and constants of the driver\<close>

definition ESP_ERR_MSC_HOST_BASE :: esp_err_t where [simp]: "ESP_ERR_MSC_HOST_BASE = 0x1700"
definition ESP_ERR_MSC_MOUNT_FAILED :: esp_err_t where
  [simp]: "ESP_ERR_MSC_MOUNT_FAILED = ESP_ERR_MSC_HOST_BASE + 1"
definition ESP_ERR_MSC_FORMAT_FAILED :: esp_err_t where
  [simp]: "ESP_ERR_MSC_FORMAT_FAILED = ESP_ERR_MSC_HOST_BASE + 2"
definition ESP_ERR_MSC_INTERNAL :: esp_err_t where
  [simp]: "ESP_ERR_MSC_INTERNAL = ESP_ERR_MSC_HOST_BASE + 3"
definition ESP_ERR_MSC_STALL :: esp_err_t where
  [simp]: "ESP_ERR_MSC_STALL = ESP_ERR_MSC_HOST_BASE + 4"

definition DEFAULT_XFER_SIZE :: nat where [simp]: "DEFAULT_XFER_SIZE = 64"
definition WAIT_FOR_READY_TIMEOUT_MS :: nat where [simp]: "WAIT_FOR_READY_TIMEOUT_MS = 5000"
definition FEATURE_SELECTOR_ENDPOINT :: u16 where [simp]: "FEATURE_SELECTOR_ENDPOINT = 0"

section \<open>Setup packets\<close>

text \<open>\<open>usb_setup_packet_t\<close> and the values USB 2.0 chapter 9 gives to its fields.\<close>

record usb_setup_packet =
  bmRequestType :: u8
  bRequest :: u8
  wValue :: u16
  wIndex :: u16
  wLength :: u16

definition setup_bytes :: "usb_setup_packet \<Rightarrow> u8 list" where
  "setup_bytes p = [bmRequestType p, bRequest p] @ le16 (wValue p) @ le16 (wIndex p) @ le16 (wLength p)"

abbreviation (input) USB_BM_REQUEST_TYPE_DIR_OUT :: u8 where "USB_BM_REQUEST_TYPE_DIR_OUT \<equiv> 0"
abbreviation (input) USB_BM_REQUEST_TYPE_DIR_IN :: u8 where "USB_BM_REQUEST_TYPE_DIR_IN \<equiv> 0x80"
abbreviation (input) USB_BM_REQUEST_TYPE_TYPE_STANDARD :: u8 where "USB_BM_REQUEST_TYPE_TYPE_STANDARD \<equiv> 0"
abbreviation (input) USB_BM_REQUEST_TYPE_TYPE_CLASS :: u8 where "USB_BM_REQUEST_TYPE_TYPE_CLASS \<equiv> 0x20"
abbreviation (input) USB_BM_REQUEST_TYPE_RECIP_INTERFACE :: u8 where "USB_BM_REQUEST_TYPE_RECIP_INTERFACE \<equiv> 1"
abbreviation (input) USB_BM_REQUEST_TYPE_RECIP_ENDPOINT :: u8 where "USB_BM_REQUEST_TYPE_RECIP_ENDPOINT \<equiv> 2"
abbreviation (input) USB_B_REQUEST_CLEAR_FEATURE :: u8 where "USB_B_REQUEST_CLEAR_FEATURE \<equiv> 1"

definition mass_req_reset :: "u8 \<Rightarrow> usb_setup_packet" where
  "mass_req_reset intf_num = \<lparr>
     bmRequestType = USB_BM_REQUEST_TYPE_DIR_OUT OR USB_BM_REQUEST_TYPE_TYPE_CLASS OR
       USB_BM_REQUEST_TYPE_RECIP_INTERFACE,
     bRequest = 0xFF, wValue = 0, wIndex = ucast intf_num, wLength = 0\<rparr>"

definition mass_req_get_max_lun :: "u8 \<Rightarrow> usb_setup_packet" where
  "mass_req_get_max_lun intf_num = \<lparr>
     bmRequestType = USB_BM_REQUEST_TYPE_DIR_IN OR USB_BM_REQUEST_TYPE_TYPE_CLASS OR
       USB_BM_REQUEST_TYPE_RECIP_INTERFACE,
     bRequest = 0xFE, wValue = 0, wIndex = ucast intf_num, wLength = 1\<rparr>"

definition clear_feature_ep :: "u8 \<Rightarrow> usb_setup_packet" where
  "clear_feature_ep ep_num = \<lparr>
     bmRequestType = USB_BM_REQUEST_TYPE_DIR_OUT OR USB_BM_REQUEST_TYPE_TYPE_STANDARD OR
       USB_BM_REQUEST_TYPE_RECIP_ENDPOINT,
     bRequest = USB_B_REQUEST_CLEAR_FEATURE, wValue = FEATURE_SELECTOR_ENDPOINT,
     wIndex = ucast ep_num, wLength = 0\<rparr>"

lemma length_setup_bytes [simp]: "length (setup_bytes p) = 8"
  by (simp add: setup_bytes_def)

text \<open>The macros store the packet at the start of the transfer's buffer.\<close>

definition write_setup :: "ptr \<Rightarrow> usb_setup_packet \<Rightarrow> (sys, unit) prog" where
  "write_setup xp p = bind (deref_xfer xp) (\<lambda>x.
     then_do (guard BufferOverflow (USB_SETUP_PACKET_SIZE \<le> length (data_buffer x)))
       (put_xfer xp (x\<lparr>data_buffer := overwrite (setup_bytes p) (data_buffer x)\<rparr>)))"

section \<open>Completion\<close>

definition transfer_callback :: "ptr \<Rightarrow> (sys, unit) prog" where
  "transfer_callback xp = bind (deref_xfer xp) (\<lambda>x. bind (deref_dev (xfer_context x)) (\<lambda>d.
     emit (Os (EvSemGive (transfer_done d)))))"

text \<open>
  What \<open>wait_for_transfer_done\<close> does when the semaphore was not given in time: it halts,
  flushes and clears the endpoint, without looking at the results, and takes the semaphore the
  flushed transfer gives back.
\<close>

definition abort_transfer :: "env \<Rightarrow> ptr \<Rightarrow> usb_transfer \<Rightarrow> (sys, unit) prog" where
  "abort_transfer env sem x =
     then_do (usb_host_endpoint_halt env (device_handle x) (bEndpointAddress x))
    (then_do (usb_host_endpoint_flush env (device_handle x) (bEndpointAddress x))
    (then_do (usb_host_endpoint_clear env (device_handle x) (bEndpointAddress x))
       (take_forever env sem)))"

definition wait_for_transfer_done :: "env \<Rightarrow> ptr \<Rightarrow> (sys, usb_transfer_status) prog" where
  "wait_for_transfer_done env xp = bind (deref_xfer xp) (\<lambda>x. bind (deref_dev (xfer_context x)) (\<lambda>d.
     bind (take_transfer_done env (transfer_done d) xp (timeout_ms x)) (\<lambda>received.
     bind (deref_xfer xp) (\<lambda>x.
       if \<not> received then
         then_do (abort_transfer env (transfer_done d) x) (return USB_TRANSFER_STATUS_TIMED_OUT)
       else return (status x)))))"

section \<open>Bulk transfers\<close>

text \<open>
  The reallocation at the head of \<open>msc_bulk_transfer\<close>: the old transfer is freed first and
  the new one stored in the device, so a failed allocation leaves \<open>device->xfer\<close> pointing to
  the freed transfer.
\<close>

definition grow_transfer :: "env \<Rightarrow> ptr \<Rightarrow> nat \<Rightarrow> (sys, esp_err_t) prog" where
  "grow_transfer env p transfer_size = bind (deref_dev p) (\<lambda>d. bind (deref_xfer (xfer d)) (\<lambda>x.
     if length (data_buffer x) < transfer_size then
       on_error (usb_host_transfer_free env (xfer d)) return
         (bind (usb_host_transfer_alloc env transfer_size) (\<lambda>(e, xp).
            if e \<noteq> ESP_OK then return e
            else then_do (put_dev p (d\<lparr>xfer := xp\<rparr>)) (return ESP_OK)))
     else return ESP_OK))"

definition load_transfer :: "env \<Rightarrow> ptr \<Rightarrow> u8 list \<Rightarrow> nat \<Rightarrow> nat \<Rightarrow> msc_endpoint \<Rightarrow> (sys, ptr) prog" where
  "load_transfer env p data n transfer_size ep =
     bind (deref_dev p) (\<lambda>d. bind (deref_xfer (xfer d)) (\<lambda>x. bind (gets hist) (\<lambda>hs.
     bind (case ep of
         MSC_EP_IN \<Rightarrow> return (x\<lparr>bEndpointAddress := bulk_in_ep (config d)\<rparr>)
       | MSC_EP_OUT \<Rightarrow> then_do (guard BufferOverflow (n \<le> length (data_buffer x)))
           (return (x\<lparr>bEndpointAddress := bulk_out_ep (config d),
             data_buffer := overwrite (mem_read (r_memory env hs) n data) (data_buffer x)\<rparr>)))
      (\<lambda>x. then_do (put_xfer (xfer d) (x\<lparr>num_bytes := transfer_size, device_handle := handle d,
              callback := True, timeout_ms := 5000, xfer_context := p\<rparr>))
           (return (xfer d))))))"

definition finish_transfer ::
    "ptr \<Rightarrow> u8 list \<Rightarrow> msc_endpoint \<Rightarrow> usb_transfer_status \<Rightarrow> (sys, esp_err_t \<times> u8 list) prog" where
  "finish_transfer xp data ep st = (case st of
       USB_TRANSFER_STATUS_COMPLETED \<Rightarrow>
         (case ep of
            MSC_EP_IN \<Rightarrow> bind (deref_xfer xp) (\<lambda>x.
              then_do (guard BufferOverflow (actual_num_bytes x \<le> length (data_buffer x) \<and>
                                             actual_num_bytes x \<le> length data))
                (return (ESP_OK, overwrite (take (actual_num_bytes x) (data_buffer x)) data)))
          | MSC_EP_OUT \<Rightarrow> return (ESP_OK, data))
     | USB_TRANSFER_STATUS_STALL \<Rightarrow> return (ESP_ERR_MSC_STALL, data)
     | _ \<Rightarrow> return (ESP_ERR_MSC_INTERNAL, data))"

definition bulk_transfer_size :: "env \<Rightarrow> msc_device \<Rightarrow> nat \<Rightarrow> msc_endpoint \<Rightarrow> nat" where
  "bulk_transfer_size env d n ep =
     (if ep = MSC_EP_IN then round_up_to_mps env n (unat (bulk_in_mps (config d))) else n)"

definition msc_bulk_transfer ::
    "env \<Rightarrow> ptr \<Rightarrow> u8 list \<Rightarrow> nat \<Rightarrow> msc_endpoint \<Rightarrow> (sys, esp_err_t \<times> u8 list) prog" where
  "msc_bulk_transfer env p data n ep = bind (deref_dev p) (\<lambda>d.
     let transfer_size = bulk_transfer_size env d n ep in
     on_error (grow_transfer env p transfer_size) (\<lambda>e. return (e, data))
       (bind (load_transfer env p data n transfer_size ep) (\<lambda>xp.
        on_error (usb_host_transfer_submit env xp) (\<lambda>e. return (e, data))
          (bind (wait_for_transfer_done env xp) (\<lambda>st. finish_transfer xp data ep st)))))"

section \<open>Control transfers\<close>

definition msc_control_transfer :: "env \<Rightarrow> ptr \<Rightarrow> nat \<Rightarrow> (sys, esp_err_t) prog" where
  "msc_control_transfer env p len = bind (deref_dev p) (\<lambda>d. bind (deref_xfer (xfer d)) (\<lambda>x.
     then_do (put_xfer (xfer d) (x\<lparr>device_handle := handle d, bEndpointAddress := 0,
        callback := True, timeout_ms := 5000, num_bytes := len, xfer_context := p\<rparr>))
     (bind the_driver (\<lambda>drv.
      on_error (usb_host_transfer_submit_control env (client_handle drv) (xfer d)) return
        (bind (wait_for_transfer_done env (xfer d)) (\<lambda>st.
           return (if st = USB_TRANSFER_STATUS_COMPLETED then ESP_OK else ESP_ERR_MSC_INTERNAL)))))))"

definition clear_feature :: "env \<Rightarrow> ptr \<Rightarrow> u8 \<Rightarrow> (sys, esp_err_t) prog" where
  "clear_feature env p endpoint = bind (deref_dev p) (\<lambda>d.
     on_error (usb_host_endpoint_halt env (handle d) endpoint) return
    (on_error (usb_host_endpoint_flush env (handle d) endpoint) return
    (on_error (usb_host_endpoint_clear env (handle d) endpoint) return
    (then_do (write_setup (xfer d) (clear_feature_ep endpoint))
    (on_error (msc_control_transfer env p USB_SETUP_PACKET_SIZE) return
      (return ESP_OK))))))"

definition msc_mass_reset :: "env \<Rightarrow> ptr \<Rightarrow> (sys, esp_err_t) prog" where
  "msc_mass_reset env p = bind (deref_dev p) (\<lambda>d.
     then_do (write_setup (xfer d) (mass_req_reset (iface_num (config d))))
    (on_error (msc_control_transfer env p USB_SETUP_PACKET_SIZE) return
      (return ESP_OK)))"

definition msc_get_max_lun :: "env \<Rightarrow> ptr \<Rightarrow> u8 \<Rightarrow> (sys, esp_err_t \<times> u8) prog" where
  "msc_get_max_lun env p lun = bind (deref_dev p) (\<lambda>d.
     then_do (write_setup (xfer d) (mass_req_get_max_lun (iface_num (config d))))
    (on_error (msc_control_transfer env p (USB_SETUP_PACKET_SIZE + 1)) (\<lambda>e. return (e, lun))
      (bind (deref_xfer (xfer d)) (\<lambda>x.
         then_do (guard BufferOverflow (USB_SETUP_PACKET_SIZE < length (data_buffer x)))
           (return (ESP_OK, data_buffer x ! USB_SETUP_PACKET_SIZE))))))"

section \<open>Frames of the transfer layer\<close>

context layer_frame begin

lemma keeps_write_setup [frame_intros]: "keeps R (write_setup xp q)"
  unfolding write_setup_def by (intro frame_intros)

lemma keeps_transfer_callback [frame_intros]: "keeps R (transfer_callback xp)"
  unfolding transfer_callback_def by (intro frame_intros)

lemma keeps_abort_transfer [frame_intros]: "keeps R (abort_transfer env sem x)"
  unfolding abort_transfer_def by (intro frame_intros)

lemma keeps_wait_for_transfer_done [frame_intros]: "keeps R (wait_for_transfer_done env xp)"
  unfolding wait_for_transfer_done_def by (intro frame_intros)

lemma keeps_load_transfer [frame_intros]: "keeps R (load_transfer env p data n ts ep)"
  unfolding load_transfer_def by (intro frame_intros)

lemma keeps_finish_transfer [frame_intros]: "keeps R (finish_transfer xp data ep st)"
  unfolding finish_transfer_def by (intro frame_intros)

lemma keeps_grow_transfer [frame_intros]: "keeps R (grow_transfer env p n)"
proof (rule keepsI)
  fix s e t
  assume run: "grow_transfer env p n s = Ret e t"
  then obtain d x where d: "p \<noteq> NULL" "devs s p = Some d" "xfers s (xfer d) = Some x" "xfer d \<noteq> NULL"
    by (auto simp: grow_transfer_def bind_eq_Ret deref_dev_eq_Ret deref_xfer_eq_Ret)
  have put: "R u (u\<lparr>devs := (devs u)(p \<mapsto> d\<lparr>xfer := q\<rparr>)\<rparr>)" if "devs u = devs s" for u q
    using R_dev_xfer [of u p d q] d that by simp
  have alloc: "R u v \<and> devs v = devs u" if "usb_host_transfer_alloc env n u = Ret r v" for u v r
    using that keepsD [OF keeps_transfer_alloc that]
    by (auto simp: usb_host_transfer_alloc_def Let_def split: if_splits)
  have free: "R s u \<and> devs u = devs s" if "usb_host_transfer_free env (xfer d) s = Ret r u" for u r
    using that keepsD [OF keeps_transfer_free that] d
    by (auto simp: usb_host_transfer_free_def split: if_splits)
  from run d show "R s t"
    by (auto simp: grow_transfer_def prog_Ret R_refl split: if_splits
        dest!: free alloc intro: R_trans [OF _ R_trans [OF _ put]] R_trans)
qed

lemma keeps_bulk_transfer [frame_intros]: "keeps R (msc_bulk_transfer env p data n ep)"
  unfolding msc_bulk_transfer_def Let_def by (intro frame_intros)

lemma keeps_control_transfer [frame_intros]: "keeps R (msc_control_transfer env p len)"
  unfolding msc_control_transfer_def by (intro frame_intros)

lemma keeps_clear_feature [frame_intros]: "keeps R (clear_feature env p ep)"
  unfolding clear_feature_def by (intro frame_intros)

lemma keeps_mass_reset [frame_intros]: "keeps R (msc_mass_reset env p)"
  unfolding msc_mass_reset_def by (intro frame_intros)

lemma keeps_get_max_lun [frame_intros]: "keeps R (msc_get_max_lun env p lun)"
  unfolding msc_get_max_lun_def by (intro frame_intros)

end

section \<open>What the transfer layer computes\<close>

definition transfer_at :: "sys \<Rightarrow> ptr \<Rightarrow> msc_device \<Rightarrow> usb_transfer \<Rightarrow> bool" where
  "transfer_at s p d x \<longleftrightarrow> p \<noteq> NULL \<and> devs s p = Some d \<and> xfer d \<noteq> NULL \<and> xfers s (xfer d) = Some x"

lemma transfer_atD [dest]:
  assumes "transfer_at s p d x"
  shows "p \<noteq> NULL" "devs s p = Some d" "xfer d \<noteq> NULL" "xfers s (xfer d) = Some x"
  using assms by (simp_all add: transfer_at_def)

lemma deref_at [simp]:
  assumes "transfer_at s p d x"
  shows "deref_dev p s = Ret d s" "deref_xfer (xfer d) s = Ret x s"
  using assms by (simp_all add: transfer_at_def)

lemma grow_transfer_enough [simp]:
  "transfer_at s p d x \<Longrightarrow> n \<le> length (data_buffer x) \<Longrightarrow> grow_transfer env p n s = Ret ESP_OK s"
  by (simp add: grow_transfer_def)

definition loaded_transfer ::
    "env \<Rightarrow> event list \<Rightarrow> ptr \<Rightarrow> msc_device \<Rightarrow> usb_transfer \<Rightarrow> u8 list \<Rightarrow> nat \<Rightarrow> nat \<Rightarrow> msc_endpoint \<Rightarrow> usb_transfer" where
  "loaded_transfer env hs p d x data n ts ep =
     x\<lparr>bEndpointAddress := (if ep = MSC_EP_IN then bulk_in_ep (config d) else bulk_out_ep (config d)),
       data_buffer := (if ep = MSC_EP_IN then data_buffer x
         else overwrite (mem_read (r_memory env hs) n data) (data_buffer x)),
       num_bytes := ts, device_handle := handle d, callback := True, timeout_ms := 5000,
       xfer_context := p\<rparr>"

lemma load_transfer_run [simp]:
  assumes "transfer_at s p d x" and "ep = MSC_EP_OUT \<Longrightarrow> n \<le> length (data_buffer x)"
  shows "load_transfer env p data n ts ep s =
    Ret (xfer d) (s\<lparr>xfers := (xfers s)(xfer d \<mapsto> loaded_transfer env (hist s) p d x data n ts ep)\<rparr>)"
  using assms by (cases ep) (simp_all add: load_transfer_def loaded_transfer_def)

lemma length_loaded [simp]:
  "length (data_buffer (loaded_transfer env hs p d x data n ts ep)) = length (data_buffer x)"
  by (simp add: loaded_transfer_def)

lemma loaded_fields [simp]:
  "num_bytes (loaded_transfer env hs p d x data n ts ep) = ts"
  "xfer_context (loaded_transfer env hs p d x data n ts ep) = p"
  "timeout_ms (loaded_transfer env hs p d x data n ts ep) = 5000"
  "device_handle (loaded_transfer env hs p d x data n ts ep) = handle d"
  by (simp_all add: loaded_transfer_def)

text \<open>The state after a wait that was given the semaphore, and the events of one that was not.\<close>

definition awaited :: "env \<Rightarrow> ptr \<Rightarrow> ptr \<Rightarrow> usb_transfer \<Rightarrow> sys \<Rightarrow> sys" where
  "awaited env sem xp x s = s\<lparr>
     hist := hist s @ [Usb (EvTransferWait sem (timeout_ms x) True)],
     xfers := (xfers s)(xp \<mapsto> complete_transfer (r_completion env (hist s) x) x)\<rparr>"

lemma wait_received [simp]:
  assumes "xp \<noteq> NULL" "xfers s xp = Some x" "xfer_context x \<noteq> NULL" "devs s (xfer_context x) = Some d"
    and "cmp_received (r_completion env (hist s) x)"
  shows "wait_for_transfer_done env xp s =
    Ret (cmp_status (r_completion env (hist s) x)) (awaited env (transfer_done d) xp x s)"
  using assms
  by (simp add: wait_for_transfer_done_def take_transfer_done_def awaited_def complete_transfer_def Let_def)

text \<open>Calls that only add to the history.\<close>

definition only_adds :: "(sys, 'a) prog \<Rightarrow> bool" where
  "only_adds m \<longleftrightarrow> (\<forall>s. \<exists>r es. m s = Ret r (s\<lparr>hist := hist s @ es\<rparr>))"

lemma only_adds_ask [simp]: "only_adds (ask f ev)"
  unfolding only_adds_def using ask_run by blast

lemma only_addsE:
  assumes "only_adds m"
  obtains r es where "m s = Ret r (s\<lparr>hist := hist s @ es\<rparr>)"
  using assms unfolding only_adds_def by blast

lemma only_adds_then_do [simp]:
  assumes "only_adds m" "only_adds k"
  shows "only_adds (then_do m k)"
  unfolding only_adds_def
proof
  fix s
  obtain r es where m: "m s = Ret r (s\<lparr>hist := hist s @ es\<rparr>)"
    by (rule only_addsE [OF assms(1)])
  obtain r' es' where "k (s\<lparr>hist := hist s @ es\<rparr>) = Ret r' (s\<lparr>hist := hist s @ es @ es'\<rparr>)"
    by (rule only_addsE [OF assms(2), of "s\<lparr>hist := hist s @ es\<rparr>"]) simp
  with m have "then_do m k s = Ret r' (s\<lparr>hist := hist s @ es @ es'\<rparr>)" by simp
  then show "\<exists>r es. then_do m k s = Ret r (s\<lparr>hist := hist s @ es\<rparr>)" by blast
qed

lemma only_adds_calls [simp]:
  "only_adds (usb_host_endpoint_halt env h ep)"
  "only_adds (usb_host_endpoint_flush env h ep)"
  "only_adds (usb_host_endpoint_clear env h ep)"
  by (simp_all add: usb_host_endpoint_halt_def usb_host_endpoint_flush_def usb_host_endpoint_clear_def)

lemma take_forever_run [simp]: "take_forever env sem s =
    (if r_take_forever env (hist s) sem then Ret () (s\<lparr>hist := hist s @ [Usb (EvTakeForever sem)]\<rparr>)
     else Fault Blocked)"
  by (simp add: take_forever_def)

section \<open>The contract of the host stack\<close>

text \<open>
  What ESP-IDF documents of the calls used here: a transfer never reports more bytes than were
  submitted; a flushed endpoint hands its transfer back, so the second wait for it ends; the
  helper rounds up to a multiple of the packet size.
\<close>

definition honest_host :: "env \<Rightarrow> bool" where
  "honest_host env \<longleftrightarrow> (\<forall>h x. cmp_actual (r_completion env h x) \<le> num_bytes x)"

definition flush_completes :: "env \<Rightarrow> bool" where
  "flush_completes env \<longleftrightarrow> (\<forall>h sem. r_take_forever env h sem)"

definition alloc_succeeds :: "env \<Rightarrow> bool" where
  "alloc_succeeds env \<longleftrightarrow> (\<forall>h n. r_transfer_alloc env h n = ESP_OK)"

definition rounds_up :: "env \<Rightarrow> bool" where
  "rounds_up env \<longleftrightarrow> (\<forall>n m. 0 < n \<longrightarrow> 0 < m \<longrightarrow>
     n \<le> round_up_to_mps env n m \<and> round_up_to_mps env n m < n + m \<and> m dvd round_up_to_mps env n m)"

lemma rounds_up_exact:
  assumes "rounds_up env" and "0 < n" and "m dvd n" and "0 < m"
  shows "round_up_to_mps env n m = n"
proof -
  let ?r = "round_up_to_mps env n m"
  from assms have r: "n \<le> ?r" "?r < n + m" "m dvd ?r"
    by (auto simp: rounds_up_def)
  then have "m dvd ?r - n" using \<open>m dvd n\<close> by (simp add: dvd_diff_nat)
  with r have "?r - n = 0" by (metis dvd_imp_le less_diff_conv2 add.commute not_less zero_less_iff_neq_zero)
  with r show ?thesis by simp
qed

lemma abort_transfer_adds:
  assumes "flush_completes env"
  shows "only_adds (abort_transfer env sem x)"
proof -
  have "only_adds (take_forever env sem)"
    using assms take_forever_run unfolding only_adds_def flush_completes_def by metis
  then show ?thesis by (simp add: abort_transfer_def)
qed

lemma wait_timed_out:
  assumes "xp \<noteq> NULL" "xfers s xp = Some x" "xfer_context x \<noteq> NULL" "devs s (xfer_context x) = Some d"
    and "\<not> cmp_received (r_completion env (hist s) x)" and "flush_completes env"
  obtains es where "wait_for_transfer_done env xp s = Ret USB_TRANSFER_STATUS_TIMED_OUT (s\<lparr>hist := hist s @ es\<rparr>)"
proof -
  let ?s = "s\<lparr>hist := hist s @ [Usb (EvTransferWait (transfer_done d) (timeout_ms x) False)]\<rparr>"
  obtain r es where "abort_transfer env (transfer_done d) x ?s = Ret r (?s\<lparr>hist := hist ?s @ es\<rparr>)"
    by (rule only_addsE [OF abort_transfer_adds [OF assms(6)]])
  with assms(1-5) show thesis
    by (intro that) (simp add: wait_for_transfer_done_def take_transfer_done_def)
qed

section \<open>A usable device stays usable\<close>

text \<open>
  \<open>dev_ok p\<close>: the driver is installed, \<open>p\<close> is a live device and its transfer is live, with a
  buffer of at least \<open>DEFAULT_XFER_SIZE\<close> bytes.
\<close>

definition dev_ok :: "ptr \<Rightarrow> sys \<Rightarrow> bool" where
  "dev_ok p s \<longleftrightarrow> next_ptr s \<noteq> NULL \<and> s_msc_driver s \<noteq> None \<and>
     (\<exists>d x. transfer_at s p d x \<and> DEFAULT_XFER_SIZE \<le> length (data_buffer x))"

lemma dev_okE:
  assumes "dev_ok p s"
  obtains d x where "transfer_at s p d x" "DEFAULT_XFER_SIZE \<le> length (data_buffer x)"
    "next_ptr s \<noteq> NULL" "s_msc_driver s \<noteq> None"
  using assms unfolding dev_ok_def by blast

lemma dev_okI:
  "transfer_at s p d x \<Longrightarrow> DEFAULT_XFER_SIZE \<le> length (data_buffer x) \<Longrightarrow>
     next_ptr s \<noteq> NULL \<Longrightarrow> s_msc_driver s \<noteq> None \<Longrightarrow> dev_ok p s"
  unfolding dev_ok_def by blast

lemma dev_ok_hist [simp]: "dev_ok p (s\<lparr>hist := h\<rparr>) = dev_ok p s"
  by (simp add: dev_ok_def transfer_at_def)

lemma dev_ok_tag [simp]: "dev_ok p (s\<lparr>cbw_tag := t\<rparr>) = dev_ok p s"
  by (simp add: dev_ok_def transfer_at_def)

lemma dev_ok_put_xfer:
  assumes "dev_ok p s" and "\<And>d. devs s p = Some d \<Longrightarrow> xfer d = xp \<Longrightarrow> DEFAULT_XFER_SIZE \<le> length (data_buffer y)"
  shows "dev_ok p (s\<lparr>xfers := (xfers s)(xp \<mapsto> y)\<rparr>)"
proof (rule dev_okE [OF assms(1)])
  fix d x
  assume at: "transfer_at s p d x" "DEFAULT_XFER_SIZE \<le> length (data_buffer x)"
    "next_ptr s \<noteq> NULL" "s_msc_driver s \<noteq> None"
  show ?thesis
  proof (rule dev_okI)
    show "transfer_at (s\<lparr>xfers := (xfers s)(xp \<mapsto> y)\<rparr>) p d (if xfer d = xp then y else x)"
      using at by (simp add: transfer_at_def)
  qed (use at assms(2) in auto)
qed

lemma dev_ok_awaited:
  assumes "dev_ok p s" and "xfers s xp = Some x"
  shows "dev_ok p (awaited env sem xp x s)"
proof -
  have "dev_ok p (s\<lparr>xfers := (xfers s)(xp \<mapsto> complete_transfer (r_completion env (hist s) x) x)\<rparr>)"
    using assms by (intro dev_ok_put_xfer) (auto elim!: dev_okE simp: transfer_at_def)
  then show ?thesis by (simp add: awaited_def dev_ok_def transfer_at_def)
qed

lemma maintains_emit [simp]: "maintains F (dev_ok p) (emit e)"
  by (simp add: runs_def)

lemma maintains_ask [simp]: "maintains F (dev_ok p) (ask f ev)"
  by (simp add: runs_def)

lemma maintains_endpoint_calls [simp]:
  "maintains F (dev_ok p) (usb_host_endpoint_halt env h ep)"
  "maintains F (dev_ok p) (usb_host_endpoint_flush env h ep)"
  "maintains F (dev_ok p) (usb_host_endpoint_clear env h ep)"
  "maintains F (dev_ok p) (vTaskDelay ms)"
  by (simp_all add: usb_host_endpoint_halt_def usb_host_endpoint_flush_def
      usb_host_endpoint_clear_def vTaskDelay_def)

lemma wait_dev_ok:
  assumes "flush_completes env" and "dev_ok p s" and "xp \<noteq> NULL" and "xfers s xp = Some x"
    and "xfer_context x = p"
  shows "\<exists>st t. wait_for_transfer_done env xp s = Ret st t \<and> dev_ok p t \<and> devs t = devs s \<and>
    (\<exists>y. xfers t xp = Some y \<and> length (data_buffer y) = length (data_buffer x) \<and>
      (st = USB_TRANSFER_STATUS_COMPLETED \<longrightarrow> cmp_received (r_completion env (hist s) x) \<and>
         y = complete_transfer (r_completion env (hist s) x) x))"
proof -
  from assms(2) obtain d where d: "p \<noteq> NULL" "devs s p = Some d"
    by (auto simp: dev_ok_def transfer_at_def)
  show ?thesis
  proof (cases "cmp_received (r_completion env (hist s) x)")
    case True
    with assms d have "wait_for_transfer_done env xp s =
        Ret (cmp_status (r_completion env (hist s) x)) (awaited env (transfer_done d) xp x s)"
      by simp
    with True assms show ?thesis
      using dev_ok_awaited [OF assms(2,4)] by (simp add: awaited_def)
  next
    case False
    with assms d obtain es
      where "wait_for_transfer_done env xp s = Ret USB_TRANSFER_STATUS_TIMED_OUT (s\<lparr>hist := hist s @ es\<rparr>)"
      using wait_timed_out by metis
    with assms show ?thesis by simp
  qed
qed

lemma grow_dev_ok:
  assumes "alloc_succeeds env" and "dev_ok p s"
  shows "\<exists>e t. grow_transfer env p n s = Ret e t \<and> dev_ok p t \<and>
    (e = ESP_OK \<longrightarrow> (\<exists>d x. transfer_at t p d x \<and> n \<le> length (data_buffer x)))"
proof -
  from assms(2) obtain d x where at: "transfer_at s p d x" "DEFAULT_XFER_SIZE \<le> length (data_buffer x)"
    "next_ptr s \<noteq> NULL" "s_msc_driver s \<noteq> None" by (rule dev_okE)
  let ?e = "r_transfer_free env (hist s) (xfer d)"
  let ?h = "hist s @ [Usb (EvXferFree (xfer d) ?e)]"
  consider "n \<le> length (data_buffer x)" | "length (data_buffer x) < n" "?e \<noteq> ESP_OK"
    | "length (data_buffer x) < n" "?e = ESP_OK" by linarith
  then show ?thesis
  proof cases
    case 1
    with at assms(2) have "grow_transfer env p n s = Ret ESP_OK s" by simp
    with at 1 assms(2) show ?thesis by blast
  next
    case 2
    with at have "grow_transfer env p n s = Ret ?e (s\<lparr>hist := ?h\<rparr>)"
      by (simp add: grow_transfer_def usb_host_transfer_free_def transfer_atD)
    with 2 assms(2) show ?thesis by simp
  next
    case 3
    let ?q = "next_ptr s"
    let ?x = "fresh_xfer env ?h n"
    let ?t = "s\<lparr>hist := ?h @ [Usb (EvXferAlloc n ?q ESP_OK)],
      xfers := (xfers s)(xfer d := None, ?q \<mapsto> ?x), next_ptr := Suc ?q,
      devs := (devs s)(p \<mapsto> d\<lparr>xfer := ?q\<rparr>)\<rparr>"
    from 3 at assms(1) have run: "grow_transfer env p n s = Ret ESP_OK ?t"
      by (simp add: grow_transfer_def usb_host_transfer_free_def usb_host_transfer_alloc_def
          alloc_succeeds_def Let_def transfer_atD)
    have at': "transfer_at ?t p (d\<lparr>xfer := ?q\<rparr>) ?x"
      using at by (simp add: transfer_at_def)
    moreover from at' have "dev_ok p ?t"
      by (rule dev_okI) (use at 3 in auto)
    ultimately show ?thesis using run by (metis length_fresh_xfer order_refl)
  qed
qed

lemma finish_transfer_cases:
  assumes "xp \<noteq> NULL" "xfers s xp = Some x"
  shows "finish_transfer xp data ep st s =
    (if st = USB_TRANSFER_STATUS_COMPLETED then
       (if ep = MSC_EP_OUT then Ret (ESP_OK, data) s
        else if actual_num_bytes x \<le> length (data_buffer x) \<and> actual_num_bytes x \<le> length data
        then Ret (ESP_OK, overwrite (take (actual_num_bytes x) (data_buffer x)) data) s
        else Fault BufferOverflow)
     else if st = USB_TRANSFER_STATUS_STALL then Ret (ESP_ERR_MSC_STALL, data) s
     else Ret (ESP_ERR_MSC_INTERNAL, data) s)"
  using assms by (cases st; cases ep) (simp_all add: finish_transfer_def)

text \<open>
  One bulk transfer on a usable device: it cannot block, touch a dead object or overflow the
  transfer's own buffer; the one fault left is the copy of a received transfer into memory
  that is too small for it. \<open>delivers env n k\<close>: some transfer of \<open>n\<close> bytes ends with \<open>k\<close>.
\<close>

definition delivers :: "env \<Rightarrow> nat \<Rightarrow> nat \<Rightarrow> bool" where
  "delivers env n k \<longleftrightarrow> (\<exists>h x. num_bytes x = n \<and> cmp_actual (r_completion env h x) = k)"

lemma delivers_honest: "honest_host env \<Longrightarrow> delivers env n k \<Longrightarrow> k \<le> n"
  by (auto simp: honest_host_def delivers_def)

lemma actual_complete [simp]: "actual_num_bytes (complete_transfer c x) = cmp_actual c"
  by (simp add: complete_transfer_def Let_def)

lemma bulk_transfer_cases:
  assumes env: "alloc_succeeds env" "flush_completes env" and ok: "dev_ok p s"
    and dev: "devs s p = Some d0"
  shows "(\<exists>e data' t. msc_bulk_transfer env p data n ep s = Ret (e, data') t \<and> dev_ok p t \<and>
            length data' = length data \<and> (ep = MSC_EP_OUT \<longrightarrow> data' = data)) \<or>
    msc_bulk_transfer env p data n ep s = Fault BufferOverflow \<and> ep = MSC_EP_IN \<and>
      (\<exists>k. delivers env (bulk_transfer_size env d0 n ep) k \<and>
        (bulk_transfer_size env d0 n ep < k \<or> length data < k))"
proof -
  from ok dev obtain x0 where at0: "transfer_at s p d0 x0"
    by (auto elim!: dev_okE simp: transfer_at_def)
  let ?ts = "bulk_transfer_size env d0 n ep"
  obtain e1 t1 where grow: "grow_transfer env p ?ts s = Ret e1 t1" "dev_ok p t1"
    "e1 = ESP_OK \<longrightarrow> (\<exists>d x. transfer_at t1 p d x \<and> ?ts \<le> length (data_buffer x))"
    using grow_dev_ok [OF env(1) ok] by metis
  show ?thesis
  proof (cases "e1 = ESP_OK")
    case False
    with at0 grow show ?thesis by (simp add: msc_bulk_transfer_def Let_def)
  next
    case True
    with grow obtain d x where at: "transfer_at t1 p d x" "?ts \<le> length (data_buffer x)" by blast
    have dx: "DEFAULT_XFER_SIZE \<le> length (data_buffer x)"
      using grow(2) at(1) by (auto elim!: dev_okE simp: transfer_at_def)
    let ?x = "loaded_transfer env (hist t1) p d x data n ?ts ep"
    let ?t2 = "t1\<lparr>xfers := (xfers t1)(xfer d \<mapsto> ?x)\<rparr>"
    have load: "load_transfer env p data n ?ts ep t1 = Ret (xfer d) ?t2"
      using at by (intro load_transfer_run) (auto simp: bulk_transfer_size_def)
    have xd: "xfer d \<noteq> NULL" using at by auto
    obtain e3 t3 where submit: "usb_host_transfer_submit env (xfer d) ?t2 = Ret e3 t3"
      and t3: "t3 = ?t2\<lparr>hist := hist ?t2 @ [Usb (EvSubmit ?x e3)]\<rparr>"
      using xd by (simp add: usb_host_transfer_submit_def)
    have "dev_ok p ?t2" using grow(2) dx by (intro dev_ok_put_xfer) simp_all
    then have ok3: "dev_ok p t3" unfolding t3 by simp
    have x3: "xfers t3 (xfer d) = Some ?x" "xfer_context ?x = p" "num_bytes ?x = ?ts"
      by (simp_all add: t3)
    obtain st t4 y where wait: "wait_for_transfer_done env (xfer d) t3 = Ret st t4" "dev_ok p t4"
      "xfers t4 (xfer d) = Some y" "length (data_buffer y) = length (data_buffer x)"
      and y: "st = USB_TRANSFER_STATUS_COMPLETED \<longrightarrow> y = complete_transfer (r_completion env (hist t3) ?x) ?x"
      using wait_dev_ok [OF env(2) ok3 xd x3(1,2)] by (metis length_loaded)
    have deliv: "delivers env ?ts (actual_num_bytes y)" if "st = USB_TRANSFER_STATUS_COMPLETED"
      using y that x3(3) unfolding delivers_def by (metis actual_complete)
    have run: "msc_bulk_transfer env p data n ep s =
      (if e3 \<noteq> ESP_OK then Ret (e3, data) t3 else finish_transfer (xfer d) data ep st t4)"
      using at0 grow(1) True load submit wait(1) by (simp add: msc_bulk_transfer_def Let_def)
    let ?fits = "actual_num_bytes y \<le> length (data_buffer y) \<and> actual_num_bytes y \<le> length data"
    show ?thesis
    proof (cases "e3 = ESP_OK \<and> st = USB_TRANSFER_STATUS_COMPLETED \<and> ep = MSC_EP_IN \<and> \<not> ?fits")
      case True
      then have "msc_bulk_transfer env p data n ep s = Fault BufferOverflow"
        unfolding run finish_transfer_cases [OF xd wait(3)] by simp
      moreover have "?ts < actual_num_bytes y \<or> length data < actual_num_bytes y"
        using True wait(4) at(2) by linarith
      ultimately show ?thesis using True deliv by blast
    next
      case False
      then show ?thesis
        unfolding run finish_transfer_cases [OF xd wait(3)] using ok3 wait(2)
        by (cases ep; cases "e3 = ESP_OK"; cases "st = USB_TRANSFER_STATUS_COMPLETED") simp_all
    qed
  qed
qed

text \<open>
  Control transfers go through the same transfer: on a usable device a control request ends
  without a fault and leaves the device usable.
\<close>

lemma runs_dev_okI:
  "(\<And>s. dev_ok p s \<Longrightarrow> \<exists>a t. m s = Ret a t \<and> dev_ok p t) \<Longrightarrow> maintains F (dev_ok p) m"
  by (rule runsI) force

lemma write_setup_dev_ok:
  assumes "transfer_at s p d x" and "dev_ok p s"
  obtains t where "write_setup (xfer d) q s = Ret () t" "dev_ok p t" "transfer_at t p d
    (x\<lparr>data_buffer := overwrite (setup_bytes q) (data_buffer x)\<rparr>)"
proof -
  from assms have len: "DEFAULT_XFER_SIZE \<le> length (data_buffer x)"
    by (auto elim!: dev_okE simp: transfer_at_def)
  let ?x = "x\<lparr>data_buffer := overwrite (setup_bytes q) (data_buffer x)\<rparr>"
  let ?t = "s\<lparr>xfers := (xfers s)(xfer d \<mapsto> ?x)\<rparr>"
  have "write_setup (xfer d) q s = Ret () ?t"
    using assms len by (simp add: write_setup_def)
  moreover have "dev_ok p ?t"
    using assms len by (intro dev_ok_put_xfer) simp_all
  moreover have "transfer_at ?t p d ?x"
    using assms by (simp add: transfer_at_def)
  ultimately show thesis by (rule that)
qed

lemma control_transfer_maintains:
  assumes "flush_completes env"
  shows "maintains F (dev_ok p) (msc_control_transfer env p n)"
proof (rule runs_dev_okI)
  fix s
  assume ok: "dev_ok p s"
  then obtain d x where at: "transfer_at s p d x" "DEFAULT_XFER_SIZE \<le> length (data_buffer x)"
    "s_msc_driver s \<noteq> None" by (rule dev_okE)
  then obtain drv where drv: "s_msc_driver s = Some drv" by blast
  let ?x = "x\<lparr>device_handle := handle d, bEndpointAddress := 0,
        callback := True, timeout_ms := 5000, num_bytes := n, xfer_context := p\<rparr>"
  let ?t = "s\<lparr>xfers := (xfers s)(xfer d \<mapsto> ?x)\<rparr>"
  have xd: "xfer d \<noteq> NULL" using at by auto
  have ok1: "dev_ok p ?t" using ok at by (intro dev_ok_put_xfer) simp_all
  obtain e2 t2 where submit: "usb_host_transfer_submit_control env (client_handle drv) (xfer d) ?t = Ret e2 t2"
    and t2: "t2 = ?t\<lparr>hist := hist ?t @ [Usb (EvSubmitControl (client_handle drv) ?x e2)]\<rparr>"
    using xd by (simp add: usb_host_transfer_submit_control_def)
  have ok2: "dev_ok p t2" unfolding t2 using ok1 by simp
  have x2: "xfers t2 (xfer d) = Some ?x" "xfer_context ?x = p" by (simp_all add: t2)
  obtain st t3 where wait: "wait_for_transfer_done env (xfer d) t2 = Ret st t3" "dev_ok p t3"
    using wait_dev_ok [OF assms ok2 xd x2] by metis
  have run: "msc_control_transfer env p n s = (if e2 \<noteq> ESP_OK then Ret e2 t2
      else Ret (if st = USB_TRANSFER_STATUS_COMPLETED then ESP_OK else ESP_ERR_MSC_INTERNAL) t3)"
    using at drv submit wait(1) by (simp add: msc_control_transfer_def)
  show "\<exists>a t. msc_control_transfer env p n s = Ret a t \<and> dev_ok p t"
    unfolding run using ok2 wait(2) by simp
qed

lemma runs_deref_dev:
  assumes "\<And>d. runs F (\<lambda>s. dev_ok p s \<and> devs s p = Some d) (k d) Q"
  shows "runs F (dev_ok p) (bind (deref_dev p) k) Q"
proof (rule runsI)
  fix s
  assume ok: "dev_ok p s"
  then obtain d x where at: "transfer_at s p d x" by (rule dev_okE)
  with ok have "dev_ok p s \<and> devs s p = Some d" by auto
  with assms [of d] have "case k d s of Ret a t \<Rightarrow> Q a t | Fault f \<Rightarrow> f \<in> F"
    unfolding runs_def by blast
  with at show "case bind (deref_dev p) k s of Ret a t \<Rightarrow> Q a t | Fault f \<Rightarrow> f \<in> F" by simp
qed

lemma write_setup_maintains:
  "runs F (\<lambda>s. dev_ok p s \<and> devs s p = Some d) (write_setup (xfer d) q) (\<lambda>_. dev_ok p)"
proof (rule runsI, elim conjE)
  fix s
  assume ok: "dev_ok p s" and d: "devs s p = Some d"
  then obtain x where at: "transfer_at s p d x" by (auto elim!: dev_okE simp: transfer_at_def)
  obtain t where "write_setup (xfer d) q s = Ret () t" "dev_ok p t"
    by (rule write_setup_dev_ok [OF at ok])
  then show "case write_setup (xfer d) q s of Ret a t \<Rightarrow> dev_ok p t | Fault f \<Rightarrow> f \<in> F" by simp
qed

text \<open>Under the invariant the device record read at the start is still the device's.\<close>

lemma ask_keeps_dev:
  "runs F (\<lambda>s. dev_ok p s \<and> devs s p = Some d) (ask f ev) (\<lambda>_ s. dev_ok p s \<and> devs s p = Some d)"
  by (simp add: runs_def)

lemma clear_feature_maintains:
  assumes "flush_completes env"
  shows "maintains F (dev_ok p) (clear_feature env p ep)"
  unfolding clear_feature_def usb_host_endpoint_halt_def usb_host_endpoint_flush_def
    usb_host_endpoint_clear_def
  apply (rule runs_deref_dev)
  apply (rule runs_on_error [OF ask_keeps_dev], rule runs_return, simp)+
  apply (rule runs_then_do [OF write_setup_maintains])
  apply (rule runs_on_error [OF control_transfer_maintains [OF assms]]; simp)
  done

lemma mass_reset_maintains:
  assumes "flush_completes env"
  shows "maintains F (dev_ok p) (msc_mass_reset env p)"
  unfolding msc_mass_reset_def
  apply (rule runs_deref_dev)
  apply (rule runs_then_do [OF write_setup_maintains])
  apply (rule runs_on_error [OF control_transfer_maintains [OF assms]]; simp)
  done

text \<open>The invariant for a bulk transfer, with the one fault it leaves.\<close>

lemma bulk_transfer_maintains:
  assumes "alloc_succeeds env" "flush_completes env"
  shows "runs {BufferOverflow} (dev_ok p) (msc_bulk_transfer env p data n ep)
    (\<lambda>(e, data') s. dev_ok p s \<and> length data' = length data)"
proof (rule runsI)
  fix s
  assume ok: "dev_ok p s"
  then obtain d x where at: "transfer_at s p d x" by (rule dev_okE)
  show "case msc_bulk_transfer env p data n ep s of Ret a t \<Rightarrow>
      (case a of (e, data') \<Rightarrow> \<lambda>s. dev_ok p s \<and> length data' = length data) t | Fault f \<Rightarrow> f \<in> {BufferOverflow}"
    using bulk_transfer_cases [OF assms ok transfer_atD(2) [OF at], of data n ep]
    by (elim disjE exE conjE) simp_all
qed

end
