(* ===== verification/Scsi_Cbw.thy ===== *)
theory Scsi_Cbw imports Prelude begin

text \<open>
  The wire formats of \<open>src/msc_scsi_bot.c\<close>: the Command Block Wrapper structs, byte for byte
  as the packed C structs lie in the little-endian memory that is sent, the Command Status
  Wrapper, the responses, and the sense-key table. Then the other side of the wire: what a
  device that follows the Bulk-Only Transport and SCSI reads from those bytes, stated from the
  byte positions of those specifications and not from the structs.
\<close>

section \<open>Constants\<close>

definition CWB_FLAG_DIRECTION_IN :: u8 where [simp]: "CWB_FLAG_DIRECTION_IN = 0x80"
definition IN_DIR :: u8 where [simp]: "IN_DIR = CWB_FLAG_DIRECTION_IN"
definition OUT_DIR :: u8 where [simp]: "OUT_DIR = 0"
definition CBW_SIGNATURE :: u32 where [simp]: "CBW_SIGNATURE = 0x43425355"
definition CSW_SIGNATURE :: u32 where [simp]: "CSW_SIGNATURE = 0x53425355"
definition CBW_SIZE :: nat where [simp]: "CBW_SIZE = 31"
definition CSW_SIZE :: nat where [simp]: "CSW_SIZE = 13"

definition SCSI_CMD_INQUIRY :: u8 where [simp]: "SCSI_CMD_INQUIRY = 0x12"
definition SCSI_CMD_MODE_SENSE :: u8 where [simp]: "SCSI_CMD_MODE_SENSE = 0x5A"
definition SCSI_CMD_PREVENT_ALLOW_MEDIUM_REMOVAL :: u8 where
  [simp]: "SCSI_CMD_PREVENT_ALLOW_MEDIUM_REMOVAL = 0x1E"
definition SCSI_CMD_READ10 :: u8 where [simp]: "SCSI_CMD_READ10 = 0x28"
definition SCSI_CMD_READ_CAPACITY :: u8 where [simp]: "SCSI_CMD_READ_CAPACITY = 0x25"
definition SCSI_CMD_REQUEST_SENSE :: u8 where [simp]: "SCSI_CMD_REQUEST_SENSE = 0x03"
definition SCSI_CMD_TEST_UNIT_READY :: u8 where [simp]: "SCSI_CMD_TEST_UNIT_READY = 0x00"
definition SCSI_CMD_WRITE10 :: u8 where [simp]: "SCSI_CMD_WRITE10 = 0x2A"

section \<open>Command Block Wrappers\<close>

record msc_cbw =
  signature :: u32
  tag :: u32
  data_length :: u32
  flags :: u8
  lun :: u8
  cbw_length :: u8

definition bytes_msc_cbw :: "msc_cbw \<Rightarrow> u8 list" where
  "bytes_msc_cbw b = le32 (signature b) @ le32 (tag b) @ le32 (data_length b) @
     [flags b, lun b, cbw_length b]"

lemma length_bytes_msc_cbw [simp]: "length (bytes_msc_cbw b) = 15"
  by (simp add: bytes_msc_cbw_def)

text \<open>
  \<open>CBW_BASE_INIT\<close>. The tag is the incremented counter, passed in by the caller; \<open>cbw_len\<close> is
  \<open>CBW_CMD_SIZE\<close>, the size of the command's struct without its base.
\<close>

definition CBW_BASE_INIT :: "u32 \<Rightarrow> u8 \<Rightarrow> u8 \<Rightarrow> u32 \<Rightarrow> msc_cbw" where
  "CBW_BASE_INIT new_tag dir cbw_len data_len = \<lparr>signature = CBW_SIGNATURE, tag = new_tag,
     data_length = data_len, flags = dir, lun = 0, cbw_length = cbw_len\<rparr>"

definition CBW_CMD_SIZE :: "nat \<Rightarrow> u8" where
  "CBW_CMD_SIZE sizeof_cmd = of_nat (sizeof_cmd - 15)"

record cbw_read10 =
  r10_base :: msc_cbw
  r10_opcode :: u8
  r10_flags :: u8
  r10_address :: u32
  r10_reserved1 :: u8
  r10_length :: u16
  r10_reserved2 :: "u8 list"

definition bytes_cbw_read10 :: "cbw_read10 \<Rightarrow> u8 list" where
  "bytes_cbw_read10 c = bytes_msc_cbw (r10_base c) @ [r10_opcode c, r10_flags c] @
     le32 (r10_address c) @ [r10_reserved1 c] @ le16 (r10_length c) @ r10_reserved2 c"

record cbw_write10 =
  w10_base :: msc_cbw
  w10_opcode :: u8
  w10_flags :: u8
  w10_address :: u32
  w10_reserved1 :: u8
  w10_length :: u16
  w10_reserved2 :: "u8 list"

definition bytes_cbw_write10 :: "cbw_write10 \<Rightarrow> u8 list" where
  "bytes_cbw_write10 c = bytes_msc_cbw (w10_base c) @ [w10_opcode c, w10_flags c] @
     le32 (w10_address c) @ [w10_reserved1 c] @ le16 (w10_length c) @ w10_reserved2 c"

record cbw_read_capacity =
  rc_base :: msc_cbw
  rc_opcode :: u8
  rc_flags :: u8
  rc_address :: u32
  rc_reserved :: "u8 list"

definition bytes_cbw_read_capacity :: "cbw_read_capacity \<Rightarrow> u8 list" where
  "bytes_cbw_read_capacity c = bytes_msc_cbw (rc_base c) @ [rc_opcode c, rc_flags c] @
     le32 (rc_address c) @ rc_reserved c"

record cbw_unit_ready =
  ur_base :: msc_cbw
  ur_opcode :: u8
  ur_flags :: u8
  ur_reserved :: "u8 list"

definition bytes_cbw_unit_ready :: "cbw_unit_ready \<Rightarrow> u8 list" where
  "bytes_cbw_unit_ready c = bytes_msc_cbw (ur_base c) @ [ur_opcode c, ur_flags c] @ ur_reserved c"

record cbw_sense =
  sn_base :: msc_cbw
  sn_opcode :: u8
  sn_flags :: u8
  sn_reserved_0 :: "u8 list"
  sn_allocation_length :: u8
  sn_reserved_1 :: "u8 list"

definition bytes_cbw_sense :: "cbw_sense \<Rightarrow> u8 list" where
  "bytes_cbw_sense c = bytes_msc_cbw (sn_base c) @ [sn_opcode c, sn_flags c] @ sn_reserved_0 c @
     [sn_allocation_length c] @ sn_reserved_1 c"

record cbw_inquiry =
  iq_base :: msc_cbw
  iq_opcode :: u8
  iq_flags :: u8
  iq_page_code :: u8
  iq_reserved_0 :: u8
  iq_allocation_length :: u8
  iq_reserved_1 :: "u8 list"

definition bytes_cbw_inquiry :: "cbw_inquiry \<Rightarrow> u8 list" where
  "bytes_cbw_inquiry c = bytes_msc_cbw (iq_base c) @ [iq_opcode c, iq_flags c, iq_page_code c,
     iq_reserved_0 c, iq_allocation_length c] @ iq_reserved_1 c"

record mode_sense =
  ms_base :: msc_cbw
  ms_opcode :: u8
  ms_flags :: u8
  ms_pc_page_code :: u8
  ms_reserved_1 :: "u8 list"
  ms_parameter_list_length :: u16
  ms_reserved_2 :: "u8 list"

definition bytes_mode_sense :: "mode_sense \<Rightarrow> u8 list" where
  "bytes_mode_sense c = bytes_msc_cbw (ms_base c) @ [ms_opcode c, ms_flags c, ms_pc_page_code c] @
     ms_reserved_1 c @ le16 (ms_parameter_list_length c) @ ms_reserved_2 c"

record prevent_allow_medium_removal =
  pr_base :: msc_cbw
  pr_opcode :: u8
  pr_flags :: u8
  pr_reserved_1 :: "u8 list"
  pr_prevent :: u8
  pr_reserved_2 :: "u8 list"

definition bytes_prevent_removal :: "prevent_allow_medium_removal \<Rightarrow> u8 list" where
  "bytes_prevent_removal c = bytes_msc_cbw (pr_base c) @ [pr_opcode c, pr_flags c] @
     pr_reserved_1 c @ [pr_prevent c] @ pr_reserved_2 c"

section \<open>The commands as the driver initialises them\<close>

text \<open>
  The initialisers of the \<open>scsi_cmd_*\<close> functions; a field an initialiser does not name is 0.
  \<open>sizeof\<close> of each struct is written out, and \<open>sizeof_cbws\<close> below checks it.
\<close>

definition init_read10 :: "u32 \<Rightarrow> u32 \<Rightarrow> u32 \<Rightarrow> u32 \<Rightarrow> cbw_read10" where
  "init_read10 new_tag sector_address num_sectors sector_size = \<lparr>
     r10_base = CBW_BASE_INIT new_tag IN_DIR (CBW_CMD_SIZE 27) (num_sectors * sector_size),
     r10_opcode = SCSI_CMD_READ10, r10_flags = 0, r10_address = bswap32 sector_address,
     r10_reserved1 = 0, r10_length = bswap16 (ucast num_sectors), r10_reserved2 = [0, 0, 0]\<rparr>"

definition init_write10 :: "u32 \<Rightarrow> u32 \<Rightarrow> u32 \<Rightarrow> u32 \<Rightarrow> cbw_write10" where
  "init_write10 new_tag sector_address num_sectors sector_size = \<lparr>
     w10_base = CBW_BASE_INIT new_tag OUT_DIR (CBW_CMD_SIZE 25) (num_sectors * sector_size),
     w10_opcode = SCSI_CMD_WRITE10, w10_flags = 0, w10_address = bswap32 sector_address,
     w10_reserved1 = 0, w10_length = bswap16 (ucast num_sectors), w10_reserved2 = [0]\<rparr>"

definition init_read_capacity :: "u32 \<Rightarrow> cbw_read_capacity" where
  "init_read_capacity new_tag = \<lparr>
     rc_base = CBW_BASE_INIT new_tag IN_DIR (CBW_CMD_SIZE 27) 8,
     rc_opcode = SCSI_CMD_READ_CAPACITY, rc_flags = 0, rc_address = 0,
     rc_reserved = [0, 0, 0, 0, 0, 0]\<rparr>"

definition init_unit_ready :: "u32 \<Rightarrow> cbw_unit_ready" where
  "init_unit_ready new_tag = \<lparr>
     ur_base = CBW_BASE_INIT new_tag IN_DIR (CBW_CMD_SIZE 27) 0,
     ur_opcode = SCSI_CMD_TEST_UNIT_READY, ur_flags = 0,
     ur_reserved = [0, 0, 0, 0, 0, 0, 0, 0, 0, 0]\<rparr>"

definition init_sense :: "u32 \<Rightarrow> cbw_sense" where
  "init_sense new_tag = \<lparr>
     sn_base = CBW_BASE_INIT new_tag IN_DIR (CBW_CMD_SIZE 27) 18,
     sn_opcode = SCSI_CMD_REQUEST_SENSE, sn_flags = 0, sn_reserved_0 = [0, 0],
     sn_allocation_length = 18, sn_reserved_1 = [0, 0, 0, 0, 0, 0, 0]\<rparr>"

definition init_inquiry :: "u32 \<Rightarrow> cbw_inquiry" where
  "init_inquiry new_tag = \<lparr>
     iq_base = CBW_BASE_INIT new_tag IN_DIR (CBW_CMD_SIZE 27) 36,
     iq_opcode = SCSI_CMD_INQUIRY, iq_flags = 0, iq_page_code = 0, iq_reserved_0 = 0,
     iq_allocation_length = 36, iq_reserved_1 = [0, 0, 0, 0, 0, 0, 0]\<rparr>"

definition init_mode_sense :: "u32 \<Rightarrow> mode_sense" where
  "init_mode_sense new_tag = \<lparr>
     ms_base = CBW_BASE_INIT new_tag IN_DIR (CBW_CMD_SIZE 27) 8,
     ms_opcode = SCSI_CMD_MODE_SENSE, ms_flags = 0, ms_pc_page_code = 0x3F,
     ms_reserved_1 = [0, 0, 0, 0], ms_parameter_list_length = 8, ms_reserved_2 = [0, 0, 0]\<rparr>"

definition init_prevent_removal :: "u32 \<Rightarrow> bool \<Rightarrow> prevent_allow_medium_removal" where
  "init_prevent_removal new_tag prevent = \<lparr>
     pr_base = CBW_BASE_INIT new_tag OUT_DIR (CBW_CMD_SIZE 27) 0,
     pr_opcode = SCSI_CMD_PREVENT_ALLOW_MEDIUM_REMOVAL, pr_flags = 0, pr_reserved_1 = [0, 0],
     pr_prevent = (if prevent then 1 else 0), pr_reserved_2 = [0, 0, 0, 0, 0, 0, 0]\<rparr>"

lemmas init_defs = init_read10_def init_write10_def init_read_capacity_def init_unit_ready_def
  init_sense_def init_inquiry_def init_mode_sense_def init_prevent_removal_def

lemmas bytes_defs = bytes_cbw_read10_def bytes_cbw_write10_def bytes_cbw_read_capacity_def
  bytes_cbw_unit_ready_def bytes_cbw_sense_def bytes_cbw_inquiry_def bytes_mode_sense_def
  bytes_prevent_removal_def

lemma sizeof_cbws [simp]:
  "length (bytes_cbw_read10 (init_read10 t a n z)) = 27"
  "length (bytes_cbw_write10 (init_write10 t a n z)) = 25"
  "length (bytes_cbw_read_capacity (init_read_capacity t)) = 27"
  "length (bytes_cbw_unit_ready (init_unit_ready t)) = 27"
  "length (bytes_cbw_sense (init_sense t)) = 27"
  "length (bytes_cbw_inquiry (init_inquiry t)) = 27"
  "length (bytes_mode_sense (init_mode_sense t)) = 27"
  "length (bytes_prevent_removal (init_prevent_removal t b)) = 27"
  by (simp_all add: init_defs bytes_defs)

section \<open>Fixed-size formats\<close>

text \<open>
  A format of fixed size is an encoding and a decoding that are inverse to each other on
  byte strings of that size. Everything read from the bus is read through such a format, so
  what the code checks about the fields is a statement about the bytes.
\<close>

locale fixed_format =
  fixes enc :: "'a \<Rightarrow> u8 list" and dec :: "u8 list \<Rightarrow> 'a" and width :: nat
  assumes enc_width: "length (enc x) = width"
    and dec_enc: "dec (enc x) = x"
    and enc_dec: "length bs = width \<Longrightarrow> enc (dec bs) = bs"
begin

lemma enc_inject: "enc x = enc y \<longleftrightarrow> x = y"
  by (metis dec_enc)

lemma dec_eq_iff: "length bs = width \<Longrightarrow> dec bs = x \<longleftrightarrow> bs = enc x"
  by (metis dec_enc enc_dec)

lemma dec_overwrite: "length old = width \<Longrightarrow> dec (overwrite (enc x) old) = x"
  by (simp add: overwrite_full enc_width dec_enc)

lemma concat_take: "take width (enc x @ rest) = enc x" "drop width (enc x @ rest) = rest"
  by (simp_all add: enc_width)

end

interpretation le32_format: fixed_format le32 of_le32 4
proof unfold_locales
  fix bs :: "u8 list"
  assume "length bs = 4"
  then obtain a b c d where "bs = [a, b, c, d]"
    by (auto simp: eval_nat_numeral length_Suc_conv)
  then show "le32 (of_le32 bs) = bs" by simp
qed simp_all

interpretation le16_format: fixed_format le16 of_le16 2
proof unfold_locales
  fix bs :: "u8 list"
  assume "length bs = 2"
  then obtain a b where "bs = [a, b]"
    by (auto simp: eval_nat_numeral length_Suc_conv)
  then show "le16 (of_le16 bs) = bs" by simp
qed simp_all

section \<open>The Command Status Wrapper\<close>

record msc_csw =
  csw_signature :: u32
  csw_tag :: u32
  csw_dataResidue :: u32
  csw_status :: u8

definition bytes_csw :: "msc_csw \<Rightarrow> u8 list" where
  "bytes_csw c = le32 (csw_signature c) @ le32 (csw_tag c) @ le32 (csw_dataResidue c) @ [csw_status c]"

definition csw_of_bytes :: "u8 list \<Rightarrow> msc_csw" where
  "csw_of_bytes b = \<lparr>csw_signature = of_le32 (take 4 b), csw_tag = of_le32 (take 4 (drop 4 b)),
     csw_dataResidue = of_le32 (take 4 (drop 8 b)), csw_status = b ! 12\<rparr>"

interpretation csw_format: fixed_format bytes_csw csw_of_bytes CSW_SIZE
proof unfold_locales
  fix bs :: "u8 list"
  assume len: "length bs = CSW_SIZE"
  have "bytes_csw (csw_of_bytes bs) = take 4 bs @ take 4 (drop 4 bs) @ take 4 (drop 8 bs) @ [bs ! 12]"
    using len by (simp add: bytes_csw_def csw_of_bytes_def le32_format.enc_dec)
  also have "\<dots> = bs"
    using len by (simp add: list_eq_iff_nth_eq nth_append) (auto simp: less_Suc_eq numeral_eq_Suc)
  finally show "bytes_csw (csw_of_bytes bs) = bs" .
qed (simp_all add: bytes_csw_def csw_of_bytes_def nth_append)

definition check_csw :: "msc_csw \<Rightarrow> u32 \<Rightarrow> esp_err_t" where
  "check_csw csw t =
     (let csw_ok = csw_signature csw = CSW_SIGNATURE \<and> csw_tag csw = t \<and>
                   csw_dataResidue csw = 0 \<and> csw_status csw = 0
      in if csw_ok then ESP_OK else ESP_FAIL)"

definition passing_csw :: "u32 \<Rightarrow> msc_csw" where
  "passing_csw t = \<lparr>csw_signature = CSW_SIGNATURE, csw_tag = t, csw_dataResidue = 0, csw_status = 0\<rparr>"

lemma check_csw_ok: "check_csw csw t = ESP_OK \<longleftrightarrow> csw = passing_csw t"
  by (cases csw) (auto simp: check_csw_def passing_csw_def)

lemma check_csw_values: "check_csw csw t = ESP_OK \<or> check_csw csw t = ESP_FAIL"
  by (simp add: check_csw_def)

section \<open>Responses\<close>

text \<open>
  \<open>cbw_read_capacity_response_t\<close> and \<open>cbw_sense_response_t\<close>, read from the bytes of the
  packed struct. Of the sense response the driver reads the key and the two code bytes.
\<close>

record cbw_read_capacity_response =
  rcr_block_count :: u32
  rcr_block_size :: u32

definition bytes_read_capacity_response :: "cbw_read_capacity_response \<Rightarrow> u8 list" where
  "bytes_read_capacity_response r = le32 (rcr_block_count r) @ le32 (rcr_block_size r)"

definition read_capacity_response_of_bytes :: "u8 list \<Rightarrow> cbw_read_capacity_response" where
  "read_capacity_response_of_bytes b = \<lparr>rcr_block_count = of_le32 (take 4 b),
     rcr_block_size = of_le32 (take 4 (drop 4 b))\<rparr>"

interpretation capacity_format:
  fixed_format bytes_read_capacity_response read_capacity_response_of_bytes 8
  by unfold_locales (simp_all add: bytes_read_capacity_response_def
      read_capacity_response_of_bytes_def le32_format.enc_dec take_drop)

record cbw_sense_response =
  sr_error_code :: u8
  sr_reserved_0 :: u8
  sr_sense_key :: u8
  sr_info :: u32
  sr_sense_len :: u8
  sr_reserved_1 :: u32
  sr_sense_code :: u8
  sr_sense_code_qualifier :: u8
  sr_reserved_2 :: u32

definition sense_response_of_bytes :: "u8 list \<Rightarrow> cbw_sense_response" where
  "sense_response_of_bytes b = \<lparr>sr_error_code = b ! 0, sr_reserved_0 = b ! 1, sr_sense_key = b ! 2,
     sr_info = of_le32 (take 4 (drop 3 b)), sr_sense_len = b ! 7,
     sr_reserved_1 = of_le32 (take 4 (drop 8 b)), sr_sense_code = b ! 12,
     sr_sense_code_qualifier = b ! 13, sr_reserved_2 = of_le32 (take 4 (drop 14 b))\<rparr>"

record sense_errors =
  lut_sense_key :: u8
  lut_asc :: u8
  lut_ascq :: u8
  lut_description :: string

definition sense_errors_lut :: "sense_errors list" where
  "sense_errors_lut = [
     \<lparr>lut_sense_key = 0x00, lut_asc = 0x00, lut_ascq = 0x00, lut_description = ''NO SENSE''\<rparr>,
     \<lparr>lut_sense_key = 0x07, lut_asc = 0x27, lut_ascq = 0x00,
      lut_description = ''WRITE PROTECTED MEDIA''\<rparr>]"

text \<open>The text returned for an unknown key holds a dash of three UTF-8 bytes.\<close>

definition sense_not_found :: string where
  "sense_not_found = ''not found, refer to USB Mass Storage Class '' @ [CHR 0xE2, CHR 0x80, CHR 0x93] @
     '' UFI Command Specification (Table 51)''"

definition decode_sense_keys :: "cbw_sense_response \<Rightarrow> string" where
  "decode_sense_keys r = (case find (\<lambda>e. lut_sense_key e = sr_sense_key r \<and>
       lut_asc e = sr_sense_code r \<and> lut_ascq e = sr_sense_code_qualifier r) sense_errors_lut of
       Some e \<Rightarrow> lut_description e
     | None \<Rightarrow> sense_not_found)"

section \<open>What a device reads from a command\<close>

text \<open>
  The device's side, from the byte positions of the Bulk-Only Transport (table 5.1) and of the
  SCSI command descriptor blocks, whose multi-byte fields are big-endian. \<open>device_reads\<close>
  accepts 31 bytes with the CBW signature and a command block of 1 to 16 bytes, and returns
  the tag, the transfer length, the direction, the unit and the decoded command.
\<close>

datatype scsi_command =
    Test_Unit_Ready
  | Request_Sense u8
  | Inquiry u8
  | Prevent_Removal bool
  | Read_Capacity_10
  | Read_10 u32 u16
  | Write_10 u32 u16
  | Mode_Sense_10 u8 u16

definition be16_at :: "u8 list \<Rightarrow> nat \<Rightarrow> u16" where
  "be16_at cb i = of_le16 [cb ! (i + 1), cb ! i]"

definition be32_at :: "u8 list \<Rightarrow> nat \<Rightarrow> u32" where
  "be32_at cb i = of_le32 [cb ! (i + 3), cb ! (i + 2), cb ! (i + 1), cb ! i]"

definition parse_cdb :: "u8 list \<Rightarrow> scsi_command option" where
  "parse_cdb cb =
     (if length cb \<ge> 6 \<and> cb ! 0 = 0x00 then Some Test_Unit_Ready
      else if length cb \<ge> 6 \<and> cb ! 0 = 0x03 then Some (Request_Sense (cb ! 4))
      else if length cb \<ge> 6 \<and> cb ! 0 = 0x12 then Some (Inquiry (cb ! 4))
      else if length cb \<ge> 6 \<and> cb ! 0 = 0x1E then Some (Prevent_Removal (bit (cb ! 4) 0))
      else if length cb \<ge> 10 \<and> cb ! 0 = 0x25 then Some Read_Capacity_10
      else if length cb \<ge> 10 \<and> cb ! 0 = 0x28 then Some (Read_10 (be32_at cb 2) (be16_at cb 7))
      else if length cb \<ge> 10 \<and> cb ! 0 = 0x2A then Some (Write_10 (be32_at cb 2) (be16_at cb 7))
      else if length cb \<ge> 10 \<and> cb ! 0 = 0x5A then Some (Mode_Sense_10 (cb ! 2) (be16_at cb 7))
      else None)"

record wire_command =
  wc_tag :: u32
  wc_transfer_length :: u32
  wc_device_to_host :: bool
  wc_lun :: u8
  wc_command :: scsi_command

definition device_reads :: "u8 list \<Rightarrow> wire_command option" where
  "device_reads bs =
     (let cb_length = unat ((bs ! 14) AND 0x1F) in
      if length bs = 31 \<and> of_le32 (take 4 bs) = 0x43425355 \<and> 1 \<le> cb_length \<and> cb_length \<le> 16
      then map_option (\<lambda>c. \<lparr>wc_tag = of_le32 (take 4 (drop 4 bs)),
             wc_transfer_length = of_le32 (take 4 (drop 8 bs)),
             wc_device_to_host = bit (bs ! 12) 7, wc_lun = (bs ! 13) AND 0x0F, wc_command = c\<rparr>)
           (parse_cdb (take cb_length (drop 15 bs)))
      else None)"

lemma be16_bswap: "of_le16 [ucast (drop_bit 8 x), ucast x] = bswap16 x"
  by (simp add: bswap16_def le16_def)

lemma be32_bswap:
  "of_le32 [ucast (drop_bit 24 x), ucast (drop_bit 16 x), ucast (drop_bit 8 x), ucast x] = bswap32 x"
  by (simp add: bswap32_def le32_def)

text \<open>
  The base of every command: what a device reads from \<open>CBW_BASE_INIT\<close> followed by a command
  block \<open>cb\<close> and arbitrary padding.
\<close>

lemma device_reads_base:
  assumes "length cb = 10 \<or> length cb = 12" and "length (cb @ pad) = 16" and "dir = IN_DIR \<or> dir = OUT_DIR"
  shows "device_reads (bytes_msc_cbw (CBW_BASE_INIT t dir (of_nat (length cb)) len) @ cb @ pad) =
    map_option (\<lambda>c. \<lparr>wc_tag = t, wc_transfer_length = len, wc_device_to_host = (dir = IN_DIR),
      wc_lun = 0, wc_command = c\<rparr>) (parse_cdb cb)"
proof -
  have dir: "bit dir 7 = (dir = IN_DIR)"
    using assms(3) by (auto simp: bit_simps)
  let ?bs = "bytes_msc_cbw (CBW_BASE_INIT t dir (of_nat (length cb)) len) @ cb @ pad"
  have "take 4 ?bs = le32 CBW_SIGNATURE" "take 4 (drop 4 ?bs) = le32 t" "take 4 (drop 8 ?bs) = le32 len"
    "?bs ! 12 = dir" "?bs ! 13 = 0" "?bs ! 14 = of_nat (length cb)" "drop 15 ?bs = cb @ pad"
    "length ?bs = 31"
    using assms(2) by (simp_all add: bytes_msc_cbw_def CBW_BASE_INIT_def nth_append)
  then show ?thesis
    using assms(1) dir unfolding device_reads_def Let_def by (elim disjE) (simp_all del: CBW_SIGNATURE_def add: CBW_SIGNATURE_def)
qed

text \<open>
  The driver always sends 31 bytes, also for the shorter structs: the rest is whatever lies
  after the struct. What a device reads depends only on the struct.
\<close>

lemma device_reads_padded:
  assumes "bytes = bytes_msc_cbw (CBW_BASE_INIT t dir (of_nat (length cb)) len) @ cb"
    and "length cb = 10 \<or> length cb = 12" and "dir = IN_DIR \<or> dir = OUT_DIR"
  shows "device_reads (mem_read g CBW_SIZE bytes) =
    map_option (\<lambda>c. \<lparr>wc_tag = t, wc_transfer_length = len, wc_device_to_host = (dir = IN_DIR),
      wc_lun = 0, wc_command = c\<rparr>) (parse_cdb cb)"
proof -
  let ?pad = "map g [length bytes..<31]"
  from assms(1,2) have "length bytes \<le> 31" "length (cb @ ?pad) = 16"
    by (auto simp del: upt_Suc)
  then have "mem_read g CBW_SIZE bytes =
      bytes_msc_cbw (CBW_BASE_INIT t dir (of_nat (length cb)) len) @ cb @ ?pad"
    using assms(1) by (simp add: mem_read_def del: upt_Suc)
  with \<open>length (cb @ ?pad) = 16\<close> show ?thesis
    using device_reads_base [OF assms(2) _ assms(3)] by metis
qed

lemma of_le_lists [simp]:
  "of_le32 [ucast x, ucast (drop_bit 8 x), ucast (drop_bit 16 x), ucast (drop_bit 24 x)] = x"
  "of_le16 [ucast y, ucast (drop_bit 8 y)] = y"
  using of_le32_le32 [of x] of_le16_le16 [of y] by (simp_all add: le32_def le16_def)

lemmas bytes_and_init = bytes_defs init_defs CBW_CMD_SIZE_def

lemma reads_read10:
  "device_reads (mem_read g CBW_SIZE (bytes_cbw_read10 (init_read10 t a n z))) =
     Some \<lparr>wc_tag = t, wc_transfer_length = n * z, wc_device_to_host = True, wc_lun = 0,
       wc_command = Read_10 a (ucast n)\<rparr>"
  by (subst device_reads_padded [where t = t and dir = IN_DIR and len = "n * z" and
        cb = "[0x28, 0] @ rev (le32 a) @ [0] @ rev (le16 (ucast n)) @ [0, 0, 0]"])
    (simp_all add: bytes_and_init parse_cdb_def be32_at_def be16_at_def
      le32_def [of a] le16_def [of "ucast n"])

lemma reads_write10:
  "device_reads (mem_read g CBW_SIZE (bytes_cbw_write10 (init_write10 t a n z))) =
     Some \<lparr>wc_tag = t, wc_transfer_length = n * z, wc_device_to_host = False, wc_lun = 0,
       wc_command = Write_10 a (ucast n)\<rparr>"
  by (subst device_reads_padded [where t = t and dir = OUT_DIR and len = "n * z" and
        cb = "[0x2A, 0] @ rev (le32 a) @ [0] @ rev (le16 (ucast n)) @ [0]"])
    (simp_all add: bytes_and_init parse_cdb_def be32_at_def be16_at_def
      le32_def [of a] le16_def [of "ucast n"])

lemma reads_read_capacity:
  "device_reads (mem_read g CBW_SIZE (bytes_cbw_read_capacity (init_read_capacity t))) =
     Some \<lparr>wc_tag = t, wc_transfer_length = 8, wc_device_to_host = True, wc_lun = 0,
       wc_command = Read_Capacity_10\<rparr>"
  by (subst device_reads_padded [where t = t and dir = IN_DIR and len = 8 and
        cb = "[0x25, 0] @ le32 0 @ [0, 0, 0, 0, 0, 0]"])
    (simp_all add: bytes_and_init parse_cdb_def)

lemma reads_unit_ready:
  "device_reads (mem_read g CBW_SIZE (bytes_cbw_unit_ready (init_unit_ready t))) =
     Some \<lparr>wc_tag = t, wc_transfer_length = 0, wc_device_to_host = True, wc_lun = 0,
       wc_command = Test_Unit_Ready\<rparr>"
  by (subst device_reads_padded [where t = t and dir = IN_DIR and len = 0 and
        cb = "[0, 0] @ [0, 0, 0, 0, 0, 0, 0, 0, 0, 0]"])
    (simp_all add: bytes_and_init parse_cdb_def)

lemma reads_sense:
  "device_reads (mem_read g CBW_SIZE (bytes_cbw_sense (init_sense t))) =
     Some \<lparr>wc_tag = t, wc_transfer_length = 18, wc_device_to_host = True, wc_lun = 0,
       wc_command = Request_Sense 18\<rparr>"
  by (subst device_reads_padded [where t = t and dir = IN_DIR and len = 18 and
        cb = "[3, 0, 0, 0, 18] @ [0, 0, 0, 0, 0, 0, 0]"])
    (simp_all add: bytes_and_init parse_cdb_def)

lemma reads_inquiry:
  "device_reads (mem_read g CBW_SIZE (bytes_cbw_inquiry (init_inquiry t))) =
     Some \<lparr>wc_tag = t, wc_transfer_length = 36, wc_device_to_host = True, wc_lun = 0,
       wc_command = Inquiry 36\<rparr>"
  by (subst device_reads_padded [where t = t and dir = IN_DIR and len = 36 and
        cb = "[0x12, 0, 0, 0, 36] @ [0, 0, 0, 0, 0, 0, 0]"])
    (simp_all add: bytes_and_init parse_cdb_def)

lemma reads_mode_sense:
  "device_reads (mem_read g CBW_SIZE (bytes_mode_sense (init_mode_sense t))) =
     Some \<lparr>wc_tag = t, wc_transfer_length = 8, wc_device_to_host = True, wc_lun = 0,
       wc_command = Mode_Sense_10 0x3F 0x0800\<rparr>"
  by (subst device_reads_padded [where t = t and dir = IN_DIR and len = 8 and
        cb = "[0x5A, 0, 0x3F, 0, 0, 0, 0, 8, 0, 0, 0, 0]"])
    (simp_all add: bytes_and_init parse_cdb_def be16_at_def le16_def of_le16_def)

lemma reads_prevent_removal:
  "device_reads (mem_read g CBW_SIZE (bytes_prevent_removal (init_prevent_removal t b))) =
     Some \<lparr>wc_tag = t, wc_transfer_length = 0, wc_device_to_host = False, wc_lun = 0,
       wc_command = Prevent_Removal b\<rparr>"
  by (subst device_reads_padded [where t = t and dir = OUT_DIR and len = 0 and
        cb = "[0x1E, 0, 0, 0, if b then 1 else 0] @ [0, 0, 0, 0, 0, 0, 0]"])
    (simp_all add: bytes_and_init parse_cdb_def)

end
