(* ===== verification/Scsi_Bot.thy ===== *)
theory Scsi_Bot imports Msc_Transfer Scsi_Cbw begin

text \<open>
  The command layer of \<open>src/msc_scsi_bot.c\<close> over the transfer layer: the Bulk-Only Transport
  with its three phases and error recovery, the SCSI commands, the wait for a ready unit and
  the reset recovery of \<open>src/msc_host.c\<close>.

  These functions call each other in a cycle: a command whose status cannot be read runs
  \<open>msc_host_reset_recovery\<close>, which waits for the unit with commands of its own. Every
  function that can reach the recovery takes it as the argument \<open>recover\<close>;
  \<open>msc_host_reset_recovery\<close> ties the knot, and its first argument is the number of nested
  recoveries the task's stack can hold. Going deeper is the fault \<open>StackExhausted\<close>.
\<close>

section \<open>Executing a command\<close>

type_synonym recovery = "ptr \<Rightarrow> (sys, esp_err_t) prog"

text \<open>\<open>++cbw_tag\<close>, and a local object without initialiser.\<close>

definition next_tag :: "(sys, u32) prog" where
  "next_tag = then_do (modify (\<lambda>s. s\<lparr>cbw_tag := cbw_tag s + 1\<rparr>)) (gets cbw_tag)"

definition uninitialised :: "env \<Rightarrow> nat \<Rightarrow> (sys, u8 list) prog" where
  "uninitialised env n = gets (\<lambda>s. map (r_memory env (hist s)) [0..<n])"

definition retry_status :: "recovery \<Rightarrow> env \<Rightarrow> ptr \<Rightarrow> u8 list \<Rightarrow> (sys, esp_err_t \<times> u8 list) prog" where
  "retry_status recover env p csw = bind (deref_dev p) (\<lambda>d.
     on_error (clear_feature env p (bulk_in_ep (config d))) (\<lambda>e. return (e, csw))
       (bind (msc_bulk_transfer env p csw CSW_SIZE MSC_EP_IN) (\<lambda>(err, csw).
          if ESP_OK \<noteq> err then then_do (recover p) (return (err, csw))
          else return (err, csw))))"

definition status_transport :: "recovery \<Rightarrow> env \<Rightarrow> ptr \<Rightarrow> (sys, esp_err_t \<times> u8 list) prog" where
  "status_transport recover env p = bind (uninitialised env CSW_SIZE) (\<lambda>csw.
     bind (msc_bulk_transfer env p csw CSW_SIZE MSC_EP_IN) (\<lambda>(err, csw).
       if err = ESP_ERR_MSC_STALL then retry_status recover env p csw else return (err, csw)))"

definition data_transport ::
    "env \<Rightarrow> ptr \<Rightarrow> u8 list option \<Rightarrow> nat \<Rightarrow> msc_endpoint \<Rightarrow> (sys, esp_err_t \<times> u8 list option) prog" where
  "data_transport env p data n ep = (case data of
       None \<Rightarrow> return (ESP_OK, None)
     | Some d \<Rightarrow> bind (msc_bulk_transfer env p d n ep) (\<lambda>(e, d). return (e, Some d)))"

definition bot_execute_command ::
    "recovery \<Rightarrow> env \<Rightarrow> ptr \<Rightarrow> msc_cbw \<Rightarrow> u8 list \<Rightarrow> u8 list option \<Rightarrow> nat \<Rightarrow>
       (sys, esp_err_t \<times> u8 list option) prog" where
  "bot_execute_command recover env p cbw mem data n =
     (let ep = (if flags cbw AND CWB_FLAG_DIRECTION_IN \<noteq> 0 then MSC_EP_IN else MSC_EP_OUT) in
      bind (msc_bulk_transfer env p mem CBW_SIZE MSC_EP_OUT) (\<lambda>(err, _).
        if err \<noteq> ESP_OK then return (err, data) else
      bind (data_transport env p data n ep) (\<lambda>(err, data).
        if err \<noteq> ESP_OK then return (err, data) else
      bind (status_transport recover env p) (\<lambda>(err, csw).
        if err \<noteq> ESP_OK then return (err, data)
        else return (check_csw (csw_of_bytes csw) (tag cbw), data)))))"

section \<open>The SCSI commands\<close>

record scsi_sense_data =
  key :: u8
  code :: u8
  code_q :: u8

definition scsi_cmd_sense ::
    "recovery \<Rightarrow> env \<Rightarrow> ptr \<Rightarrow> scsi_sense_data option \<Rightarrow> (sys, esp_err_t \<times> scsi_sense_data option) prog" where
  "scsi_cmd_sense recover env p sense =
     bind (uninitialised env 18) (\<lambda>response. bind next_tag (\<lambda>t.
     let cbw = init_sense t in
     bind (bot_execute_command recover env p (sn_base cbw) (bytes_cbw_sense cbw) (Some response) 18)
       (\<lambda>(err, response).
        if err \<noteq> ESP_OK then return (err, sense)
        else let r = sense_response_of_bytes (the response) in
          (case sense of
             None \<Rightarrow> then_do (emit (Os (EvSenseLog (sr_sense_key r) (sr_sense_code r)
               (sr_sense_code_qualifier r) (decode_sense_keys r)))) (return (ESP_OK, None))
           | Some _ \<Rightarrow> return (ESP_OK, Some \<lparr>key = sr_sense_key r, code = sr_sense_code r,
               code_q = sr_sense_code_qualifier r\<rparr>)))))"

text \<open>What every other command does with the result of \<open>bot_execute_command\<close>.\<close>

definition get_error_code :: "recovery \<Rightarrow> env \<Rightarrow> ptr \<Rightarrow> esp_err_t \<Rightarrow> (sys, esp_err_t) prog" where
  "get_error_code recover env p ret =
     (if ret \<noteq> ESP_OK then bind (scsi_cmd_sense recover env p None) (\<lambda>(e, _). return e)
      else return ESP_OK)"

definition scsi_cmd_read10 ::
    "recovery \<Rightarrow> env \<Rightarrow> ptr \<Rightarrow> u8 list \<Rightarrow> u32 \<Rightarrow> u32 \<Rightarrow> u32 \<Rightarrow> (sys, esp_err_t \<times> u8 list) prog" where
  "scsi_cmd_read10 recover env p data sector_address num_sectors sector_size = bind next_tag (\<lambda>t.
     let cbw = init_read10 t sector_address num_sectors sector_size in
     bind (bot_execute_command recover env p (r10_base cbw) (bytes_cbw_read10 cbw) (Some data)
             (unat (num_sectors * sector_size))) (\<lambda>(ret, data).
       on_error (get_error_code recover env p ret) (\<lambda>e. return (e, the data)) (return (ret, the data))))"

definition scsi_cmd_write10 ::
    "recovery \<Rightarrow> env \<Rightarrow> ptr \<Rightarrow> u8 list \<Rightarrow> u32 \<Rightarrow> u32 \<Rightarrow> u32 \<Rightarrow> (sys, esp_err_t) prog" where
  "scsi_cmd_write10 recover env p data sector_address num_sectors sector_size = bind next_tag (\<lambda>t.
     let cbw = init_write10 t sector_address num_sectors sector_size in
     bind (bot_execute_command recover env p (w10_base cbw) (bytes_cbw_write10 cbw) (Some data)
             (unat (num_sectors * sector_size))) (\<lambda>(ret, _).
       on_error (get_error_code recover env p ret) return (return ret)))"

definition scsi_cmd_read_capacity ::
    "recovery \<Rightarrow> env \<Rightarrow> ptr \<Rightarrow> u32 \<Rightarrow> u32 \<Rightarrow> (sys, esp_err_t \<times> u32 \<times> u32) prog" where
  "scsi_cmd_read_capacity recover env p size0 count0 =
     bind (uninitialised env 8) (\<lambda>response. bind next_tag (\<lambda>t.
     let cbw = init_read_capacity t in
     bind (bot_execute_command recover env p (rc_base cbw) (bytes_cbw_read_capacity cbw) (Some response) 8)
       (\<lambda>(ret, response).
        on_error (get_error_code recover env p ret) (\<lambda>e. return (e, size0, count0))
          (let r = read_capacity_response_of_bytes (the response) in
           return (ret, bswap32 (rcr_block_size r), bswap32 (rcr_block_count r))))))"

definition scsi_cmd_unit_ready :: "recovery \<Rightarrow> env \<Rightarrow> ptr \<Rightarrow> (sys, esp_err_t) prog" where
  "scsi_cmd_unit_ready recover env p = bind next_tag (\<lambda>t.
     let cbw = init_unit_ready t in
     bind (bot_execute_command recover env p (ur_base cbw) (bytes_cbw_unit_ready cbw) None 0) (\<lambda>(ret, _).
       on_error (get_error_code recover env p ret) return (return ret)))"

definition scsi_cmd_inquiry :: "recovery \<Rightarrow> env \<Rightarrow> ptr \<Rightarrow> (sys, esp_err_t) prog" where
  "scsi_cmd_inquiry recover env p = bind next_tag (\<lambda>t.
     let cbw = init_inquiry t in
     bind (bot_execute_command recover env p (iq_base cbw) (bytes_cbw_inquiry cbw)
             (Some (replicate 36 0)) 36) (\<lambda>(ret, _).
       on_error (get_error_code recover env p ret) return (return ret)))"

definition scsi_cmd_mode_sense :: "recovery \<Rightarrow> env \<Rightarrow> ptr \<Rightarrow> (sys, esp_err_t) prog" where
  "scsi_cmd_mode_sense recover env p = bind next_tag (\<lambda>t.
     let cbw = init_mode_sense t in
     bind (bot_execute_command recover env p (ms_base cbw) (bytes_mode_sense cbw)
             (Some (replicate 8 0)) 8) (\<lambda>(ret, _).
       on_error (get_error_code recover env p ret) return (return ret)))"

definition scsi_cmd_prevent_removal :: "recovery \<Rightarrow> env \<Rightarrow> ptr \<Rightarrow> bool \<Rightarrow> (sys, esp_err_t) prog" where
  "scsi_cmd_prevent_removal recover env p prevent = bind next_tag (\<lambda>t.
     let cbw = init_prevent_removal t prevent in
     bind (bot_execute_command recover env p (pr_base cbw) (bytes_prevent_removal cbw) None 0) (\<lambda>(ret, _).
       on_error (get_error_code recover env p ret) return (return ret)))"

section \<open>Waiting for the unit, and reset recovery\<close>

definition MSC_NO_SENSE :: u8 where [simp]: "MSC_NO_SENSE = 0"
definition MSC_NOT_READY :: u8 where [simp]: "MSC_NOT_READY = 2"
definition MSC_UNIT_ATTENTION :: u8 where [simp]: "MSC_UNIT_ATTENTION = 6"

text \<open>
  One round of the loop of \<open>msc_wait_for_ready_state\<close>; \<open>again err\<close> is what follows the
  loop's condition. \<open>trials\<close> counts down after the test, so the body runs up to
  \<open>trials + 1\<close> times.
\<close>

definition try_ready ::
    "recovery \<Rightarrow> env \<Rightarrow> ptr \<Rightarrow> (esp_err_t \<Rightarrow> (sys, esp_err_t) prog) \<Rightarrow> (sys, esp_err_t) prog" where
  "try_ready recover env p again = bind (scsi_cmd_unit_ready recover env p) (\<lambda>err.
     if err = ESP_OK then return ESP_OK
     else bind (uninitialised env 3) (\<lambda>m.
       bind (scsi_cmd_sense recover env p (Some \<lparr>key = m ! 0, code = m ! 1, code_q = m ! 2\<rparr>)) (\<lambda>(e, sense).
         if e \<noteq> ESP_OK then return e
         else if key (the sense) \<noteq> MSC_NOT_READY \<and> key (the sense) \<noteq> MSC_UNIT_ATTENTION \<and>
                 key (the sense) \<noteq> MSC_NO_SENSE
         then return ESP_ERR_MSC_INTERNAL
         else then_do (vTaskDelay 100) (again err))))"

primrec wait_loop :: "recovery \<Rightarrow> env \<Rightarrow> ptr \<Rightarrow> nat \<Rightarrow> (sys, esp_err_t) prog" where
  "wait_loop recover env p 0 = try_ready recover env p return"
| "wait_loop recover env p (Suc trials) = try_ready recover env p (\<lambda>_. wait_loop recover env p trials)"

definition msc_wait_for_ready_state :: "recovery \<Rightarrow> env \<Rightarrow> ptr \<Rightarrow> nat \<Rightarrow> (sys, esp_err_t) prog" where
  "msc_wait_for_ready_state recover env p timeout = wait_loop recover env p (max 1 (timeout div 100))"

primrec msc_host_reset_recovery :: "nat \<Rightarrow> env \<Rightarrow> recovery" where
  "msc_host_reset_recovery 0 env p = fault StackExhausted"
| "msc_host_reset_recovery (Suc depth) env p =
     on_error (msc_mass_reset env p) return
       (bind (deref_dev p) (\<lambda>d.
        then_do (clear_feature env p (bulk_in_ep (config d)))
       (then_do (clear_feature env p (bulk_out_ep (config d)))
       (on_error (msc_wait_for_ready_state (msc_host_reset_recovery depth env) env p
                    WAIT_FOR_READY_TIMEOUT_MS) return
         (return ESP_OK)))))"

section \<open>Frames of the command layer\<close>

text \<open>A relation that also ignores the tag counter is kept by every command.\<close>

locale command_frame = layer_frame R for R :: "sys \<Rightarrow> sys \<Rightarrow> bool" +
  assumes R_tag: "R s (s\<lparr>cbw_tag := t\<rparr>)"
begin

lemma keeps_next_tag: "keeps R next_tag"
  unfolding next_tag_def by (intro keeps_then_do keeps_gets keeps_modify R_tag)

lemma keeps_uninitialised: "keeps R (uninitialised env n)"
  unfolding uninitialised_def by (rule keeps_gets)

lemma keeps_data_transport: "keeps R (data_transport env p data n ep)"
  unfolding data_transport_def by (intro frame_intros)

lemma keeps_status_transport:
  "(\<And>p. keeps R (recover p)) \<Longrightarrow> keeps R (status_transport recover env p)"
  unfolding status_transport_def retry_status_def by (intro frame_intros keeps_uninitialised)

lemma keeps_bot_execute_command:
  "(\<And>p. keeps R (recover p)) \<Longrightarrow> keeps R (bot_execute_command recover env p cbw mem data n)"
  unfolding bot_execute_command_def Let_def
  by (intro frame_intros keeps_data_transport keeps_status_transport)

lemma keeps_sense: "(\<And>p. keeps R (recover p)) \<Longrightarrow> keeps R (scsi_cmd_sense recover env p sense)"
  unfolding scsi_cmd_sense_def Let_def
  by (intro frame_intros keeps_uninitialised keeps_next_tag keeps_bot_execute_command)

lemma keeps_get_error_code:
  "(\<And>p. keeps R (recover p)) \<Longrightarrow> keeps R (get_error_code recover env p ret)"
  unfolding get_error_code_def by (intro frame_intros keeps_sense)

lemmas command_keeps = keeps_uninitialised keeps_next_tag keeps_bot_execute_command keeps_get_error_code

lemma keeps_unit_ready: "(\<And>p. keeps R (recover p)) \<Longrightarrow> keeps R (scsi_cmd_unit_ready recover env p)"
  unfolding scsi_cmd_unit_ready_def Let_def by (intro frame_intros command_keeps)

lemma keeps_read10:
  "(\<And>p. keeps R (recover p)) \<Longrightarrow> keeps R (scsi_cmd_read10 recover env p data a n z)"
  unfolding scsi_cmd_read10_def Let_def by (intro frame_intros command_keeps)

lemma keeps_write10:
  "(\<And>p. keeps R (recover p)) \<Longrightarrow> keeps R (scsi_cmd_write10 recover env p data a n z)"
  unfolding scsi_cmd_write10_def Let_def by (intro frame_intros command_keeps)

lemma keeps_read_capacity:
  "(\<And>p. keeps R (recover p)) \<Longrightarrow> keeps R (scsi_cmd_read_capacity recover env p z0 c0)"
  unfolding scsi_cmd_read_capacity_def Let_def by (intro frame_intros command_keeps)

lemma keeps_inquiry: "(\<And>p. keeps R (recover p)) \<Longrightarrow> keeps R (scsi_cmd_inquiry recover env p)"
  unfolding scsi_cmd_inquiry_def Let_def by (intro frame_intros command_keeps)

lemma keeps_mode_sense: "(\<And>p. keeps R (recover p)) \<Longrightarrow> keeps R (scsi_cmd_mode_sense recover env p)"
  unfolding scsi_cmd_mode_sense_def Let_def by (intro frame_intros command_keeps)

lemma keeps_prevent_removal:
  "(\<And>p. keeps R (recover p)) \<Longrightarrow> keeps R (scsi_cmd_prevent_removal recover env p b)"
  unfolding scsi_cmd_prevent_removal_def Let_def by (intro frame_intros command_keeps)

lemma keeps_try_ready:
  assumes "\<And>p. keeps R (recover p)" "\<And>e. keeps R (again e)"
  shows "keeps R (try_ready recover env p again)"
  unfolding try_ready_def Let_def
  by (intro frame_intros command_keeps keeps_sense keeps_unit_ready assms)

lemma keeps_wait_loop:
  assumes "\<And>p. keeps R (recover p)"
  shows "keeps R (wait_loop recover env p k)"
  by (induction k) (simp_all add: keeps_try_ready keeps_return assms)

lemma keeps_wait_for_ready_state:
  "(\<And>p. keeps R (recover p)) \<Longrightarrow> keeps R (msc_wait_for_ready_state recover env p ms)"
  unfolding msc_wait_for_ready_state_def by (rule keeps_wait_loop)

lemma keeps_reset_recovery: "keeps R (msc_host_reset_recovery depth env p)"
proof (induction depth arbitrary: p)
  case 0
  show ?case by (simp add: keeps_def)
next
  case (Suc depth)
  then have "\<And>p. keeps R (msc_host_reset_recovery depth env p)" .
  then show ?case
    unfolding msc_host_reset_recovery.simps by (intro frame_intros keeps_wait_for_ready_state)
qed

end

interpretation commands: command_frame bus_frame
  by unfold_locales (simp add: bus_frame_def)

section \<open>The recovery contract\<close>

text \<open>
  What the command layer asks of the recovery it is given, and what it promises in return. \<open>I\<close>
  is an invariant of a usable device that only a longer history or a changed transfer can
  touch; \<open>J\<close> holds wherever a command calls the recovery, that is after a status transport
  that the device stalled; the recovery turns \<open>J\<close> back into \<open>I\<close> or ends in a fault of \<open>F\<close>.
  Every command then keeps \<open>I\<close>, with no fault but those of \<open>F\<close>.
\<close>

definition host_ok :: "env \<Rightarrow> bool" where
  "host_ok env \<longleftrightarrow> alloc_succeeds env \<and> flush_completes env"

definition after_stall :: "env \<Rightarrow> ptr \<Rightarrow> (sys \<Rightarrow> bool) \<Rightarrow> sys \<Rightarrow> bool" where
  "after_stall env p I t \<longleftrightarrow> dev_ok p t \<and> (\<exists>s csw csw' u. I s \<and> bus_frame u t \<and>
     msc_bulk_transfer env p csw CSW_SIZE MSC_EP_IN s = Ret (ESP_ERR_MSC_STALL, csw') u)"

lemma after_stall_runs:
  assumes "runs F (dev_ok p) m (\<lambda>a s. dev_ok p s \<and> Q a)" and "keeps bus_frame m"
  shows "runs F (after_stall env p I) m (\<lambda>a s. after_stall env p I s \<and> Q a)"
proof (rule runsI)
  fix t
  assume t: "after_stall env p I t"
  then have ok: "dev_ok p t" by (simp add: after_stall_def)
  show "case m t of Ret a u \<Rightarrow> after_stall env p I u \<and> Q a | Fault f \<Rightarrow> f \<in> F"
  proof (cases "m t")
    case (Ret a u)
    have "dev_ok p u \<and> Q a" "bus_frame t u"
      using runs_RetD [OF assms(1) ok Ret] keepsD [OF assms(2) Ret] by auto
    with t have "after_stall env p I u"
      unfolding after_stall_def by (blast intro: bus_frame_trans)
    with Ret \<open>dev_ok p u \<and> Q a\<close> show ?thesis by simp
  next
    case (Fault f)
    with runs_FaultD [OF assms(1) ok Fault] show ?thesis by simp
  qed
qed

lemma bulk_runs:
  assumes "host_ok env"
  shows "runs {BufferOverflow} (dev_ok p) (msc_bulk_transfer env p data n ep)
    (\<lambda>r s. dev_ok p s \<and> length (snd r) = length data)"
  by (rule runs_weaken [OF bulk_transfer_maintains]) (use assms in \<open>auto simp: host_ok_def\<close>)

lemma runs_deref_ok:
  assumes "\<And>s. P s \<Longrightarrow> dev_ok p s" and "\<And>d. runs F P (k d) Q"
  shows "runs F P (bind (deref_dev p) k) Q"
proof (rule runsI)
  fix s
  assume P: "P s"
  then obtain d x where "transfer_at s p d x" using assms(1) by (blast elim: dev_okE)
  with P assms(2) [of d] show "case bind (deref_dev p) k s of Ret a t \<Rightarrow> Q a t | Fault f \<Rightarrow> f \<in> F"
    by (simp add: runs_def)
qed

locale recovery_contract =
  fixes env :: env and recover :: recovery and p :: ptr and F :: "fault set"
    and I :: "sys \<Rightarrow> bool" and J :: "sys \<Rightarrow> bool"
  assumes I_dev: "I s \<Longrightarrow> host_ok env \<and> dev_ok p s"
    and I_mono: "I s \<Longrightarrow> bus_frame s t \<Longrightarrow> dev_ok p t \<Longrightarrow> I t"
    and I_stalled: "after_stall env p I t \<Longrightarrow> J t"
    and F_overflow: "BufferOverflow \<in> F"
    and recover_runs: "runs F J (recover p) (\<lambda>_. I)"
    and recover_frame: "keeps bus_frame (recover q)"
begin

lemma I_maintains:
  assumes "host_ok env \<Longrightarrow> runs F (dev_ok p) m (\<lambda>a s. dev_ok p s \<and> Q a)" and "keeps bus_frame m"
  shows "runs F I m (\<lambda>a s. I s \<and> Q a)"
proof (rule runsI)
  fix s
  assume s: "I s"
  then have ok: "host_ok env" "dev_ok p s" using I_dev by auto
  show "case m s of Ret a t \<Rightarrow> I t \<and> Q a | Fault f \<Rightarrow> f \<in> F"
  proof (cases "m s")
    case (Ret a t)
    then have "dev_ok p t \<and> Q a" "bus_frame s t"
      using runs_RetD [OF assms(1) [OF ok(1)] ok(2) Ret] keepsD [OF assms(2) Ret] by auto
    with Ret s show ?thesis using I_mono by auto
  next
    case (Fault f)
    with runs_FaultD [OF assms(1) [OF ok(1)] ok(2)] show ?thesis by simp
  qed
qed

lemma runs_F: "runs {BufferOverflow} P m Q \<Longrightarrow> runs F P m Q"
  by (erule runs_weaken) (use F_overflow in auto)

lemma I_bulk: "runs F I (msc_bulk_transfer env p data n ep) (\<lambda>r s. I s \<and> length (snd r) = length data)"
  by (rule I_maintains [OF runs_F [OF bulk_runs] bus.keeps_bulk_transfer])

lemma I_uninitialised: "runs F I (uninitialised env n) (\<lambda>b s. I s \<and> length b = n)"
  unfolding uninitialised_def by (rule runs_gets) simp

lemma I_next_tag: "maintains F I next_tag"
  using I_maintains [where m = next_tag and Q = "\<lambda>_. True"] commands.keeps_next_tag
  by (simp add: next_tag_def runs_def)

lemma I_emit: "maintains F I (emit e)"
  using I_maintains [where m = "emit e" and Q = "\<lambda>_. True"] bus.keeps_emit by simp

lemma after_stall_I: "after_stall env p I t \<Longrightarrow> I t"
  unfolding after_stall_def
  by (blast intro: I_mono bus_frame_trans dest: keepsD [OF bus.keeps_bulk_transfer])

lemma after_stall_ok: "after_stall env p I t \<Longrightarrow> dev_ok p t \<and> host_ok env"
  using I_dev after_stall_I by blast

lemma stalled_retry:
  assumes "length csw = CSW_SIZE"
  shows "runs F (after_stall env p I) (retry_status recover env p csw)
    (\<lambda>r s. I s \<and> length (snd r) = CSW_SIZE)"
  unfolding retry_status_def
proof (rule runs_deref_ok)
  fix d
  let ?S = "after_stall env p I"
  let ?R = "\<lambda>r s. I s \<and> length (snd r) = CSW_SIZE"
  show "runs F ?S (on_error (clear_feature env p (bulk_in_ep (config d))) (\<lambda>e. return (e, csw))
       (bind (msc_bulk_transfer env p csw CSW_SIZE MSC_EP_IN) (\<lambda>(err, csw).
          if ESP_OK \<noteq> err then then_do (recover p) (return (err, csw))
          else return (err, csw)))) ?R"
  proof (cases "\<exists>t. ?S t")
    case False
    then show ?thesis by (simp add: runs_def)
  next
    case True
    then have env: "host_ok env" using after_stall_ok by blast
    show ?thesis
    proof (rule runs_on_error)
      have "runs F (dev_ok p) (clear_feature env p (bulk_in_ep (config d))) (\<lambda>a s. dev_ok p s \<and> True)"
        using clear_feature_maintains env by (simp add: host_ok_def)
      from after_stall_runs [OF this bus.keeps_clear_feature]
      show "runs F ?S (clear_feature env p (bulk_in_ep (config d))) (\<lambda>_. ?S)" by simp
      show "runs F ?S (return (e, csw)) ?R" for e
        using assms by (intro runs_return) (simp add: after_stall_I)
      have bulk: "runs F ?S (msc_bulk_transfer env p csw CSW_SIZE MSC_EP_IN)
          (\<lambda>r s. ?S s \<and> length (snd r) = length csw)"
        by (rule after_stall_runs [OF runs_F [OF bulk_runs [OF env]] bus.keeps_bulk_transfer])
      have rest: "runs F (\<lambda>s. ?S s \<and> length (snd (e, c)) = length csw)
          (if ESP_OK \<noteq> e then then_do (recover p) (return (e, c)) else return (e, c)) ?R" for e c
      proof (cases "length c = CSW_SIZE")
        case True
        have "runs F J (then_do (recover p) (return (e, c))) ?R"
          by (rule runs_then_do [OF recover_runs], rule runs_return) (use True in simp)
        then show ?thesis
          using True assms by (auto simp: runs_def I_stalled after_stall_I)
      qed (use assms in \<open>simp add: runs_def\<close>)
      show "runs F ?S (bind (msc_bulk_transfer env p csw CSW_SIZE MSC_EP_IN) (\<lambda>(err, csw).
          if ESP_OK \<noteq> err then then_do (recover p) (return (err, csw)) else return (err, csw))) ?R"
      proof (rule runs_bind [OF bulk])
        fix r :: "esp_err_t \<times> u8 list"
        show "runs F (\<lambda>s. ?S s \<and> length (snd r) = length csw) (case r of (err, csw) \<Rightarrow>
            if ESP_OK \<noteq> err then then_do (recover p) (return (err, csw)) else return (err, csw)) ?R"
          using rest [of "fst r" "snd r"] by (simp add: case_prod_beta)
      qed
    qed
  qed
qed (simp add: after_stall_ok)

lemma I_status: "runs F I (status_transport recover env p) (\<lambda>r s. I s \<and> length (snd r) = CSW_SIZE)"
proof (rule runsI)
  fix s
  assume s: "I s"
  let ?csw = "map (r_memory env (hist s)) [0..<CSW_SIZE]"
  have run: "status_transport recover env p s =
      bind (msc_bulk_transfer env p ?csw CSW_SIZE MSC_EP_IN) (\<lambda>(err, csw).
        if err = ESP_ERR_MSC_STALL then retry_status recover env p csw else return (err, csw)) s"
    by (simp add: status_transport_def uninitialised_def del: CSW_SIZE_def ESP_ERR_MSC_STALL_def)
  show "case status_transport recover env p s of
      Ret r t \<Rightarrow> I t \<and> length (snd r) = CSW_SIZE | Fault f \<Rightarrow> f \<in> F"
  proof (cases "msc_bulk_transfer env p ?csw CSW_SIZE MSC_EP_IN s")
    case (Fault f)
    with runs_FaultD [OF I_bulk s Fault] show ?thesis unfolding run by simp
  next
    case (Ret r u)
    with runs_RetD [OF I_bulk s Ret] have u: "I u" "length (snd r) = CSW_SIZE" by simp_all
    show ?thesis
    proof (cases "fst r = ESP_ERR_MSC_STALL")
      case True
      with Ret s u(1) have "after_stall env p I u"
        unfolding after_stall_def using I_dev [OF u(1)] bus_frame_refl by (metis prod.collapse)
      with Ret True stalled_retry [OF u(2)] show ?thesis
        unfolding run by (cases r) (simp add: runs_def split: outcome.splits)
    next
      case False
      with Ret u show ?thesis unfolding run by (cases r) simp
    qed
  qed
qed

lemma I_data: "runs F I (data_transport env p data n ep)
    (\<lambda>r s. I s \<and> map_option length (snd r) = map_option length data)"
proof (cases data)
  case None
  then show ?thesis by (simp add: data_transport_def runs_def)
next
  case (Some d)
  have "runs F (\<lambda>s. I s \<and> length (snd r) = length d) (case r of (e, d) \<Rightarrow> return (e, Some d))
      (\<lambda>r s. I s \<and> map_option length (snd r) = map_option length data)" for r :: "esp_err_t \<times> u8 list"
    using Some by (simp add: case_prod_beta runs_def)
  from runs_bind [OF I_bulk this] show ?thesis
    by (simp add: data_transport_def Some)
qed

text \<open>A step of a command that starts with a call whose result has a length.\<close>

lemma I_step:
  assumes "runs F I m (\<lambda>r s. I s \<and> Q r)" and "\<And>r. Q r \<Longrightarrow> runs F I (k r) S"
  shows "runs F I (bind m k) S"
  using assms(1)
proof (rule runs_bind)
  show "runs F (\<lambda>s. I s \<and> Q r) (k r) S" for r
    using assms(2) [of r] by (cases "Q r") (simp_all add: runs_def)
qed

lemma I_bot: "runs F I (bot_execute_command recover env p cbw mem data n)
    (\<lambda>r s. I s \<and> map_option length (snd r) = map_option length data)"
  unfolding bot_execute_command_def Let_def
  apply (rule I_step [OF I_bulk])
  apply (intro runs_prod runs_if, rule runs_return, simp)
  apply (rule I_step [OF I_data])
  apply (intro runs_prod runs_if, rule runs_return, simp)
  apply (rule I_step [OF I_status])
  apply (intro runs_prod runs_if; rule runs_return; simp)
  done

lemma I_tag: "(\<And>t. runs F I (k t) S) \<Longrightarrow> runs F I (bind next_tag k) S"
  by (rule runs_bind [OF I_next_tag])

lemma I_sense: "maintains F I (scsi_cmd_sense recover env p sense)"
  unfolding scsi_cmd_sense_def Let_def
  apply (rule I_step [OF I_uninitialised], rule I_tag, rule I_step [OF I_bot])
  apply (intro runs_prod runs_if, rule runs_return, simp)
  apply (cases sense)
   apply (simp add: runs_then_do [OF I_emit] runs_return)
  apply (simp add: runs_return)
  done

lemma I_get_error_code: "maintains F I (get_error_code recover env p ret)"
  unfolding get_error_code_def
  by (intro runs_if) (auto intro!: runs_bind [OF I_sense] runs_prod)

lemma I_error_or_return:
  "maintains F I (on_error (get_error_code recover env p ret) (\<lambda>e. return (f e)) (return a))"
  by (rule runs_on_error [OF I_get_error_code]) simp_all

lemma I_simple_command:
  assumes "\<And>t. c t = bind (bot_execute_command recover env p (cbw t) (mem t) data n) (\<lambda>(ret, out).
       on_error (get_error_code recover env p ret) (\<lambda>e. return (f e out)) (return (g ret out)))"
  shows "maintains F I (bind next_tag c)"
  by (rule I_tag, unfold assms, rule I_step [OF I_bot], rule runs_prod, rule I_error_or_return)

lemma I_unit_ready: "maintains F I (scsi_cmd_unit_ready recover env p)"
  unfolding scsi_cmd_unit_ready_def Let_def by (rule I_simple_command) simp

lemma I_read10: "maintains F I (scsi_cmd_read10 recover env p data a k z)"
  unfolding scsi_cmd_read10_def Let_def by (rule I_simple_command) simp

lemma I_write10: "maintains F I (scsi_cmd_write10 recover env p data a k z)"
  unfolding scsi_cmd_write10_def Let_def by (rule I_simple_command) simp

lemma I_inquiry: "maintains F I (scsi_cmd_inquiry recover env p)"
  unfolding scsi_cmd_inquiry_def Let_def by (rule I_simple_command) simp

lemma I_mode_sense: "maintains F I (scsi_cmd_mode_sense recover env p)"
  unfolding scsi_cmd_mode_sense_def Let_def by (rule I_simple_command) simp

lemma I_prevent_removal: "maintains F I (scsi_cmd_prevent_removal recover env p b)"
  unfolding scsi_cmd_prevent_removal_def Let_def by (rule I_simple_command) simp

lemma I_read_capacity: "maintains F I (scsi_cmd_read_capacity recover env p z0 c0)"
  unfolding scsi_cmd_read_capacity_def
  by (rule I_step [OF I_uninitialised], unfold Let_def, rule I_simple_command) simp

lemma I_try_ready:
  assumes "\<And>e. maintains F I (again e)"
  shows "maintains F I (try_ready recover env p again)"
  unfolding try_ready_def
  apply (rule runs_bind [OF I_unit_ready], rule runs_if, simp)
  apply (rule I_step [OF I_uninitialised], rule runs_bind [OF I_sense], rule runs_prod)
  apply (intro runs_if; (rule maintains_return)?)
  apply (rule runs_then_do [OF _ assms])
  apply (simp add: vTaskDelay_def I_emit)
  done

lemma I_wait_loop: "maintains F I (wait_loop recover env p k)"
  by (induction k) (simp_all add: I_try_ready)

lemma I_wait_for_ready_state: "maintains F I (msc_wait_for_ready_state recover env p ms)"
  unfolding msc_wait_for_ready_state_def by (rule I_wait_loop)

text \<open>One more level of recovery: it keeps \<open>I\<close> when the level below satisfies the contract.\<close>

lemma I_next_level:
  assumes "recover = msc_host_reset_recovery depth env"
  shows "maintains F I (msc_host_reset_recovery (Suc depth) env p)"
proof -
  have env: "maintains F I m"
    if "flush_completes env \<Longrightarrow> maintains F (dev_ok p) m" "keeps bus_frame m" for m :: "(sys, 'x) prog"
    using I_maintains [where m = m and Q = "\<lambda>_. True"] that by (simp add: host_ok_def)
  show ?thesis
    unfolding msc_host_reset_recovery.simps assms [symmetric]
  proof (rule runs_on_error [OF env [OF mass_reset_maintains bus.keeps_mass_reset]])
    show "maintains F I (return e)" for e by simp
    show "maintains F I (bind (deref_dev p) (\<lambda>d.
        then_do (clear_feature env p (bulk_in_ep (config d)))
       (then_do (clear_feature env p (bulk_out_ep (config d)))
       (on_error (msc_wait_for_ready_state recover env p WAIT_FOR_READY_TIMEOUT_MS) return
         (return ESP_OK)))))"
      using I_dev
      by (intro runs_deref_ok runs_then_do [OF env [OF clear_feature_maintains bus.keeps_clear_feature]]
          runs_on_error [OF I_wait_for_ready_state] maintains_return) auto
  qed auto
qed

end

section \<open>The contract holds for the code's own recovery\<close>

definition usable :: "env \<Rightarrow> ptr \<Rightarrow> sys \<Rightarrow> bool" where
  "usable env p s \<longleftrightarrow> host_ok env \<and> dev_ok p s"

lemma after_stall_usable: "after_stall env p (usable env p) t \<Longrightarrow> usable env p t"
  by (auto simp: after_stall_def usable_def)

lemma reset_recovery_usable:
  "runs {BufferOverflow, StackExhausted} (usable env p) (msc_host_reset_recovery depth env p)
     (\<lambda>_. usable env p)"
proof (induction depth)
  case 0
  then show ?case by (simp add: runs_def)
next
  case (Suc depth)
  have "recovery_contract env (msc_host_reset_recovery depth env) p {BufferOverflow, StackExhausted}
      (usable env p) (usable env p)"
    by (rule recovery_contract.intro;
        (rule Suc.IH commands.keeps_reset_recovery | erule after_stall_usable | simp add: usable_def))
  from recovery_contract.I_next_level [OF this refl] show ?case .
qed

interpretation safe: recovery_contract env "msc_host_reset_recovery depth env" p
    "{BufferOverflow, StackExhausted}" "usable env p" "usable env p"
  for env depth p
  by (rule recovery_contract.intro;
      (rule reset_recovery_usable commands.keeps_reset_recovery | erule after_stall_usable
       | simp add: usable_def))

text \<open>
  Where the recursion ends: a device that stalls no more once the history has \<open>N\<close> events.
  Each nested recovery follows a stall and adds to the history, so at most \<open>N\<close> of them nest.
\<close>

definition stalls_stop :: "env \<Rightarrow> nat \<Rightarrow> bool" where
  "stalls_stop env N \<longleftrightarrow> (\<forall>h. N \<le> length h \<longrightarrow>
     (\<forall>x. cmp_status (r_completion env h x) \<noteq> USB_TRANSFER_STATUS_STALL \<and>
          r_transfer_submit env h x \<noteq> ESP_ERR_MSC_STALL) \<and>
     (\<forall>q. r_transfer_free env h q \<noteq> ESP_ERR_MSC_STALL))"

lemma bus_frame_length: "bus_frame s t \<Longrightarrow> length (hist s) \<le> length (hist t)"
  by (auto simp: bus_frame_def)

lemma wait_stall:
  assumes "wait_for_transfer_done env xp s = Ret USB_TRANSFER_STATUS_STALL t"
  shows "\<exists>x. cmp_status (r_completion env (hist s) x) = USB_TRANSFER_STATUS_STALL"
  using assms
  by (auto simp: wait_for_transfer_done_def take_transfer_done_def prog_Ret deref_xfer_eq_Ret
      deref_dev_eq_Ret complete_transfer_def Let_def split: if_splits) blast+

lemma finish_stall:
  "finish_transfer xp data ep st s = Ret (ESP_ERR_MSC_STALL, data') t \<Longrightarrow> st = USB_TRANSFER_STATUS_STALL"
  by (auto simp: finish_transfer_def prog_Ret split: usb_transfer_status.splits msc_endpoint.splits if_splits)

lemma submit_once:
  "usb_host_transfer_submit env xp s = Ret e t \<Longrightarrow>
     (\<exists>x. e = r_transfer_submit env (hist s) x) \<and> length (hist t) = Suc (length (hist s))"
  by (auto simp: usb_host_transfer_submit_def prog_Ret deref_xfer_eq_Ret)

lemma load_adds_nothing: "load_transfer env p data n ts ep s = Ret xp t \<Longrightarrow> hist t = hist s"
  by (cases ep) (auto simp: load_transfer_def prog_Ret deref_dev_eq_Ret deref_xfer_eq_Ret split: if_splits)

lemma grow_stall:
  assumes "grow_transfer env p n s = Ret ESP_ERR_MSC_STALL t" and "alloc_succeeds env"
  shows "(\<exists>q. r_transfer_free env (hist s) q = ESP_ERR_MSC_STALL) \<and> length (hist s) < length (hist t)"
  using assms
  by (auto simp: grow_transfer_def usb_host_transfer_free_def usb_host_transfer_alloc_def prog_Ret
      deref_dev_eq_Ret deref_xfer_eq_Ret alloc_succeeds_def Let_def split: if_splits)

lemma stall_uses_history:
  assumes "stalls_stop env N" and "alloc_succeeds env"
    and "msc_bulk_transfer env p data n ep s = Ret (ESP_ERR_MSC_STALL, data') t"
  shows "length (hist s) < N \<and> length (hist s) < length (hist t)"
proof -
  from assms(3) obtain d u e where d: "deref_dev p s = Ret d s"
    and grow: "grow_transfer env p (bulk_transfer_size env d n ep) s = Ret e u"
    and rest: "if e \<noteq> ESP_OK then (e, data) = (ESP_ERR_MSC_STALL, data') \<and> u = t
      else bind (load_transfer env p data n (bulk_transfer_size env d n ep) ep) (\<lambda>xp.
        on_error (usb_host_transfer_submit env xp) (\<lambda>e. return (e, data))
          (bind (wait_for_transfer_done env xp) (\<lambda>st. finish_transfer xp data ep st))) u
        = Ret (ESP_ERR_MSC_STALL, data') t"
    by (auto simp: msc_bulk_transfer_def Let_def prog_Ret deref_dev_eq_Ret split: if_splits)
  have su: "length (hist s) \<le> length (hist u)"
    using keepsD [OF bus.keeps_grow_transfer grow] by (rule bus_frame_length)
  show ?thesis
  proof (cases "e = ESP_OK")
    case False
    then have "e = ESP_ERR_MSC_STALL" "u = t" using rest by auto
    with grow_stall assms(1,2) grow show ?thesis
      unfolding stalls_stop_def by (metis not_less)
  next
    case True
    with rest obtain xp u1 e2 u2
      where load: "load_transfer env p data n (bulk_transfer_size env d n ep) ep u = Ret xp u1"
      and submit: "usb_host_transfer_submit env xp u1 = Ret e2 u2"
      and rest2: "if e2 \<noteq> ESP_OK then (e2, data) = (ESP_ERR_MSC_STALL, data') \<and> u2 = t
        else bind (wait_for_transfer_done env xp) (\<lambda>st. finish_transfer xp data ep st) u2
          = Ret (ESP_ERR_MSC_STALL, data') t"
      by (auto simp: prog_Ret split: if_splits)
    have u2: "length (hist s) < length (hist u2)" "length (hist s) \<le> length (hist u1)"
      using load_adds_nothing [OF load] submit_once [OF submit] su by auto
    show ?thesis
    proof (cases "e2 = ESP_OK")
      case False
      then have "e2 = ESP_ERR_MSC_STALL" "u2 = t" using rest2 by auto
      with submit_once [OF submit] u2 assms(1) show ?thesis
        unfolding stalls_stop_def by (metis le_trans not_less)
    next
      case True
      with rest2 obtain st u3 where wait: "wait_for_transfer_done env xp u2 = Ret st u3"
        and fin: "finish_transfer xp data ep st u3 = Ret (ESP_ERR_MSC_STALL, data') t"
        by (auto simp: prog_Ret)
      from wait finish_stall [OF fin] assms(1) have "length (hist u2) < N"
        unfolding stalls_stop_def by (metis wait_stall not_less)
      moreover have "length (hist u2) \<le> length (hist t)"
        using bus_frame_length [OF keepsD [OF bus.keeps_wait_for_transfer_done wait]]
          bus_frame_length [OF keepsD [OF bus.keeps_finish_transfer fin]] by simp
      ultimately show ?thesis using u2 by simp
    qed
  qed
qed

definition stalls_left :: "env \<Rightarrow> ptr \<Rightarrow> nat \<Rightarrow> nat \<Rightarrow> sys \<Rightarrow> bool" where
  "stalls_left env p N depth s \<longleftrightarrow> usable env p s \<and> stalls_stop env N \<and> N \<le> length (hist s) + depth"

definition stalls_below :: "env \<Rightarrow> ptr \<Rightarrow> nat \<Rightarrow> nat \<Rightarrow> sys \<Rightarrow> bool" where
  "stalls_below env p N depth s \<longleftrightarrow> (\<exists>k. depth = Suc k \<and> stalls_left env p N k s)"

lemma after_stall_below:
  assumes "after_stall env p (stalls_left env p N depth) t"
  shows "stalls_below env p N depth t"
proof -
  from assms obtain s csw csw' u where s: "stalls_left env p N depth s" and "bus_frame u t" "dev_ok p t"
    and run: "msc_bulk_transfer env p csw CSW_SIZE MSC_EP_IN s = Ret (ESP_ERR_MSC_STALL, csw') u"
    by (auto simp: after_stall_def)
  from s have env: "stalls_stop env N" "host_ok env" "N \<le> length (hist s) + depth"
    by (auto simp: stalls_left_def usable_def)
  have "length (hist s) < N" "length (hist s) < length (hist t)"
    using stall_uses_history [OF env(1) _ run] env(2) bus_frame_length [OF \<open>bus_frame u t\<close>]
    by (auto simp: host_ok_def)
  with env \<open>dev_ok p t\<close> show ?thesis
    by (cases depth) (auto simp: stalls_below_def stalls_left_def usable_def)
qed

lemma reset_recovery_stalls:
  "runs {BufferOverflow} (stalls_below env p N depth) (msc_host_reset_recovery depth env p)
     (\<lambda>_. stalls_left env p N depth)"
proof (induction depth)
  case 0
  then show ?case by (simp add: runs_def stalls_below_def)
next
  case (Suc depth)
  have "recovery_contract env (msc_host_reset_recovery depth env) p {BufferOverflow}
      (stalls_left env p N depth) (stalls_below env p N depth)"
    by (rule recovery_contract.intro;
        (rule Suc.IH commands.keeps_reset_recovery | erule after_stall_below
         | auto simp: stalls_left_def usable_def dest: bus_frame_length))
  from recovery_contract.I_next_level [OF this refl] show ?case
    by (rule runs_weaken) (auto simp: stalls_below_def stalls_left_def)
qed

interpretation bounded: recovery_contract env "msc_host_reset_recovery depth env" p
    "{BufferOverflow}" "stalls_left env p N depth" "stalls_below env p N depth"
  for env depth p N
  by (rule recovery_contract.intro;
      (rule reset_recovery_stalls commands.keeps_reset_recovery | erule after_stall_below
       | auto simp: stalls_left_def usable_def dest: bus_frame_length))

section \<open>What a successful command says about the device\<close>

text \<open>The memory after a successful bulk-IN transfer, in terms of what the host stack reported.\<close>

lemma wait_completed:
  assumes "wait_for_transfer_done env xp s = Ret USB_TRANSFER_STATUS_COMPLETED t" and "xfers s xp = Some x"
  shows "cmp_received (r_completion env (hist s) x) \<and>
    cmp_status (r_completion env (hist s) x) = USB_TRANSFER_STATUS_COMPLETED \<and>
    xfers t xp = Some (complete_transfer (r_completion env (hist s) x) x)"
  using assms
  by (auto simp: wait_for_transfer_done_def take_transfer_done_def prog_Ret deref_xfer_eq_Ret
      deref_dev_eq_Ret complete_transfer_def Let_def split: if_splits)

lemma load_transfer_eq_Ret:
  "load_transfer env p data n ts ep s = Ret xp t \<Longrightarrow>
    \<exists>d x. transfer_at s p d x \<and> xp = xfer d \<and>
      t = s\<lparr>xfers := (xfers s)(xfer d \<mapsto> loaded_transfer env (hist s) p d x data n ts ep)\<rparr>"
  by (cases ep) (auto simp: load_transfer_def prog_Ret deref_dev_eq_Ret deref_xfer_eq_Ret
      transfer_at_def loaded_transfer_def split: if_splits)

lemma submit_keeps_xfers: "usb_host_transfer_submit env xp s = Ret e t \<Longrightarrow> xfers t = xfers s"
  by (auto simp: usb_host_transfer_submit_def prog_Ret deref_xfer_eq_Ret)

lemma finish_ok:
  assumes "finish_transfer xp data MSC_EP_IN st s = Ret (ESP_OK, data') t"
  shows "st = USB_TRANSFER_STATUS_COMPLETED \<and> t = s \<and> (\<exists>x. xfers s xp = Some x \<and>
    actual_num_bytes x \<le> length (data_buffer x) \<and> actual_num_bytes x \<le> length data \<and>
    data' = overwrite (take (actual_num_bytes x) (data_buffer x)) data)"
  using assms by (cases st) (auto simp: finish_transfer_def prog_Ret deref_xfer_eq_Ret split: if_splits)

definition received :: "env \<Rightarrow> u8 \<Rightarrow> nat \<Rightarrow> completion \<Rightarrow> bool" where
  "received env ep n c \<longleftrightarrow> cmp_received c \<and> cmp_status c = USB_TRANSFER_STATUS_COMPLETED \<and>
     (\<exists>h x. bEndpointAddress x = ep \<and> num_bytes x = n \<and> c = r_completion env h x)"

lemma take_overwrite_prefix: "k \<le> length xs \<Longrightarrow> k \<le> length ys \<Longrightarrow> take k (overwrite xs ys) = take k xs"
  by (simp add: overwrite_def min_def)

lemma bulk_in_received:
  assumes run: "msc_bulk_transfer env p data n MSC_EP_IN s = Ret (ESP_OK, data') t"
    and dev: "devs s p = Some d" and ep: "bulk_in_ep (config d) \<noteq> 0"
  shows "\<exists>c. received env (bulk_in_ep (config d)) (bulk_transfer_size env d n MSC_EP_IN) c \<and>
    cmp_actual c \<le> length data \<and>
    (cmp_actual c \<le> length (cmp_data c) \<longrightarrow> data' = overwrite (take (cmp_actual c) (cmp_data c)) data)"
proof -
  let ?ts = "bulk_transfer_size env d n MSC_EP_IN"
  from run dev obtain u xp u1 u2 st u3
    where grow: "grow_transfer env p ?ts s = Ret ESP_OK u"
      and load: "load_transfer env p data n ?ts MSC_EP_IN u = Ret xp u1"
      and submit: "usb_host_transfer_submit env xp u1 = Ret ESP_OK u2"
      and wait: "wait_for_transfer_done env xp u2 = Ret st u3"
      and fin: "finish_transfer xp data MSC_EP_IN st u3 = Ret (ESP_OK, data') t"
    by (auto simp: msc_bulk_transfer_def Let_def prog_Ret deref_dev_eq_Ret split: if_splits)
  obtain d' x where at: "transfer_at u p d' x" and xp: "xp = xfer d'"
    and u1: "u1 = u\<lparr>xfers := (xfers u)(xfer d' \<mapsto> loaded_transfer env (hist u) p d' x data n ?ts MSC_EP_IN)\<rparr>"
    using load_transfer_eq_Ret [OF load] by blast
  let ?x = "loaded_transfer env (hist u) p d' x data n ?ts MSC_EP_IN"
  have "config d' = config d"
    using keepsD [OF bus.keeps_grow_transfer grow] at dev
    by (auto simp: bus_frame_def transfer_at_def same_device_Some dest!: spec [of _ p])
      (metis msc_device.select_convs(4) msc_device.surjective msc_device.update_convs(3))
  then have x: "bEndpointAddress ?x = bulk_in_ep (config d)" "num_bytes ?x = ?ts"
    by (simp_all add: loaded_transfer_def)
  have "xfers u2 xp = Some ?x"
    using submit_keeps_xfers [OF submit] by (simp add: u1 xp)
  moreover note fin' = finish_ok [OF fin]
  ultimately have complete: "cmp_received (r_completion env (hist u2) ?x) \<and>
      cmp_status (r_completion env (hist u2) ?x) = USB_TRANSFER_STATUS_COMPLETED \<and>
      xfers u3 xp = Some (complete_transfer (r_completion env (hist u2) ?x) ?x)"
    using wait wait_completed by blast
  then have c: "received env (bulk_in_ep (config d)) ?ts (r_completion env (hist u2) ?x)"
    and u3: "xfers u3 xp = Some (complete_transfer (r_completion env (hist u2) ?x) ?x)"
    using x unfolding received_def by blast+
  let ?c = "r_completion env (hist u2) ?x"
  have buf: "data_buffer (complete_transfer ?c ?x) = overwrite (cmp_data ?c) (data_buffer ?x)"
    using ep x by (simp add: complete_transfer_def)
  from fin' u3 have "cmp_actual ?c \<le> length (data_buffer ?x)" "cmp_actual ?c \<le> length data"
    "data' = overwrite (take (cmp_actual ?c) (overwrite (cmp_data ?c) (data_buffer ?x))) data"
    by (auto simp: buf)
  with c show ?thesis by (intro exI [of _ ?c]) (auto simp: take_overwrite_prefix)
qed

lemma bulk_in_length:
  assumes "msc_bulk_transfer env p data n ep s = Ret (e, data') t"
  shows "length data' = length data"
proof -
  have "length d' = length data" if "finish_transfer xp data ep st u = Ret (e', d') v" for xp st u e' d' v
    using that by (cases st; cases ep) (auto simp: finish_transfer_def prog_Ret split: if_splits)
  then show ?thesis
    using assms by (auto simp: msc_bulk_transfer_def Let_def prog_Ret split: if_splits)
qed

lemma frame_device: "bus_frame s t \<Longrightarrow> same_device (devs s p) (devs t p)"
  by (simp add: bus_frame_def)

lemma same_config:
  "same_device (Some d) (devs t p) \<Longrightarrow> \<exists>d'. devs t p = Some d' \<and> config d' = config d"
  by (auto simp: same_device_Some)
    (metis msc_device.select_convs(4) msc_device.surjective msc_device.update_convs(3))

lemma status_ok:
  assumes run: "status_transport recover env p s = Ret (ESP_OK, csw) t"
  shows "\<exists>u csw0. length csw0 = CSW_SIZE \<and> bus_frame s u \<and>
    msc_bulk_transfer env p csw0 CSW_SIZE MSC_EP_IN u = Ret (ESP_OK, csw) t"
proof -
  let ?csw = "map (r_memory env (hist s)) [0..<CSW_SIZE]"
  from run obtain e1 csw1 u1 where first: "msc_bulk_transfer env p ?csw CSW_SIZE MSC_EP_IN s = Ret (e1, csw1) u1"
    and rest: "(if e1 = ESP_ERR_MSC_STALL then retry_status recover env p csw1 else return (e1, csw1)) u1
      = Ret (ESP_OK, csw) t"
    by (auto simp: status_transport_def uninitialised_def prog_Ret simp del: ESP_ERR_MSC_STALL_def CSW_SIZE_def)
  show ?thesis
  proof (cases "e1 = ESP_ERR_MSC_STALL")
    case False
    with rest first show ?thesis by (intro exI [of _ s] exI [of _ ?csw]) simp
  next
    case True
    with rest obtain d :: msc_device and u2 where "clear_feature env p (bulk_in_ep (config d)) u1 = Ret ESP_OK u2"
      and second: "msc_bulk_transfer env p csw1 CSW_SIZE MSC_EP_IN u2 = Ret (ESP_OK, csw) t"
      by (auto simp: retry_status_def prog_Ret deref_dev_eq_Ret split: if_splits)
    then have "bus_frame s u2"
      using keepsD [OF bus.keeps_bulk_transfer first] keepsD [OF bus.keeps_clear_feature]
      by (blast intro: bus_frame_trans)
    with second bulk_in_length [OF first] show ?thesis
      by (intro exI [of _ u2] exI [of _ csw1]) simp
  qed
qed

lemma data_keeps_some:
  "data_transport env p data n ep s = Ret (e, out) t \<Longrightarrow> map_option length out = map_option length data"
  by (cases data) (auto simp: data_transport_def prog_Ret dest: bulk_in_length)

lemma bot_ok:
  assumes "bot_execute_command recover env p cbw mem data n s = Ret (ESP_OK, out) t"
  shows "\<exists>u csw. bus_frame s u \<and> status_transport recover env p u = Ret (ESP_OK, csw) t \<and>
    csw_of_bytes csw = passing_csw (tag cbw)"
proof -
  from assms obtain ep b u1 u2 csw
    where 1: "msc_bulk_transfer env p mem CBW_SIZE MSC_EP_OUT s = Ret (ESP_OK, b) u1"
      and 2: "data_transport env p data n ep u1 = Ret (ESP_OK, out) u2"
      and 3: "status_transport recover env p u2 = Ret (ESP_OK, csw) t"
      and 4: "check_csw (csw_of_bytes csw) (tag cbw) = ESP_OK"
    by (auto simp: bot_execute_command_def Let_def prog_Ret split: if_splits)
  have "bus_frame s u2"
    using keepsD [OF bus.keeps_bulk_transfer 1] keepsD [OF commands.keeps_data_transport 2]
    by (rule bus_frame_trans)
  with 3 4 show ?thesis by (auto simp: check_csw_ok)
qed

lemma bot_data_some:
  "bot_execute_command recover env p cbw mem data n s = Ret (e, out) t \<Longrightarrow>
     map_option length out = map_option length data"
  by (auto simp: bot_execute_command_def Let_def prog_Ret split: if_splits dest: data_keeps_some)

text \<open>
  So a command that succeeds has read, as the last thing from the device, a status wrapper
  whose 13 bytes are exactly those of a passed command with this command's tag.
\<close>

lemma bot_ok_device:
  assumes run: "bot_execute_command recover env p cbw mem data n s = Ret (ESP_OK, out) t"
    and dev: "devs s p = Some d" and ep: "bulk_in_ep (config d) \<noteq> 0"
  shows "\<exists>c. received env (bulk_in_ep (config d)) (bulk_transfer_size env d CSW_SIZE MSC_EP_IN) c \<and>
    cmp_actual c \<le> CSW_SIZE \<and>
    (cmp_actual c \<le> length (cmp_data c) \<longrightarrow>
       take (cmp_actual c) (cmp_data c) = take (cmp_actual c) (bytes_csw (passing_csw (tag cbw))))"
proof -
  obtain u csw where u: "bus_frame s u" "status_transport recover env p u = Ret (ESP_OK, csw) t"
    and csw: "csw_of_bytes csw = passing_csw (tag cbw)"
    using bot_ok [OF run] by blast
  obtain v csw0 where len: "length csw0 = CSW_SIZE" and v: "bus_frame u v"
    and last: "msc_bulk_transfer env p csw0 CSW_SIZE MSC_EP_IN v = Ret (ESP_OK, csw) t"
    using status_ok [OF u(2)] by blast
  have "bus_frame s v" using u(1) v by (rule bus_frame_trans)
  then obtain d' where d': "devs v p = Some d'" "config d' = config d"
    using frame_device [of s v p] dev same_config [of d v p] by auto
  have bytes: "csw = bytes_csw (passing_csw (tag cbw))"
    using csw bulk_in_length [OF last] len csw_format.dec_eq_iff by auto
  show ?thesis
    using bulk_in_received [OF last d'(1)] ep d'(2) len
    by (auto simp: bytes bulk_transfer_size_def take_overwrite dest: arg_cong [where f = "take _"])
qed

section \<open>The phases of a successful command\<close>

lemma bot_phases:
  assumes "bot_execute_command recover env p cbw mem data n s = Ret (ESP_OK, out) t"
    and "ep = (if flags cbw AND CWB_FLAG_DIRECTION_IN \<noteq> 0 then MSC_EP_IN else MSC_EP_OUT)"
  shows "\<exists>b u1 u2 csw. msc_bulk_transfer env p mem CBW_SIZE MSC_EP_OUT s = Ret (ESP_OK, b) u1 \<and>
    data_transport env p data n ep u1 = Ret (ESP_OK, out) u2 \<and>
    status_transport recover env p u2 = Ret (ESP_OK, csw) t"
  using assms by (auto simp: bot_execute_command_def Let_def prog_Ret split: if_splits)

lemma finish_out: "finish_transfer xp data MSC_EP_OUT st s = Ret (e, data') t \<Longrightarrow> data' = data \<and> t = s"
  by (cases st) (auto simp: finish_transfer_def)

text \<open>A bulk-OUT transfer that succeeds has submitted the caller's bytes to the bulk-OUT endpoint.\<close>

lemma bulk_out_submits:
  assumes run: "msc_bulk_transfer env p data n MSC_EP_OUT s = Ret (ESP_OK, b) t"
    and dev: "devs s p = Some d"
  shows "\<exists>es x h. hist t = hist s @ es \<and> Usb (EvSubmit x ESP_OK) \<in> set es \<and>
    bEndpointAddress x = bulk_out_ep (config d) \<and> num_bytes x = n \<and> n \<le> length (data_buffer x) \<and>
    take n (data_buffer x) = mem_read (r_memory env h) n data"
proof -
  from run dev obtain u xp u1 u2 st u3
    where grow: "grow_transfer env p n s = Ret ESP_OK u"
      and load: "load_transfer env p data n n MSC_EP_OUT u = Ret xp u1"
      and submit: "usb_host_transfer_submit env xp u1 = Ret ESP_OK u2"
      and wait: "wait_for_transfer_done env xp u2 = Ret st u3"
      and fin: "finish_transfer xp data MSC_EP_OUT st u3 = Ret (ESP_OK, b) t"
    by (auto simp: msc_bulk_transfer_def bulk_transfer_size_def Let_def prog_Ret deref_dev_eq_Ret
        split: if_splits)
  obtain d' x where at: "transfer_at u p d' x" and xp: "xp = xfer d'"
    and u1: "u1 = u\<lparr>xfers := (xfers u)(xfer d' \<mapsto> loaded_transfer env (hist u) p d' x data n n MSC_EP_OUT)\<rparr>"
    using load_transfer_eq_Ret [OF load] by blast
  let ?x = "loaded_transfer env (hist u) p d' x data n n MSC_EP_OUT"
  have fits: "n \<le> length (data_buffer x)"
    using load at by (auto simp: load_transfer_def prog_Ret deref_dev_eq_Ret deref_xfer_eq_Ret transfer_at_def
        split: if_splits)
  obtain es1 where es1: "hist u = hist s @ es1"
    using keepsD [OF bus.keeps_grow_transfer grow] by (auto simp: bus_frame_def)
  have u2: "hist u2 = hist u @ [Usb (EvSubmit ?x ESP_OK)]"
    using submit by (auto simp: u1 xp usb_host_transfer_submit_def prog_Ret deref_xfer_eq_Ret)
  obtain es2 where es2: "hist t = hist u2 @ es2"
    using keepsD [OF bus.keeps_wait_for_transfer_done wait] finish_out [OF fin] by (auto simp: bus_frame_def)
  have "config d' = config d"
    using frame_device [OF keepsD [OF bus.keeps_grow_transfer grow], of p] at dev same_config [of d u p]
    by (auto simp: transfer_at_def)
  then have x: "bEndpointAddress ?x = bulk_out_ep (config d)" "num_bytes ?x = n"
    "n \<le> length (data_buffer ?x)"
    "take n (data_buffer ?x) = mem_read (r_memory env (hist u)) n data"
    using fits by (simp_all add: loaded_transfer_def take_overwrite)
  show ?thesis
    by (rule exI [of _ "es1 @ Usb (EvSubmit ?x ESP_OK) # es2"], rule exI [of _ ?x], rule exI [of _ "hist u"])
      (use x es1 es2 u2 in auto)
qed

section \<open>A command succeeds only if its execution did\<close>

lemma bot_data_Some:
  "bot_execute_command recover env p cbw mem (Some data) n s = Ret (e, out) t \<Longrightarrow> \<exists>b. out = Some b"
  using bot_data_some by fastforce

lemma error_or_return_eq:
  "on_error (get_error_code recover env p ret) h (return a) s = Ret r t \<longleftrightarrow>
     (if ret = ESP_OK then r = a \<and> t = s
      else \<exists>e u. get_error_code recover env p ret s = Ret e u \<and>
        (if e \<noteq> ESP_OK then h e u = Ret r t else r = a \<and> t = u))"
  by (auto simp: get_error_code_def prog_Ret)

lemma unit_ready_ok_iff:
  "scsi_cmd_unit_ready recover env p s = Ret ESP_OK t \<longleftrightarrow>
     (\<exists>out. bot_execute_command recover env p (ur_base (init_unit_ready (cbw_tag s + 1)))
       (bytes_cbw_unit_ready (init_unit_ready (cbw_tag s + 1))) None 0 (s\<lparr>cbw_tag := cbw_tag s + 1\<rparr>)
       = Ret (ESP_OK, out) t)"
  by (auto simp: scsi_cmd_unit_ready_def Let_def next_tag_def bind_eq_Ret error_or_return_eq
      split: if_splits)

lemma read10_ok_iff:
  "scsi_cmd_read10 recover env p data a k z s = Ret (ESP_OK, out) t \<longleftrightarrow>
     bot_execute_command recover env p (r10_base (init_read10 (cbw_tag s + 1) a k z))
       (bytes_cbw_read10 (init_read10 (cbw_tag s + 1) a k z)) (Some data) (unat (k * z))
       (s\<lparr>cbw_tag := cbw_tag s + 1\<rparr>) = Ret (ESP_OK, Some out) t"
  by (auto simp: scsi_cmd_read10_def Let_def next_tag_def bind_eq_Ret error_or_return_eq
      split: if_splits) (metis bot_data_Some option.sel)

lemma write10_ok_iff:
  "scsi_cmd_write10 recover env p data a k z s = Ret ESP_OK t \<longleftrightarrow>
     (\<exists>out. bot_execute_command recover env p (w10_base (init_write10 (cbw_tag s + 1) a k z))
       (bytes_cbw_write10 (init_write10 (cbw_tag s + 1) a k z)) (Some data) (unat (k * z))
       (s\<lparr>cbw_tag := cbw_tag s + 1\<rparr>) = Ret (ESP_OK, out) t)"
  by (auto simp: scsi_cmd_write10_def Let_def next_tag_def bind_eq_Ret error_or_return_eq
      split: if_splits)

section \<open>Reading and writing sectors, end to end\<close>

definition command_sent :: "u8 \<Rightarrow> wire_command \<Rightarrow> event list \<Rightarrow> bool" where
  "command_sent ep w es \<longleftrightarrow> (\<exists>x. Usb (EvSubmit x ESP_OK) \<in> set es \<and> bEndpointAddress x = ep \<and>
     num_bytes x = CBW_SIZE \<and> device_reads (take CBW_SIZE (data_buffer x)) = Some w)"

definition status_passed :: "env \<Rightarrow> u8 \<Rightarrow> nat \<Rightarrow> u32 \<Rightarrow> bool" where
  "status_passed env ep n t \<longleftrightarrow> (\<exists>c. received env ep n c \<and> cmp_actual c \<le> CSW_SIZE \<and>
     (cmp_actual c \<le> length (cmp_data c) \<longrightarrow>
        take (cmp_actual c) (cmp_data c) = take (cmp_actual c) (bytes_csw (passing_csw t))))"

lemma frame_hist: "bus_frame s t \<Longrightarrow> \<exists>es. hist t = hist s @ es"
  by (simp add: bus_frame_def)

lemma status_frame:
  "status_transport recover env p u = Ret (ESP_OK, csw) t \<Longrightarrow> bus_frame u t"
  using status_ok bus_frame_trans keepsD [OF bus.keeps_bulk_transfer] by meson

lemma bulk_ts_config:
  "config d' = config d \<Longrightarrow> bulk_transfer_size env d' n ep = bulk_transfer_size env d n ep"
  by (simp add: bulk_transfer_size_def)

text \<open>The three phases together, for a command block that a device reads as \<open>w\<close>.\<close>

lemma bot_end_to_end:
  assumes run: "bot_execute_command recover env p cbw mem data n s = Ret (ESP_OK, out) t"
    and dev: "devs s p = Some d" and ep: "bulk_in_ep (config d) \<noteq> 0"
    and reads: "\<And>g. device_reads (mem_read g CBW_SIZE mem) = Some w"
    and e: "e = (if flags cbw AND CWB_FLAG_DIRECTION_IN \<noteq> 0 then MSC_EP_IN else MSC_EP_OUT)"
  shows "\<exists>es1 es2 u v d'. hist t = hist s @ es1 @ es2 \<and> command_sent (bulk_out_ep (config d)) w es1 \<and>
    hist u = hist s @ es1 \<and> devs u p = Some d' \<and> config d' = config d \<and>
    data_transport env p data n e u = Ret (ESP_OK, out) v \<and> (\<exists>es3. hist t = hist v @ es3) \<and>
    status_passed env (bulk_in_ep (config d)) (bulk_transfer_size env d CSW_SIZE MSC_EP_IN) (tag cbw)"
proof -
  obtain b u v csw where 1: "msc_bulk_transfer env p mem CBW_SIZE MSC_EP_OUT s = Ret (ESP_OK, b) u"
    and 2: "data_transport env p data n e u = Ret (ESP_OK, out) v"
    and 3: "status_transport recover env p v = Ret (ESP_OK, csw) t"
    using bot_phases [OF run e] by blast
  obtain es1 x h where es1: "hist u = hist s @ es1" and x: "Usb (EvSubmit x ESP_OK) \<in> set es1"
    "bEndpointAddress x = bulk_out_ep (config d)" "num_bytes x = CBW_SIZE"
    "take CBW_SIZE (data_buffer x) = mem_read (r_memory env h) CBW_SIZE mem"
    using bulk_out_submits [OF 1 dev] by blast
  then have "command_sent (bulk_out_ep (config d)) w es1"
    unfolding command_sent_def using reads by metis
  moreover obtain es2 where "hist v = hist u @ es2"
    using frame_hist [OF keepsD [OF commands.keeps_data_transport 2]] by blast
  moreover obtain es3 where "hist t = hist v @ es3"
    using frame_hist [OF status_frame [OF 3]] by blast
  moreover obtain d' where "devs u p = Some d'" "config d' = config d"
    using frame_device [OF keepsD [OF bus.keeps_bulk_transfer 1], of p] dev same_config [of d u p] by auto
  moreover have "status_passed env (bulk_in_ep (config d)) (bulk_transfer_size env d CSW_SIZE MSC_EP_IN) (tag cbw)"
    using bot_ok_device [OF run dev ep] by (simp add: status_passed_def)
  ultimately show ?thesis using es1 2 by (metis append.assoc)
qed

lemma read10_reads:
  assumes run: "scsi_cmd_read10 recover env p data a k z s = Ret (ESP_OK, out) t"
    and dev: "devs s p = Some d" and ep: "bulk_in_ep (config d) \<noteq> 0"
  shows "(\<exists>es. hist t = hist s @ es \<and> command_sent (bulk_out_ep (config d))
      \<lparr>wc_tag = cbw_tag s + 1, wc_transfer_length = k * z, wc_device_to_host = True, wc_lun = 0,
       wc_command = Read_10 a (ucast k)\<rparr> es) \<and>
    (\<exists>c. received env (bulk_in_ep (config d)) (bulk_transfer_size env d (unat (k * z)) MSC_EP_IN) c \<and>
      cmp_actual c \<le> length data \<and>
      (cmp_actual c \<le> length (cmp_data c) \<longrightarrow> out = overwrite (take (cmp_actual c) (cmp_data c)) data)) \<and>
    status_passed env (bulk_in_ep (config d)) (bulk_transfer_size env d CSW_SIZE MSC_EP_IN) (cbw_tag s + 1)"
proof -
  let ?c = "init_read10 (cbw_tag s + 1) a k z"
  let ?s = "s\<lparr>cbw_tag := cbw_tag s + 1\<rparr>"
  have dir: "MSC_EP_IN = (if flags (r10_base ?c) AND CWB_FLAG_DIRECTION_IN \<noteq> 0 then MSC_EP_IN else MSC_EP_OUT)"
    and tag: "tag (r10_base ?c) = cbw_tag s + 1"
    by (simp_all add: init_read10_def CBW_BASE_INIT_def)
  have dev': "devs ?s p = Some d" using dev by simp
  obtain es1 es2 u v d' where h: "hist t = hist ?s @ es1 @ es2"
    and sent: "command_sent (bulk_out_ep (config d))
      \<lparr>wc_tag = cbw_tag s + 1, wc_transfer_length = k * z, wc_device_to_host = True, wc_lun = 0,
       wc_command = Read_10 a (ucast k)\<rparr> es1"
    and d': "devs u p = Some d'" "config d' = config d"
    and data: "data_transport env p (Some data) (unat (k * z)) MSC_EP_IN u = Ret (ESP_OK, Some out) v"
    and passed: "status_passed env (bulk_in_ep (config d)) (bulk_transfer_size env d CSW_SIZE MSC_EP_IN) (cbw_tag s + 1)"
    using bot_end_to_end [OF run [unfolded read10_ok_iff] dev' ep reads_read10 dir] unfolding tag by blast
  have "msc_bulk_transfer env p data (unat (k * z)) MSC_EP_IN u = Ret (ESP_OK, out) v"
    using data by (auto simp: data_transport_def prog_Ret)
  from bulk_in_received [OF this d'(1)] ep d'(2) bulk_ts_config [OF d'(2)]
  have "\<exists>c. received env (bulk_in_ep (config d)) (bulk_transfer_size env d (unat (k * z)) MSC_EP_IN) c \<and>
      cmp_actual c \<le> length data \<and>
      (cmp_actual c \<le> length (cmp_data c) \<longrightarrow> out = overwrite (take (cmp_actual c) (cmp_data c)) data)"
    by simp
  moreover have "command_sent (bulk_out_ep (config d))
      \<lparr>wc_tag = cbw_tag s + 1, wc_transfer_length = k * z, wc_device_to_host = True, wc_lun = 0,
       wc_command = Read_10 a (ucast k)\<rparr> (es1 @ es2)"
    using sent unfolding command_sent_def by auto
  moreover have "hist t = hist s @ es1 @ es2" using h by simp
  ultimately show ?thesis using passed by blast
qed

lemma write10_writes:
  assumes run: "scsi_cmd_write10 recover env p data a k z s = Ret ESP_OK t"
    and dev: "devs s p = Some d" and ep: "bulk_in_ep (config d) \<noteq> 0"
  shows "(\<exists>es1 x es2 h. hist t = hist s @ es1 @ Usb (EvSubmit x ESP_OK) # es2 \<and>
     command_sent (bulk_out_ep (config d))
      \<lparr>wc_tag = cbw_tag s + 1, wc_transfer_length = k * z, wc_device_to_host = False, wc_lun = 0,
       wc_command = Write_10 a (ucast k)\<rparr> es1 \<and>
     bEndpointAddress x = bulk_out_ep (config d) \<and> num_bytes x = unat (k * z) \<and>
     take (unat (k * z)) (data_buffer x) = mem_read (r_memory env h) (unat (k * z)) data) \<and>
    status_passed env (bulk_in_ep (config d)) (bulk_transfer_size env d CSW_SIZE MSC_EP_IN) (cbw_tag s + 1)"
proof -
  let ?c = "init_write10 (cbw_tag s + 1) a k z"
  let ?s = "s\<lparr>cbw_tag := cbw_tag s + 1\<rparr>"
  let ?w = "\<lparr>wc_tag = cbw_tag s + 1, wc_transfer_length = k * z, wc_device_to_host = False, wc_lun = 0,
       wc_command = Write_10 a (ucast k)\<rparr>"
  have dir: "MSC_EP_OUT = (if flags (w10_base ?c) AND CWB_FLAG_DIRECTION_IN \<noteq> 0 then MSC_EP_IN else MSC_EP_OUT)"
    and tag: "tag (w10_base ?c) = cbw_tag s + 1"
    by (simp_all add: init_write10_def CBW_BASE_INIT_def)
  have dev': "devs ?s p = Some d" and hs: "hist ?s = hist s" using dev by simp_all
  obtain out where "bot_execute_command recover env p (w10_base ?c) (bytes_cbw_write10 ?c) (Some data)
      (unat (k * z)) ?s = Ret (ESP_OK, out) t"
    using run unfolding write10_ok_iff by blast
  from bot_end_to_end [OF this dev' ep reads_write10 dir] obtain es1 es3 u v d' es2
    where sent: "command_sent (bulk_out_ep (config d)) ?w es1" and u: "hist u = hist s @ es1"
    and v: "hist t = hist v @ es3" and d': "devs u p = Some d'" "config d' = config d"
    and data: "data_transport env p (Some data) (unat (k * z)) MSC_EP_OUT u = Ret (ESP_OK, out) v"
    and passed: "status_passed env (bulk_in_ep (config d)) (bulk_transfer_size env d CSW_SIZE MSC_EP_IN) (cbw_tag s + 1)"
    unfolding tag hs by blast
  then obtain b where "msc_bulk_transfer env p data (unat (k * z)) MSC_EP_OUT u = Ret (ESP_OK, b) v"
    by (auto simp: data_transport_def prog_Ret)
  from bulk_out_submits [OF this d'(1)] obtain es x h where x: "hist v = hist u @ es"
    "Usb (EvSubmit x ESP_OK) \<in> set es" "bEndpointAddress x = bulk_out_ep (config d)"
    "num_bytes x = unat (k * z)"
    "take (unat (k * z)) (data_buffer x) = mem_read (r_memory env h) (unat (k * z)) data"
    using d'(2) by auto
  then obtain es4 es5 where "es = es4 @ Usb (EvSubmit x ESP_OK) # es5" by (meson split_list)
  with x u v have "hist t = hist s @ (es1 @ es4) @ Usb (EvSubmit x ESP_OK) # (es5 @ es3)" by simp
  moreover have "command_sent (bulk_out_ep (config d)) ?w (es1 @ es4)"
    using sent unfolding command_sent_def by auto
  ultimately show ?thesis using x passed by blast
qed

section \<open>A device that stalls every status\<close>

text \<open>
  \<open>answers\<close>: no call of the host stack fails and no transfer times out. \<open>stalls_at ep\<close>: the
  device stalls exactly the transfers of one endpoint, here the bulk-IN endpoint.
\<close>

definition answers :: "env \<Rightarrow> bool" where
  "answers env \<longleftrightarrow> host_ok env \<and> (\<forall>h.
     (\<forall>x. r_transfer_submit env h x = ESP_OK \<and> cmp_received (r_completion env h x)) \<and>
     (\<forall>c x. r_submit_control env h c x = ESP_OK) \<and> (\<forall>q. r_transfer_free env h q = ESP_OK) \<and>
     (\<forall>q ep. r_endpoint_halt env h q ep = ESP_OK \<and> r_endpoint_flush env h q ep = ESP_OK \<and>
        r_endpoint_clear env h q ep = ESP_OK))"

definition stalls_at :: "env \<Rightarrow> u8 \<Rightarrow> bool" where
  "stalls_at env ep \<longleftrightarrow> (\<forall>h x. cmp_status (r_completion env h x) =
     (if bEndpointAddress x = ep then USB_TRANSFER_STATUS_STALL else USB_TRANSFER_STATUS_COMPLETED))"

lemma grow_answered:
  assumes "answers env" and "dev_ok p s"
  shows "\<exists>t d x. grow_transfer env p n s = Ret ESP_OK t \<and> dev_ok p t \<and> transfer_at t p d x \<and>
    n \<le> length (data_buffer x)"
proof -
  from assms have alloc: "alloc_succeeds env" by (simp add: answers_def host_ok_def)
  obtain e t where run: "grow_transfer env p n s = Ret e t" "dev_ok p t"
    "e = ESP_OK \<longrightarrow> (\<exists>d x. transfer_at t p d x \<and> n \<le> length (data_buffer x))"
    using grow_dev_ok [OF alloc assms(2)] by metis
  moreover have "e = ESP_OK"
    using run(1) assms(1) alloc
    by (auto simp: grow_transfer_def usb_host_transfer_free_def usb_host_transfer_alloc_def prog_Ret
        deref_dev_eq_Ret deref_xfer_eq_Ret answers_def alloc_succeeds_def Let_def split: if_splits)
  ultimately show ?thesis by blast
qed

lemma bulk_answered:
  assumes env: "answers env" and ok: "dev_ok p s" and dev: "devs s p = Some d"
  shows "\<exists>x h xp y t. bEndpointAddress x = (if ep = MSC_EP_IN then bulk_in_ep (config d) else bulk_out_ep (config d)) \<and>
    msc_bulk_transfer env p data n ep s = finish_transfer xp data ep (cmp_status (r_completion env h x)) t \<and>
    xp \<noteq> NULL \<and> xfers t xp = Some y \<and> dev_ok p t"
proof -
  let ?ts = "bulk_transfer_size env d n ep"
  from ok dev obtain x0 where at0: "transfer_at s p d x0"
    by (auto elim!: dev_okE simp: transfer_at_def)
  obtain u d' x where grow: "grow_transfer env p ?ts s = Ret ESP_OK u" "dev_ok p u"
    and at: "transfer_at u p d' x" "?ts \<le> length (data_buffer x)"
    using grow_answered [OF env ok] by blast
  have xd: "xfer d' \<noteq> NULL" and dx: "DEFAULT_XFER_SIZE \<le> length (data_buffer x)"
    using at grow(2) by (auto elim!: dev_okE simp: transfer_at_def)
  have cfg: "config d' = config d"
    using frame_device [OF keepsD [OF bus.keeps_grow_transfer grow(1)], of p] at dev same_config [of d u p]
    by (auto simp: transfer_at_def)
  let ?x = "loaded_transfer env (hist u) p d' x data n ?ts ep"
  let ?u = "u\<lparr>xfers := (xfers u)(xfer d' \<mapsto> ?x)\<rparr>"
  have load: "load_transfer env p data n ?ts ep u = Ret (xfer d') ?u"
    using at by (intro load_transfer_run) (auto simp: bulk_transfer_size_def)
  obtain v where v: "v = ?u\<lparr>hist := hist ?u @ [Usb (EvSubmit ?x ESP_OK)]\<rparr>" by blast
  have submit: "usb_host_transfer_submit env (xfer d') ?u = Ret ESP_OK v"
    using xd env by (simp add: usb_host_transfer_submit_def answers_def v)
  have "dev_ok p ?u" using grow(2) dx by (intro dev_ok_put_xfer) simp_all
  then have okv: "dev_ok p v" unfolding v by simp
  have xv: "xfers v (xfer d') = Some ?x" "xfer_context ?x = p" by (simp_all add: v)
  from okv xv obtain dv where dv: "p \<noteq> NULL" "devs v p = Some dv"
    by (auto elim!: dev_okE simp: transfer_at_def)
  let ?c = "r_completion env (hist v) ?x"
  have "cmp_received ?c" using env by (simp add: answers_def)
  then obtain w where wait: "wait_for_transfer_done env (xfer d') v = Ret (cmp_status ?c) w"
    and w: "w = awaited env (transfer_done dv) (xfer d') ?x v"
    using wait_received [OF xd xv(1)] xv(2) dv by metis
  have "dev_ok p w" unfolding w by (rule dev_ok_awaited [OF okv xv(1)])
  moreover have "xfers w (xfer d') = Some (complete_transfer ?c ?x)" by (simp add: w awaited_def)
  moreover have "msc_bulk_transfer env p data n ep s = finish_transfer (xfer d') data ep (cmp_status ?c) w"
    using at0 grow(1) load submit wait by (simp add: msc_bulk_transfer_def Let_def)
  moreover have "bEndpointAddress ?x = (if ep = MSC_EP_IN then bulk_in_ep (config d) else bulk_out_ep (config d))"
    using cfg by (simp add: loaded_transfer_def)
  ultimately show ?thesis using xd by blast
qed

text \<open>The state in which such a device is attached at \<open>p\<close> with a configuration \<open>cfg\<close>.\<close>

definition attached :: "ptr \<Rightarrow> msc_config \<Rightarrow> sys \<Rightarrow> bool" where
  "attached p cfg s \<longleftrightarrow> dev_ok p s \<and> (\<exists>d. devs s p = Some d \<and> config d = cfg)"

lemma attached_frame: "attached p cfg s \<Longrightarrow> bus_frame s t \<Longrightarrow> dev_ok p t \<Longrightarrow> attached p cfg t"
  unfolding attached_def using frame_device same_config by metis

definition endpoints_ok :: "msc_config \<Rightarrow> bool" where
  "endpoints_ok cfg \<longleftrightarrow> bulk_in_ep cfg \<noteq> 0 \<and> bulk_in_ep cfg \<noteq> bulk_out_ep cfg"

lemma bulk_out_passes:
  assumes "answers env" "stalls_at env (bulk_in_ep cfg)" "endpoints_ok cfg" "attached p cfg s"
  shows "\<exists>t. msc_bulk_transfer env p data n MSC_EP_OUT s = Ret (ESP_OK, data) t \<and> attached p cfg t"
proof -
  from assms(4) obtain d where d: "dev_ok p s" "devs s p = Some d" "config d = cfg"
    by (auto simp: attached_def)
  obtain x h xp y t where "bEndpointAddress x = bulk_out_ep cfg"
    and run: "msc_bulk_transfer env p data n MSC_EP_OUT s =
      finish_transfer xp data MSC_EP_OUT (cmp_status (r_completion env h x)) t" and "dev_ok p t"
    using bulk_answered [OF assms(1) d(1,2), of MSC_EP_OUT data n] d(3) by auto
  then have "msc_bulk_transfer env p data n MSC_EP_OUT s = Ret (ESP_OK, data) t"
    using assms(2,3) by (auto simp: stalls_at_def endpoints_ok_def finish_transfer_def)
  then show ?thesis
    using attached_frame [OF assms(4) _ \<open>dev_ok p t\<close>] keepsD [OF bus.keeps_bulk_transfer] by blast
qed

lemma bulk_in_stalls:
  assumes "answers env" "stalls_at env (bulk_in_ep cfg)" "attached p cfg s"
  shows "\<exists>t. msc_bulk_transfer env p data n MSC_EP_IN s = Ret (ESP_ERR_MSC_STALL, data) t \<and> attached p cfg t"
proof -
  from assms(3) obtain d where d: "dev_ok p s" "devs s p = Some d" "config d = cfg"
    by (auto simp: attached_def)
  obtain x h xp y t where "bEndpointAddress x = bulk_in_ep cfg"
    and run: "msc_bulk_transfer env p data n MSC_EP_IN s =
      finish_transfer xp data MSC_EP_IN (cmp_status (r_completion env h x)) t" and "dev_ok p t"
    using bulk_answered [OF assms(1) d(1,2), of MSC_EP_IN data n] d(3) by auto
  then have "msc_bulk_transfer env p data n MSC_EP_IN s = Ret (ESP_ERR_MSC_STALL, data) t"
    using assms(2) by (simp add: stalls_at_def finish_transfer_def)
  then show ?thesis
    using attached_frame [OF assms(3) _ \<open>dev_ok p t\<close>] keepsD [OF bus.keeps_bulk_transfer] by blast
qed

lemma control_answered:
  assumes env: "answers env" "stalls_at env ep" "ep \<noteq> 0" and at: "attached p cfg s"
  shows "\<exists>t. msc_control_transfer env p n s = Ret ESP_OK t \<and> attached p cfg t"
proof -
  from at obtain d x where d: "transfer_at s p d x" "s_msc_driver s \<noteq> None"
    by (auto simp: attached_def elim: dev_okE)
  then obtain drv where drv: "s_msc_driver s = Some drv" by blast
  have "flush_completes env" using env by (simp add: answers_def host_ok_def)
  then obtain e t where run: "msc_control_transfer env p n s = Ret e t" and ok: "dev_ok p t"
    using runs_total [OF control_transfer_maintains] at unfolding attached_def by metis
  have "e = ESP_OK"
    using run env d drv
    by (auto simp: msc_control_transfer_def prog_Ret deref_dev_eq_Ret deref_xfer_eq_Ret the_driver_eq_Ret
        usb_host_transfer_submit_control_def answers_def wait_for_transfer_done_def take_transfer_done_def
        stalls_at_def complete_transfer_def transfer_at_def split: if_splits)
  with run attached_frame [OF at keepsD [OF bus.keeps_control_transfer run] ok] show ?thesis by blast
qed

lemma setup_answered:
  assumes "attached p cfg s" "devs s p = Some d"
  shows "\<exists>t. write_setup (xfer d) q s = Ret () t \<and> attached p cfg t"
proof -
  from assms obtain x where at: "transfer_at s p d x" and ok: "dev_ok p s"
    by (auto simp: attached_def transfer_at_def elim!: dev_okE)
  obtain t where run: "write_setup (xfer d) q s = Ret () t" "dev_ok p t"
    by (rule write_setup_dev_ok [OF at ok])
  with attached_frame [OF assms(1) keepsD [OF bus.keeps_write_setup run(1)]] show ?thesis by blast
qed

lemma attached_hist [simp]: "attached p cfg (s\<lparr>hist := h\<rparr>) = attached p cfg s"
  by (simp add: attached_def)

lemma clear_feature_answered:
  assumes env: "answers env" "stalls_at env e" "e \<noteq> 0" and at: "attached p cfg s"
  shows "\<exists>t. clear_feature env p ep s = Ret ESP_OK t \<and> attached p cfg t"
proof -
  from at obtain d where d: "p \<noteq> NULL" "devs s p = Some d"
    by (auto simp: attached_def elim!: dev_okE)
  obtain u where u: "u = s\<lparr>hist := hist s @ [Usb (EvHalt (handle d) ep ESP_OK),
    Usb (EvFlush (handle d) ep ESP_OK), Usb (EvClear (handle d) ep ESP_OK)]\<rparr>" by blast
  have at_u: "attached p cfg u" "devs u p = Some d" using at d by (simp_all add: u)
  obtain v where v: "write_setup (xfer d) (clear_feature_ep ep) u = Ret () v" "attached p cfg v"
    using setup_answered [OF at_u] by blast
  obtain w where w: "msc_control_transfer env p USB_SETUP_PACKET_SIZE v = Ret ESP_OK w" "attached p cfg w"
    using control_answered [OF env v(2)] by blast
  have "clear_feature env p ep s =
      then_do (write_setup (xfer d) (clear_feature_ep ep))
        (on_error (msc_control_transfer env p USB_SETUP_PACKET_SIZE) return (return ESP_OK)) u"
    using d env(1) by (simp add: clear_feature_def usb_host_endpoint_halt_def usb_host_endpoint_flush_def
        usb_host_endpoint_clear_def answers_def u del: USB_SETUP_PACKET_SIZE_def)
  with v w show ?thesis by (simp del: USB_SETUP_PACKET_SIZE_def)
qed

lemma mass_reset_answered:
  assumes env: "answers env" "stalls_at env e" "e \<noteq> 0" and at: "attached p cfg s"
  shows "\<exists>t. msc_mass_reset env p s = Ret ESP_OK t \<and> attached p cfg t"
proof -
  from at obtain d where d: "p \<noteq> NULL" "devs s p = Some d"
    by (auto simp: attached_def elim!: dev_okE)
  obtain v where v: "write_setup (xfer d) (mass_req_reset (iface_num (config d))) s = Ret () v" "attached p cfg v"
    using setup_answered [OF at d(2)] by blast
  obtain w where "msc_control_transfer env p USB_SETUP_PACKET_SIZE v = Ret ESP_OK w" "attached p cfg w"
    using control_answered [OF env v(2)] by blast
  with v d show ?thesis by (simp add: msc_mass_reset_def del: USB_SETUP_PACKET_SIZE_def)
qed

text \<open>
  A command without data phase ends as its recovery does, and the recovery starts with such a
  command: no stack is deep enough.
\<close>

lemma stalled_status_recovers:
  assumes env: "answers env" "stalls_at env (bulk_in_ep cfg)" "endpoints_ok cfg" and at: "attached p cfg s"
    and rec: "\<And>u. attached p cfg u \<Longrightarrow> recover p u = Fault f"
  shows "bot_execute_command recover env p cbw mem None n s = Fault f"
proof -
  have e0: "bulk_in_ep cfg \<noteq> 0" using env(3) by (simp add: endpoints_ok_def)
  obtain t where out: "msc_bulk_transfer env p mem CBW_SIZE MSC_EP_OUT s = Ret (ESP_OK, mem) t" "attached p cfg t"
    using bulk_out_passes [OF env at] by blast
  let ?csw = "map (r_memory env (hist t)) [0..<CSW_SIZE]"
  obtain u where st: "msc_bulk_transfer env p ?csw CSW_SIZE MSC_EP_IN t = Ret (ESP_ERR_MSC_STALL, ?csw) u"
    "attached p cfg u"
    using bulk_in_stalls [OF env(1,2) out(2)] by blast
  from st(2) obtain d where d: "p \<noteq> NULL" "devs u p = Some d" "config d = cfg"
    by (auto simp: attached_def elim!: dev_okE)
  obtain v where cl: "clear_feature env p (bulk_in_ep cfg) u = Ret ESP_OK v" "attached p cfg v"
    using clear_feature_answered [OF env(1,2) e0 st(2)] by blast
  obtain w where "msc_bulk_transfer env p ?csw CSW_SIZE MSC_EP_IN v = Ret (ESP_ERR_MSC_STALL, ?csw) w"
    "attached p cfg w"
    using bulk_in_stalls [OF env(1,2) cl(2)] by blast
  then have "retry_status recover env p ?csw u = Fault f"
    using d cl rec by (simp add: retry_status_def del: CSW_SIZE_def)
  then have "status_transport recover env p t = Fault f"
    using st by (simp add: status_transport_def uninitialised_def del: CSW_SIZE_def)
  with out show ?thesis
    by (simp add: bot_execute_command_def data_transport_def Let_def del: CBW_SIZE_def)
qed

lemma attached_tag [simp]: "attached p cfg (s\<lparr>cbw_tag := t\<rparr>) = attached p cfg s"
  by (simp add: attached_def)

lemma unit_ready_recovers:
  assumes "answers env" "stalls_at env (bulk_in_ep cfg)" "endpoints_ok cfg" "attached p cfg s"
    and "\<And>u. attached p cfg u \<Longrightarrow> recover p u = Fault f"
  shows "scsi_cmd_unit_ready recover env p s = Fault f"
proof -
  have "attached p cfg (s\<lparr>cbw_tag := cbw_tag s + 1\<rparr>)" using assms(4) by simp
  from stalled_status_recovers [where recover = recover and f = f, OF assms(1-3) this assms(5)] show ?thesis
    by (simp add: scsi_cmd_unit_ready_def next_tag_def Let_def)
qed

lemma reset_recovery_exhausts:
  assumes env: "answers env" "stalls_at env (bulk_in_ep cfg)" "endpoints_ok cfg" and at: "attached p cfg s"
  shows "msc_host_reset_recovery depth env p s = Fault StackExhausted"
  using at
proof (induction depth arbitrary: s)
  case (Suc depth)
  have e0: "bulk_in_ep cfg \<noteq> 0" using env(3) by (simp add: endpoints_ok_def)
  obtain t where 1: "msc_mass_reset env p s = Ret ESP_OK t" "attached p cfg t"
    using mass_reset_answered [OF env(1,2) e0 Suc.prems] by blast
  from 1(2) obtain d where d: "p \<noteq> NULL" "devs t p = Some d"
    by (auto simp: attached_def elim!: dev_okE)
  obtain u where 2: "clear_feature env p (bulk_in_ep (config d)) t = Ret ESP_OK u" "attached p cfg u"
    using clear_feature_answered [OF env(1,2) e0 1(2)] by blast
  obtain v where 3: "clear_feature env p (bulk_out_ep (config d)) u = Ret ESP_OK v" "attached p cfg v"
    using clear_feature_answered [OF env(1,2) e0 2(2)] by blast
  have "scsi_cmd_unit_ready (msc_host_reset_recovery depth env) env p v = Fault StackExhausted"
    using unit_ready_recovers [OF env 3(2)] Suc.IH by blast
  moreover have trials: "max 1 (WAIT_FOR_READY_TIMEOUT_MS div 100) = Suc 49" by simp
  ultimately have "wait_loop (msc_host_reset_recovery depth env) env p (Suc k) v = Fault StackExhausted" for k
    by (simp add: try_ready_def)
  then have "msc_wait_for_ready_state (msc_host_reset_recovery depth env) env p WAIT_FOR_READY_TIMEOUT_MS v
      = Fault StackExhausted"
    unfolding msc_wait_for_ready_state_def by (metis trials)
  with 1 2 3 d show ?case by (simp del: WAIT_FOR_READY_TIMEOUT_MS_def)
qed simp

section \<open>Any command\<close>

text \<open>The function the driver has for each command, with its error code.\<close>

definition issue :: "recovery \<Rightarrow> env \<Rightarrow> ptr \<Rightarrow> u8 list \<Rightarrow> u32 \<Rightarrow> scsi_command \<Rightarrow> (sys, esp_err_t) prog" where
  "issue recover env p data z cmd = (case cmd of
       Read_10 a k \<Rightarrow> bind (scsi_cmd_read10 recover env p data a (ucast k) z) (\<lambda>r. return (fst r))
     | Write_10 a k \<Rightarrow> scsi_cmd_write10 recover env p data a (ucast k) z
     | Read_Capacity_10 \<Rightarrow> bind (scsi_cmd_read_capacity recover env p 0 0) (\<lambda>r. return (fst r))
     | Test_Unit_Ready \<Rightarrow> scsi_cmd_unit_ready recover env p
     | Request_Sense _ \<Rightarrow> bind (scsi_cmd_sense recover env p None) (\<lambda>r. return (fst r))
     | Inquiry _ \<Rightarrow> scsi_cmd_inquiry recover env p
     | Mode_Sense_10 _ _ \<Rightarrow> scsi_cmd_mode_sense recover env p
     | Prevent_Removal b \<Rightarrow> scsi_cmd_prevent_removal recover env p b)"

context recovery_contract begin

lemma I_bind_return: "maintains F I m \<Longrightarrow> maintains F I (bind m (\<lambda>r. return (f r)))"
  by (erule runs_bind) simp

lemma I_issue: "maintains F I (issue recover env p data z cmd)"
  unfolding issue_def
  by (cases cmd) (auto intro: I_read10 I_write10 I_read_capacity I_unit_ready I_sense
      I_inquiry I_mode_sense I_prevent_removal I_bind_return)

end

context command_frame begin

lemma keeps_issue: "(\<And>p. keeps R (recover p)) \<Longrightarrow> keeps R (issue recover env p data z cmd)"
  unfolding issue_def
  by (cases cmd) (auto intro: keeps_read10 keeps_write10 keeps_read_capacity keeps_unit_ready
      keeps_sense keeps_inquiry keeps_mode_sense keeps_prevent_removal intro!: keeps_bind keeps_return)

end

lemma wait_exhausts:
  assumes "answers env" "stalls_at env (bulk_in_ep cfg)" "endpoints_ok cfg" "attached p cfg s"
  shows "msc_wait_for_ready_state (msc_host_reset_recovery depth env) env p ms s = Fault StackExhausted"
proof -
  have "scsi_cmd_unit_ready (msc_host_reset_recovery depth env) env p s = Fault StackExhausted"
    using unit_ready_recovers [OF assms] reset_recovery_exhausts [OF assms(1-3)] by blast
  then have "wait_loop (msc_host_reset_recovery depth env) env p k s = Fault StackExhausted" for k
    by (cases k) (simp_all add: try_ready_def)
  then show ?thesis by (simp add: msc_wait_for_ready_state_def)
qed

end
