(* ===== verification/Msc_Config.thy ===== *)
theory Msc_Config imports Msc_State Msc_Transfer begin

text \<open>
  Descriptor parsing of \<open>src/msc_host.c\<close>: the search for a mass-storage interface in a
  configuration descriptor and the extraction of its endpoints. The parser of the host library
  is the pair of functions \<open>parse_next_interface\<close> and \<open>parse_next_endpoint\<close> of the
  environment: the next descriptor of the type after an offset, with its own offset.
\<close>

section \<open>The code\<close>

definition USB_CLASS_MASS_STORAGE :: u8 where [simp]: "USB_CLASS_MASS_STORAGE = 8"
definition SCSI_COMMAND_SET :: u8 where [simp]: "SCSI_COMMAND_SET = 6"
definition BULK_ONLY_TRANSFER :: u8 where [simp]: "BULK_ONLY_TRANSFER = 0x50"

definition next_interface_desc :: "env \<Rightarrow> usb_config_desc \<Rightarrow> nat \<Rightarrow> (usb_intf_desc \<times> nat) option" where
  "next_interface_desc env c off = parse_next_interface env c off"

definition next_endpoint_desc :: "env \<Rightarrow> usb_config_desc \<Rightarrow> nat \<Rightarrow> (usb_ep_desc \<times> nat) option" where
  "next_endpoint_desc env c off = parse_next_endpoint env c off"

definition is_in_endpoint :: "u8 \<Rightarrow> bool" where
  "is_in_endpoint ep \<longleftrightarrow> ep AND 0x80 \<noteq> 0"

definition is_msc_interface :: "usb_intf_desc \<Rightarrow> bool" where
  "is_msc_interface i \<longleftrightarrow> bInterfaceClass i = USB_CLASS_MASS_STORAGE \<and>
     bInterfaceSubClass i = SCSI_COMMAND_SET \<and> bInterfaceProtocol i = BULK_ONLY_TRANSFER"

text \<open>
  The loop of \<open>find_msc_interface\<close>. Its fuel is one more than the length of the descriptor;
  running out of it is the fault \<open>Blocked\<close>, a loop that does not end. The out parameter
  \<open>offset\<close> is returned with the interface.
\<close>

primrec find_loop :: "env \<Rightarrow> usb_config_desc \<Rightarrow> nat \<Rightarrow> nat \<Rightarrow> (sys, (usb_intf_desc \<times> nat) option) prog" where
  "find_loop env c 0 off = fault Blocked"
| "find_loop env c (Suc n) off = (case next_interface_desc env c off of
       None \<Rightarrow> return None
     | Some (ifc_desc, off) \<Rightarrow>
         if is_msc_interface ifc_desc then return (Some (ifc_desc, off)) else find_loop env c n off)"

definition find_msc_interface :: "env \<Rightarrow> usb_config_desc \<Rightarrow> nat \<Rightarrow> (sys, (usb_intf_desc \<times> nat) option) prog" where
  "find_msc_interface env c off = find_loop env c (Suc (unat (wTotalLength c))) off"

definition take_endpoint :: "usb_ep_desc \<Rightarrow> msc_config \<Rightarrow> msc_config" where
  "take_endpoint e cfg = (if is_in_endpoint (ep_address e)
     then cfg\<lparr>bulk_in_ep := ep_address e, bulk_in_mps := wMaxPacketSize e\<rparr>
     else cfg\<lparr>bulk_out_ep := ep_address e\<rparr>)"

definition extract_config_from_descriptor ::
    "env \<Rightarrow> usb_config_desc \<Rightarrow> msc_config \<Rightarrow> (sys, esp_err_t \<times> msc_config) prog" where
  "extract_config_from_descriptor env cfg_desc cfg = bind (find_msc_interface env cfg_desc 0) (\<lambda>found.
     case found of
       None \<Rightarrow> fault AssertFailed
     | Some (ifc_desc, off) \<Rightarrow>
         (let cfg = cfg\<lparr>iface_num := bInterfaceNumber ifc_desc\<rparr> in
          case next_endpoint_desc env cfg_desc off of
            None \<Rightarrow> return (ESP_ERR_NOT_SUPPORTED, cfg)
          | Some (ep_desc, off) \<Rightarrow>
              (let cfg = take_endpoint ep_desc cfg in
               case next_endpoint_desc env cfg_desc off of
                 None \<Rightarrow> return (ESP_ERR_NOT_SUPPORTED, cfg)
               | Some (ep_desc, _) \<Rightarrow> return (ESP_OK, take_endpoint ep_desc cfg))))"

section \<open>The search ends and finds the first interface\<close>

text \<open>
  \<open>parser_advances\<close> is what the library documents of its parser: the descriptor it returns lies
  behind the offset and within the descriptor's total length. \<open>interface_after\<close> relates an offset
  to the interfaces the parser reaches from it.
\<close>

definition parser_advances :: "env \<Rightarrow> bool" where
  "parser_advances env \<longleftrightarrow> (\<forall>c off i off'. parse_next_interface env c off = Some (i, off') \<longrightarrow>
     off < off' \<and> off' < unat (wTotalLength c))"

inductive interface_after :: "env \<Rightarrow> usb_config_desc \<Rightarrow> nat \<Rightarrow> usb_intf_desc \<times> nat \<Rightarrow> bool"
  for env c where
  next_one: "next_interface_desc env c off = Some x \<Longrightarrow> interface_after env c off x"
| later_one: "next_interface_desc env c off = Some (i, off') \<Longrightarrow> interface_after env c off' x \<Longrightarrow>
    interface_after env c off x"

inductive_simps interface_after_iff: "interface_after env c off x"

lemma interface_after_None: "next_interface_desc env c off = None \<Longrightarrow> \<not> interface_after env c off x"
  by (simp add: interface_after_iff [of env c off x])

lemma interface_after_Some:
  "next_interface_desc env c off = Some (i, off') \<Longrightarrow>
     interface_after env c off x \<longleftrightarrow> x = (i, off') \<or> interface_after env c off' x"
  by (auto simp: interface_after_iff [of env c off x])

lemma find_loop_finds:
  assumes "parser_advances env" and "unat (wTotalLength c) - off < n"
  shows "\<exists>r. find_loop env c n off = return r \<and>
    (case r of None \<Rightarrow> \<forall>i off'. interface_after env c off (i, off') \<longrightarrow> \<not> is_msc_interface i
     | Some (i, off') \<Rightarrow> is_msc_interface i \<and> interface_after env c off (i, off'))"
  using assms(2)
proof (induction n arbitrary: off)
  case (Suc n)
  show ?case
  proof (cases "next_interface_desc env c off")
    case None
    then show ?thesis by (intro exI [of _ None]) (simp add: interface_after_None fun_eq_iff)
  next
    case (Some x)
    obtain i off' where x: "x = (i, off')" by (cases x)
    show ?thesis
    proof (cases "is_msc_interface i")
      case True
      with Some x show ?thesis
        by (intro exI [of _ "Some (i, off')"]) (auto simp: fun_eq_iff intro: next_one)
    next
      case False
      from Some x assms(1) have "off < off'" "off' < unat (wTotalLength c)"
        by (auto simp: parser_advances_def next_interface_desc_def)
      with Suc.prems have "unat (wTotalLength c) - off' < n" by linarith
      from Suc.IH [OF this] obtain r where r: "find_loop env c n off' = return r"
        "case r of None \<Rightarrow> \<forall>i off''. interface_after env c off' (i, off'') \<longrightarrow> \<not> is_msc_interface i
         | Some (i, off'') \<Rightarrow> is_msc_interface i \<and> interface_after env c off' (i, off'')"
        by blast
      have "find_loop env c (Suc n) off = return r" using Some x False r(1) by simp
      moreover have "case r of None \<Rightarrow> \<forall>i off''. interface_after env c off (i, off'') \<longrightarrow> \<not> is_msc_interface i
         | Some (i, off'') \<Rightarrow> is_msc_interface i \<and> interface_after env c off (i, off'')"
        using r(2) Some x False by (auto simp: interface_after_Some split: option.splits)
      ultimately show ?thesis by blast
    qed
  qed
qed simp

lemma find_msc_interface_finds:
  assumes "parser_advances env"
  shows "\<exists>r. find_msc_interface env c off = return r \<and>
    (case r of None \<Rightarrow> \<forall>i off'. interface_after env c off (i, off') \<longrightarrow> \<not> is_msc_interface i
     | Some (i, off') \<Rightarrow> is_msc_interface i \<and> interface_after env c off (i, off'))"
  unfolding find_msc_interface_def by (rule find_loop_finds [OF assms]) simp

text \<open>Extraction never changes the state, and without a mass-storage interface it aborts.\<close>

lemma extract_cases:
  assumes "parser_advances env"
  shows "(\<exists>e cfg'. extract_config_from_descriptor env c cfg s = Ret (e, cfg') s) \<or>
    extract_config_from_descriptor env c cfg s = Fault AssertFailed"
proof -
  obtain r where "find_msc_interface env c 0 = return r"
    using find_msc_interface_finds [OF assms] by blast
  then show ?thesis
    by (auto simp: extract_config_from_descriptor_def Let_def split: option.splits prod.splits)
qed

lemma extract_two_endpoints:
  assumes "find_msc_interface env c 0 = return (Some (i, off))"
    and "next_endpoint_desc env c off = Some (e1, off1)" and "next_endpoint_desc env c off1 = Some (e2, off2)"
  shows "extract_config_from_descriptor env c cfg =
    return (ESP_OK, take_endpoint e2 (take_endpoint e1 (cfg\<lparr>iface_num := bInterfaceNumber i\<rparr>)))"
  using assms by (simp add: extract_config_from_descriptor_def Let_def fun_eq_iff)

end
