(* ===== verification/Sample_Device.thy ===== *)
theory Sample_Device imports Scsi_Bot Msc_Config begin

text \<open>
  A concrete host stack and device, on which the theorems' hypotheses are met and the
  definitions evaluate. The host answers every call; the device is a function that says how a
  transfer ends. \<open>disk_device\<close> is a disk that follows the transport: it reads the last command
  wrapper from the history and answers with data and a passed status.
\<close>

definition sample_round :: "nat \<Rightarrow> nat \<Rightarrow> nat" where
  "sample_round n m = (if m = 0 then n else ((n + m - 1) div m) * m)"

text \<open>A configuration of 32 bytes: an interface at 9, a bulk-IN endpoint at 18, a bulk-OUT one at 25.\<close>

definition sample_interfaces :: "usb_config_desc \<Rightarrow> nat \<Rightarrow> (usb_intf_desc \<times> nat) option" where
  "sample_interfaces c off = (if off < 9 \<and> 9 < unat (wTotalLength c)
     then Some (\<lparr>bInterfaceNumber = 0, bInterfaceClass = 8, bInterfaceSubClass = 6, bInterfaceProtocol = 0x50\<rparr>, 9)
     else None)"

definition sample_endpoints :: "usb_config_desc \<Rightarrow> nat \<Rightarrow> (usb_ep_desc \<times> nat) option" where
  "sample_endpoints c off = (if off < 18 then Some (\<lparr>ep_address = 0x81, wMaxPacketSize = 64\<rparr>, 18)
     else if off < 25 then Some (\<lparr>ep_address = 2, wMaxPacketSize = 64\<rparr>, 25) else None)"

definition sample_host :: "(event list \<Rightarrow> usb_transfer \<Rightarrow> completion) \<Rightarrow> env" where
  "sample_host device = \<lparr>round_up_to_mps = sample_round,
     parse_next_interface = sample_interfaces, parse_next_endpoint = sample_endpoints,
     r_memory = (\<lambda>_ i. of_nat i),
     r_endpoint_halt = (\<lambda>_ _ _. ESP_OK), r_endpoint_flush = (\<lambda>_ _ _. ESP_OK),
     r_endpoint_clear = (\<lambda>_ _ _. ESP_OK), r_transfer_submit = (\<lambda>_ _. ESP_OK),
     r_submit_control = (\<lambda>_ _ _. ESP_OK), r_completion = device,
     r_take_forever = (\<lambda>_ _. True), r_transfer_alloc = (\<lambda>_ _. ESP_OK),
     r_transfer_free = (\<lambda>_ _. ESP_OK), r_sem_create = (\<lambda>_. True),
     r_device_open = (\<lambda>_ _ _. (ESP_OK, 7)), r_device_close = (\<lambda>_ _ _. ESP_OK),
     r_get_config = (\<lambda>_ _. (ESP_OK, \<lparr>wTotalLength = 32, cfg_bytes = []\<rparr>)),
     r_device_desc = (\<lambda>_ _. (ESP_OK, \<lparr>idProduct = 1, idVendor = 2\<rparr>)),
     r_device_info = (\<lambda>_ _. (ESP_OK, \<lparr>str_desc_manufacturer = None, str_desc_product = None,
       str_desc_serial_num = None\<rparr>)),
     r_interface_claim = (\<lambda>_ _ _ _. ESP_OK), r_interface_release = (\<lambda>_ _ _ _. ESP_OK),
     r_client_register = (\<lambda>_. (ESP_OK, 5)), r_client_deregister = (\<lambda>_ _. ESP_OK),
     r_client_unblock = (\<lambda>_ _. ESP_OK), r_handle_events = (\<lambda>_ _ _. ([], ESP_OK)),
     r_task_create = (\<lambda>_ _ _ _. True), r_calloc = (\<lambda>_. True),
     r_get_drive = (\<lambda>_. (ESP_OK, 0)), r_vfs_register = (\<lambda>_ _ _ _. (ESP_OK, 7)),
     r_mount = (\<lambda>_ _ _. FR_OK), r_mkfs = (\<lambda>_ _ _. FR_OK)\<rparr>"

section \<open>Devices\<close>

definition completed :: "u8 list \<Rightarrow> completion" where
  "completed bs = \<lparr>cmp_received = True, cmp_status = USB_TRANSFER_STATUS_COMPLETED, cmp_data = bs,
     cmp_actual = length bs\<rparr>"

text \<open>The bulk transfers submitted so far, latest first.\<close>

definition submitted :: "event list \<Rightarrow> usb_transfer list" where
  "submitted h = rev (concat (map (\<lambda>e. case e of Usb (EvSubmit x _) \<Rightarrow> [x] | _ \<Rightarrow> []) h))"

fun last_command :: "nat \<Rightarrow> usb_transfer list \<Rightarrow> (nat \<times> wire_command) option" where
  "last_command k [] = None"
| "last_command k (x # xs) = (if bEndpointAddress x = 2 \<and> num_bytes x = 31
     then map_option (\<lambda>w. (k, w)) (device_reads (take 31 (data_buffer x)))
     else last_command (if bEndpointAddress x = 0x81 then Suc k else k) xs)"

definition disk_device :: "u8 list \<Rightarrow> event list \<Rightarrow> usb_transfer \<Rightarrow> completion" where
  "disk_device content h x =
     (if bEndpointAddress x \<noteq> 0x81 then completed []
      else case last_command 0 (submitted h) of
        None \<Rightarrow> completed []
      | Some (k, w) \<Rightarrow>
          if k = 1 \<and> wc_device_to_host w \<and> wc_transfer_length w \<noteq> 0
          then completed (take (unat (wc_transfer_length w)) content)
          else completed (bytes_csw (passing_csw (wc_tag w))))"

definition stalling_device :: "event list \<Rightarrow> usb_transfer \<Rightarrow> completion" where
  "stalling_device h x = (completed []) \<lparr>cmp_status := (if bEndpointAddress x = 0x81
     then USB_TRANSFER_STATUS_STALL else USB_TRANSFER_STATUS_COMPLETED)\<rparr>"

section \<open>A state with an installed device\<close>

definition sample_driver :: msc_driver where
  "sample_driver = \<lparr>client_handle = 5, user_cb = 1, user_arg = 0, all_events_handled = 4,
     end_client_event_handling = False, event_handling_started = True, devices_tailq = [10]\<rparr>"

definition sample_config :: msc_config where
  "sample_config = \<lparr>bulk_in_mps = 64, bulk_in_ep = 0x81, bulk_out_ep = 2, iface_num = 0\<rparr>"

definition sample_device :: msc_device where
  "sample_device = \<lparr>transfer_done = 11, handle = 7, xfer = 12, config = sample_config,
     disk = \<lparr>block_size = 16, block_count = 100\<rparr>\<rparr>"

definition sample_transfer :: usb_transfer where
  "sample_transfer = \<lparr>data_buffer = replicate 64 0, num_bytes = 0, device_handle = NULL,
     bEndpointAddress = 0, callback = False, timeout_ms = 0, xfer_context = NULL,
     status = USB_TRANSFER_STATUS_COMPLETED, actual_num_bytes = 0\<rparr>"

definition sample_sys :: sys where
  "sample_sys = \<lparr>hist = [], cbw_tag = 0, s_msc_driver = Some sample_driver,
     devs = [10 \<mapsto> sample_device], xfers = [12 \<mapsto> sample_transfer], next_ptr = 100, s_disks = [], vfss = (\<lambda>_. None), driver_addr = 3\<rparr>"

lemma sample_host_ok [simp]: "host_ok (sample_host device)"
  by (simp add: host_ok_def alloc_succeeds_def flush_completes_def sample_host_def)

lemma sample_dev_ok [simp]: "dev_ok 10 sample_sys"
  by (rule dev_okI [of _ _ sample_device sample_transfer])
    (simp_all add: transfer_at_def sample_sys_def sample_device_def sample_transfer_def)

lemma sample_usable [simp]: "usable (sample_host device) 10 sample_sys"
  by (simp add: usable_def)

lemma sample_attached [simp]: "attached 10 sample_config sample_sys"
  unfolding attached_def using sample_dev_ok by (simp add: sample_sys_def sample_device_def)

lemma stalling_host: "answers (sample_host stalling_device)" "stalls_at (sample_host stalling_device) 0x81"
  using sample_host_ok [of stalling_device]
  by (simp_all add: answers_def stalls_at_def stalling_device_def completed_def sample_host_def)

section \<open>Runs of the disk\<close>

text \<open>One bulk transfer on a host that answers, with its exact final state.\<close>

definition after_submit ::
    "env \<Rightarrow> ptr \<Rightarrow> msc_device \<Rightarrow> usb_transfer \<Rightarrow> u8 list \<Rightarrow> nat \<Rightarrow> msc_endpoint \<Rightarrow> sys \<Rightarrow> sys" where
  "after_submit env p d x data n ep s =
     (let y = loaded_transfer env (hist s) p d x data n (bulk_transfer_size env d n ep) ep in
      s\<lparr>xfers := (xfers s)(xfer d \<mapsto> y), hist := hist s @ [Usb (EvSubmit y ESP_OK)]\<rparr>)"

lemma bulk_exact:
  assumes env: "answers env" and at: "transfer_at s p d x"
    and fits: "bulk_transfer_size env d n ep \<le> length (data_buffer x)"
    and y: "y = loaded_transfer env (hist s) p d x data n (bulk_transfer_size env d n ep) ep"
    and u: "u = after_submit env p d x data n ep s"
  shows "msc_bulk_transfer env p data n ep s =
    finish_transfer (xfer d) data ep (cmp_status (r_completion env (hist u) y))
      (awaited env (transfer_done d) (xfer d) y u)"
proof -
  have xd: "xfer d \<noteq> NULL" "p \<noteq> NULL" "devs s p = Some d" using at by auto
  have load: "load_transfer env p data n (bulk_transfer_size env d n ep) ep s =
      Ret (xfer d) (s\<lparr>xfers := (xfers s)(xfer d \<mapsto> y)\<rparr>)"
    using at fits unfolding y by (intro load_transfer_run) (auto simp: bulk_transfer_size_def)
  have "usb_host_transfer_submit env (xfer d) (s\<lparr>xfers := (xfers s)(xfer d \<mapsto> y)\<rparr>) = Ret ESP_OK u"
    using xd env by (simp add: usb_host_transfer_submit_def answers_def u after_submit_def y Let_def)
  moreover have "wait_for_transfer_done env (xfer d) u =
      Ret (cmp_status (r_completion env (hist u) y)) (awaited env (transfer_done d) (xfer d) y u)"
  proof (rule wait_received)
    show "xfers u (xfer d) = Some y" "devs u (xfer_context y) = Some d" "xfer_context y \<noteq> NULL"
      using xd by (simp_all add: u y after_submit_def Let_def)
    show "cmp_received (r_completion env (hist u) y)" using env by (simp add: answers_def)
  qed (rule xd)
  ultimately show ?thesis
    using at fits load by (simp add: msc_bulk_transfer_def Let_def)
qed

definition sample_at :: "sys \<Rightarrow> event list \<Rightarrow> bool" where
  "sample_at s h \<longleftrightarrow> hist s = h \<and> (\<exists>x. transfer_at s 10 sample_device x \<and> length (data_buffer x) = 64)"

lemma sample_bulk:
  assumes env: "answers (sample_host device)" and at: "sample_at s h"
    and fits: "bulk_transfer_size (sample_host device) sample_device n ep \<le> 64"
  shows "\<exists>y t. msc_bulk_transfer (sample_host device) 10 data n ep s =
      finish_transfer 12 data ep (cmp_status (device (h @ [Usb (EvSubmit y ESP_OK)]) y)) t \<and>
    sample_at t (h @ [Usb (EvSubmit y ESP_OK), Usb (EvTransferWait 11 5000 True)]) \<and>
    bEndpointAddress y = (if ep = MSC_EP_IN then 0x81 else 2) \<and> length (data_buffer y) = 64 \<and>
    num_bytes y = bulk_transfer_size (sample_host device) sample_device n ep \<and>
    (ep = MSC_EP_OUT \<longrightarrow> take n (data_buffer y) = mem_read of_nat n data) \<and>
    xfers t 12 = Some (complete_transfer (device (h @ [Usb (EvSubmit y ESP_OK)]) y) y)"
proof -
  let ?env = "sample_host device"
  from at obtain x where x: "transfer_at s 10 sample_device x" "length (data_buffer x) = 64" "hist s = h"
    by (auto simp: sample_at_def)
  obtain y where y: "y = loaded_transfer ?env (hist s) 10 sample_device x data n
      (bulk_transfer_size ?env sample_device n ep) ep" by blast
  obtain u where u: "u = after_submit ?env 10 sample_device x data n ep s" by blast
  obtain t where t: "t = awaited ?env 11 12 y u" by blast
  have fields: "xfer sample_device = 12" "transfer_done sample_device = 11" by (simp_all add: sample_device_def)
  have dev: "r_completion ?env = device" "r_memory ?env = (\<lambda>_. of_nat)" by (simp_all add: sample_host_def)
  have hu: "hist u = h @ [Usb (EvSubmit y ESP_OK)]" by (simp add: u after_submit_def Let_def x(3) y)
  have "bulk_transfer_size ?env sample_device n ep \<le> length (data_buffer x)" using fits x(2) by simp
  then have run: "msc_bulk_transfer ?env 10 data n ep s =
      finish_transfer 12 data ep (cmp_status (device (hist u) y)) t"
    using bulk_exact [OF env x(1) _ y u] by (simp add: fields t dev)
  have n: "ep = MSC_EP_OUT \<Longrightarrow> n \<le> 64" using fits by (simp add: bulk_transfer_size_def)
  have yf: "bEndpointAddress y = (if ep = MSC_EP_IN then 0x81 else 2)" "length (data_buffer y) = 64"
    "num_bytes y = bulk_transfer_size ?env sample_device n ep"
    "ep = MSC_EP_OUT \<longrightarrow> take n (data_buffer y) = mem_read of_nat n data"
    using x(2) n by (auto simp: y loaded_transfer_def sample_device_def sample_config_def take_overwrite dev)
  have x12: "xfers t 12 = Some (complete_transfer (device (hist u) y) y)"
    by (simp add: t awaited_def dev)
  moreover have "hist t = hist u @ [Usb (EvTransferWait 11 5000 True)]"
    by (simp add: t awaited_def y)
  moreover have "devs t 10 = Some sample_device"
    using x(1) by (auto simp: t awaited_def u after_submit_def Let_def)
  ultimately have "sample_at t (h @ [Usb (EvSubmit y ESP_OK), Usb (EvTransferWait 11 5000 True)])"
    unfolding sample_at_def transfer_at_def using yf(2) by (simp add: hu fields)
  with run yf x12 show ?thesis unfolding hu by blast
qed

lemma disk_answers [simp]: "answers (sample_host (disk_device content))"
  using sample_host_ok [of "disk_device content"]
  by (auto simp: answers_def sample_host_def disk_device_def completed_def split: option.split)

lemma disk_out:
  assumes "sample_at s h" "n \<le> 64"
  shows "\<exists>y t. msc_bulk_transfer (sample_host (disk_device content)) 10 data n MSC_EP_OUT s = Ret (ESP_OK, data) t \<and>
    sample_at t (h @ [Usb (EvSubmit y ESP_OK), Usb (EvTransferWait 11 5000 True)]) \<and>
    bEndpointAddress y = 2 \<and> num_bytes y = n \<and> take n (data_buffer y) = mem_read of_nat n data"
  using sample_bulk [where n = n and ep = MSC_EP_OUT and data = data, OF disk_answers [of content] assms(1)] assms(2)
  by (fastforce simp: bulk_transfer_size_def disk_device_def completed_def finish_transfer_def)

lemma disk_in:
  assumes "sample_at s h" "sample_round n 64 \<le> 64" "length bs \<le> length data" "length bs \<le> 64"
    and "\<And>y. bEndpointAddress y = 0x81 \<Longrightarrow> disk_device content (h @ [Usb (EvSubmit y ESP_OK)]) y = completed bs"
  shows "\<exists>y t. msc_bulk_transfer (sample_host (disk_device content)) 10 data n MSC_EP_IN s =
      Ret (ESP_OK, overwrite bs data) t \<and>
    sample_at t (h @ [Usb (EvSubmit y ESP_OK), Usb (EvTransferWait 11 5000 True)]) \<and>
    bEndpointAddress y = 0x81"
proof -
  let ?env = "sample_host (disk_device content)"
  have ts: "bulk_transfer_size ?env sample_device n MSC_EP_IN = sample_round n 64"
    by (simp add: bulk_transfer_size_def sample_host_def sample_device_def sample_config_def)
  obtain y t where run: "msc_bulk_transfer ?env 10 data n MSC_EP_IN s =
      finish_transfer 12 data MSC_EP_IN (cmp_status (disk_device content (h @ [Usb (EvSubmit y ESP_OK)]) y)) t"
    and t: "sample_at t (h @ [Usb (EvSubmit y ESP_OK), Usb (EvTransferWait 11 5000 True)])"
    and y: "bEndpointAddress y = 0x81" "length (data_buffer y) = 64"
    and x: "xfers t 12 = Some (complete_transfer (disk_device content (h @ [Usb (EvSubmit y ESP_OK)]) y) y)"
    using sample_bulk [where n = n and ep = MSC_EP_IN and data = data, OF disk_answers [of content] assms(1)] assms(2) ts by auto
  have "finish_transfer 12 data MSC_EP_IN USB_TRANSFER_STATUS_COMPLETED t = Ret (ESP_OK, overwrite bs data) t"
    using x y assms(3,4) by (simp add: finish_transfer_cases assms(5) complete_transfer_def completed_def take_overwrite)
  with run t y show ?thesis by (auto simp: assms(5) completed_def)
qed

lemma submitted_simps [simp]:
  "submitted [] = []"
  "submitted (xs @ ys) = submitted ys @ submitted xs"
  "submitted (Usb (EvSubmit y e) # xs) = submitted xs @ [y]"
  "submitted (Usb (EvTransferWait q ms b) # xs) = submitted xs"
  by (simp_all add: submitted_def)

text \<open>
  The disk serves a command whose bytes it reads as \<open>w\<close>, whatever its data phase: it delivers
  its content, takes what is sent to it, or has no data phase; then it reports success.
\<close>

definition wants :: "wire_command \<Rightarrow> msc_cbw \<Rightarrow> u8 list \<Rightarrow> bool" where
  "wants w cbw mem \<longleftrightarrow> device_reads (mem_read of_nat CBW_SIZE mem) = Some w \<and> wc_tag w = tag cbw \<and>
     wc_device_to_host w = (flags cbw AND CWB_FLAG_DIRECTION_IN \<noteq> 0)"

lemma disk_command_sent:
  assumes "sample_at s h" and "wants w cbw mem"
  shows "\<exists>y t. msc_bulk_transfer (sample_host (disk_device content)) 10 mem CBW_SIZE MSC_EP_OUT s = Ret (ESP_OK, mem) t \<and>
    sample_at t (h @ [Usb (EvSubmit y ESP_OK), Usb (EvTransferWait 11 5000 True)]) \<and>
    bEndpointAddress y = 2 \<and> num_bytes y = 31 \<and> device_reads (take 31 (data_buffer y)) = Some w"
  using disk_out [where n = CBW_SIZE and data = mem and content = content, OF assms(1)] assms(2)
  by (fastforce simp: wants_def)

lemma disk_status:
  assumes at: "sample_at s h" and last: "\<And>x. bEndpointAddress x = 0x81 \<Longrightarrow>
      \<exists>k. last_command 0 (x # submitted h) = Some (k, w) \<and>
        \<not> (k = 1 \<and> wc_device_to_host w \<and> wc_transfer_length w \<noteq> 0)"
  shows "\<exists>t h'. status_transport recover (sample_host (disk_device content)) 10 s =
    Ret (ESP_OK, bytes_csw (passing_csw (wc_tag w))) t \<and> sample_at t h'"
proof -
  let ?env = "sample_host (disk_device content)"
  let ?mem = "map (r_memory ?env (hist s)) [0..<CSW_SIZE]"
  let ?csw = "bytes_csw (passing_csw (wc_tag w))"
  have "disk_device content (h @ [Usb (EvSubmit x ESP_OK)]) x = completed ?csw"
    if "bEndpointAddress x = 0x81" for x
    using last [OF that] that by (auto simp: disk_device_def)
  moreover have "length ?csw \<le> length ?mem" "length ?csw \<le> 64" by (simp_all add: csw_format.enc_width)
  moreover have "sample_round CSW_SIZE 64 \<le> 64" by (simp add: sample_round_def)
  ultimately obtain t h' where "msc_bulk_transfer ?env 10 ?mem CSW_SIZE MSC_EP_IN s = Ret (ESP_OK, overwrite ?csw ?mem) t"
    "sample_at t h'"
    using disk_in [OF at, of CSW_SIZE ?csw ?mem] by blast
  moreover have "overwrite ?csw ?mem = ?csw" by (simp add: overwrite_full csw_format.enc_width)
  ultimately show ?thesis by (auto simp: status_transport_def uninitialised_def)
qed

lemma disk_executes_in:
  assumes at: "sample_at s h" and w: "wants w cbw mem" "wc_device_to_host w"
    and n: "0 < n" "n = unat (wc_transfer_length w)" "n \<le> 64" "n \<le> length content" "n \<le> length data"
  shows "\<exists>t h'. bot_execute_command recover (sample_host (disk_device content)) 10 cbw mem (Some data) n s =
    Ret (ESP_OK, Some (overwrite (take n content) data)) t \<and> sample_at t h'"
proof -
  let ?env = "sample_host (disk_device content)"
  let ?bs = "take n content"
  obtain y t1 where 1: "msc_bulk_transfer ?env 10 mem CBW_SIZE MSC_EP_OUT s = Ret (ESP_OK, mem) t1"
    and at2: "sample_at t1 (h @ [Usb (EvSubmit y ESP_OK), Usb (EvTransferWait 11 5000 True)])"
    and y: "bEndpointAddress y = 2" "num_bytes y = 31" "device_reads (take 31 (data_buffer y)) = Some w"
    using disk_command_sent [OF at w(1)] by blast
  let ?h2 = "h @ [Usb (EvSubmit y ESP_OK), Usb (EvTransferWait 11 5000 True)]"
  have len: "wc_transfer_length w \<noteq> 0" using n(1,2) by auto
  have "length ?bs \<le> length data" "length ?bs \<le> 64" "sample_round n 64 \<le> 64"
    using n by (simp_all add: sample_round_def)
  moreover have "disk_device content (?h2 @ [Usb (EvSubmit x ESP_OK)]) x = completed ?bs"
    if "bEndpointAddress x = 0x81" for x
    using that y w len n(2) by (simp add: disk_device_def)
  ultimately obtain y2 t2 where 2: "msc_bulk_transfer ?env 10 data n MSC_EP_IN t1 = Ret (ESP_OK, overwrite ?bs data) t2"
    and at3: "sample_at t2 (?h2 @ [Usb (EvSubmit y2 ESP_OK), Usb (EvTransferWait 11 5000 True)])"
    and y2: "bEndpointAddress y2 = 0x81"
    using disk_in [OF at2, of n ?bs data] by blast
  obtain t3 h' where 3: "status_transport recover ?env 10 t2 = Ret (ESP_OK, bytes_csw (passing_csw (wc_tag w))) t3"
    "sample_at t3 h'"
    using disk_status [where w = w and recover = recover and content = content, OF at3] y y2 by auto
  show ?thesis
    using 1 2 3 w by (auto simp: bot_execute_command_def data_transport_def csw_format.dec_enc check_csw_ok
        wants_def Let_def)
qed

lemma disk_executes:
  assumes at: "sample_at s h" and w: "wants w cbw mem" "wc_device_to_host w \<Longrightarrow> wc_transfer_length w = 0"
    and data: "data = None \<or> (data = Some d \<and> \<not> wc_device_to_host w \<and> n \<le> 64 \<and> n \<noteq> 31)"
  shows "\<exists>t h'. bot_execute_command recover (sample_host (disk_device content)) 10 cbw mem data n s =
    Ret (ESP_OK, data) t \<and> sample_at t h'"
proof -
  let ?env = "sample_host (disk_device content)"
  let ?ep = "if flags cbw AND CWB_FLAG_DIRECTION_IN \<noteq> 0 then MSC_EP_IN else MSC_EP_OUT"
  obtain y t1 where 1: "msc_bulk_transfer ?env 10 mem CBW_SIZE MSC_EP_OUT s = Ret (ESP_OK, mem) t1"
    and at2: "sample_at t1 (h @ [Usb (EvSubmit y ESP_OK), Usb (EvTransferWait 11 5000 True)])"
    and y: "bEndpointAddress y = 2" "num_bytes y = 31" "device_reads (take 31 (data_buffer y)) = Some w"
    using disk_command_sent [OF at w(1)] by blast
  let ?h2 = "h @ [Usb (EvSubmit y ESP_OK), Usb (EvTransferWait 11 5000 True)]"
  obtain t2 h3 where 2: "data_transport ?env 10 data n ?ep t1 = Ret (ESP_OK, data) t2" and at3: "sample_at t2 h3"
    and last: "\<And>x. bEndpointAddress x = 0x81 \<Longrightarrow> last_command 0 (x # submitted h3) = Some (1, w)"
  proof (cases data)
    case None
    with that [of t1 ?h2] at2 y show thesis by (simp add: data_transport_def)
  next
    case (Some b)
    with data have b: "b = d" "\<not> wc_device_to_host w" "n \<le> 64" "n \<noteq> 31" by auto
    obtain y2 t2 where 2: "msc_bulk_transfer ?env 10 d n MSC_EP_OUT t1 = Ret (ESP_OK, d) t2"
      and at3: "sample_at t2 (?h2 @ [Usb (EvSubmit y2 ESP_OK), Usb (EvTransferWait 11 5000 True)])"
      and y2: "bEndpointAddress y2 = 2" "num_bytes y2 = n"
      using disk_out [where n = n and data = d and content = content, OF at2 b(3)] by auto
    have "?ep = MSC_EP_OUT" using w(1) b(2) by (simp add: wants_def)
    with that [OF _ at3] 2 y y2 b Some show thesis by (simp add: data_transport_def)
  qed
  obtain t3 h' where 3: "status_transport recover ?env 10 t2 = Ret (ESP_OK, bytes_csw (passing_csw (wc_tag w))) t3"
    "sample_at t3 h'"
    using disk_status [where w = w and recover = recover and content = content, OF at3] last w(2) by fastforce
  show ?thesis
    using 1 2 3 w(1) by (auto simp: bot_execute_command_def csw_format.dec_enc check_csw_ok wants_def Let_def)
qed

text \<open>The commands of the driver on the disk.\<close>

lemma sample_at_tag [simp]: "sample_at (s\<lparr>cbw_tag := t\<rparr>) h = sample_at s h"
  by (simp add: sample_at_def transfer_at_def)

lemmas wants_simps = wants_def reads_read10 [of of_nat] reads_write10 [of of_nat] reads_unit_ready [of of_nat]
  reads_read_capacity [of of_nat] init_defs CBW_BASE_INIT_def

lemma disk_reads:
  assumes "sample_at s h" "0 < unat (k * z)" "unat (k * z) \<le> 64"
    "unat (k * z) \<le> length content" "unat (k * z) \<le> length data"
  shows "\<exists>t h'. scsi_cmd_read10 recover (sample_host (disk_device content)) 10 data a k z s =
    Ret (ESP_OK, overwrite (take (unat (k * z)) content) data) t \<and> sample_at t h'"
proof -
  let ?c = "init_read10 (cbw_tag s + 1) a k z"
  have w: "wants \<lparr>wc_tag = cbw_tag s + 1, wc_transfer_length = k * z, wc_device_to_host = True, wc_lun = 0,
      wc_command = Read_10 a (ucast k)\<rparr> (r10_base ?c) (bytes_cbw_read10 ?c)"
    unfolding wants_def using reads_read10 [of of_nat] by (simp add: init_read10_def CBW_BASE_INIT_def)
  show ?thesis
    unfolding read10_ok_iff by (rule disk_executes_in [OF _ w]) (use assms in simp_all)
qed

lemma disk_writes:
  assumes "sample_at s h" "unat (k * z) \<le> 64" "unat (k * z) \<noteq> 31"
  shows "\<exists>t h'. scsi_cmd_write10 recover (sample_host (disk_device content)) 10 data a k z s =
    Ret ESP_OK t \<and> sample_at t h'"
proof -
  let ?c = "init_write10 (cbw_tag s + 1) a k z"
  have w: "wants \<lparr>wc_tag = cbw_tag s + 1, wc_transfer_length = k * z, wc_device_to_host = False, wc_lun = 0,
      wc_command = Write_10 a (ucast k)\<rparr> (w10_base ?c) (bytes_cbw_write10 ?c)"
    unfolding wants_def using reads_write10 [of of_nat] by (simp add: init_write10_def CBW_BASE_INIT_def)
  have at: "sample_at (s\<lparr>cbw_tag := cbw_tag s + 1\<rparr>) h" using assms(1) by simp
  from disk_executes [where data = "Some data" and d = data and n = "unat (k * z)" and recover = recover
      and content = content, OF at w] assms(2,3)
  show ?thesis unfolding write10_ok_iff by auto
qed

lemma disk_is_ready:
  assumes "sample_at s h"
  shows "\<exists>t h'. scsi_cmd_unit_ready recover (sample_host (disk_device content)) 10 s = Ret ESP_OK t \<and> sample_at t h'"
proof -
  let ?c = "init_unit_ready (cbw_tag s + 1)"
  have w: "wants \<lparr>wc_tag = cbw_tag s + 1, wc_transfer_length = 0, wc_device_to_host = True, wc_lun = 0,
      wc_command = Test_Unit_Ready\<rparr> (ur_base ?c) (bytes_cbw_unit_ready ?c)"
    unfolding wants_def using reads_unit_ready [of of_nat] by (simp add: init_unit_ready_def CBW_BASE_INIT_def)
  have at: "sample_at (s\<lparr>cbw_tag := cbw_tag s + 1\<rparr>) h" using assms(1) by simp
  from disk_executes [where data = None and n = 0 and recover = recover and content = content, OF at w]
  show ?thesis unfolding unit_ready_ok_iff by auto
qed

lemma read_capacity_run:
  assumes "bot_execute_command recover env p (rc_base (init_read_capacity (cbw_tag s + 1)))
       (bytes_cbw_read_capacity (init_read_capacity (cbw_tag s + 1)))
       (Some (map (r_memory env (hist s)) [0..<8])) 8 (s\<lparr>cbw_tag := cbw_tag s + 1\<rparr>) = Ret (ESP_OK, Some bs) t"
  shows "scsi_cmd_read_capacity recover env p z0 c0 s =
    Ret (ESP_OK, bswap32 (rcr_block_size (read_capacity_response_of_bytes bs)),
      bswap32 (rcr_block_count (read_capacity_response_of_bytes bs))) t"
  using assms by (simp add: scsi_cmd_read_capacity_def uninitialised_def next_tag_def Let_def
      get_error_code_def del: upt_Suc)

lemma disk_capacity:
  assumes "sample_at s h" "content = rev (le32 blocks) @ rev (le32 bsize) @ rest"
  shows "\<exists>t h'. scsi_cmd_read_capacity recover (sample_host (disk_device content)) 10 z0 c0 s =
    Ret (ESP_OK, bsize, blocks) t \<and> sample_at t h'"
proof -
  let ?env = "sample_host (disk_device content)"
  let ?c = "init_read_capacity (cbw_tag s + 1)"
  let ?mem = "map (r_memory ?env (hist s)) [0..<8]"
  have w: "wants \<lparr>wc_tag = cbw_tag s + 1, wc_transfer_length = 8, wc_device_to_host = True, wc_lun = 0,
      wc_command = Read_Capacity_10\<rparr> (rc_base ?c) (bytes_cbw_read_capacity ?c)"
    unfolding wants_def using reads_read_capacity [of of_nat]
    by (simp add: init_read_capacity_def CBW_BASE_INIT_def)
  have at: "sample_at (s\<lparr>cbw_tag := cbw_tag s + 1\<rparr>) h" using assms(1) by simp
  have len: "8 \<le> length content" by (simp add: assms(2))
  have content: "overwrite (take 8 content) ?mem =
      bytes_read_capacity_response \<lparr>rcr_block_count = bswap32 blocks, rcr_block_size = bswap32 bsize\<rparr>"
    by (simp add: assms(2) overwrite_full bytes_read_capacity_response_def)
  obtain t h' where run: "bot_execute_command recover ?env 10 (rc_base ?c) (bytes_cbw_read_capacity ?c) (Some ?mem) 8
      (s\<lparr>cbw_tag := cbw_tag s + 1\<rparr>) = Ret (ESP_OK, Some (overwrite (take 8 content) ?mem)) t" and t: "sample_at t h'"
    using disk_executes_in [where n = 8 and data = ?mem and content = content and recover = recover,
        OF at w _ _ _ _ len] by fastforce
  have "scsi_cmd_read_capacity recover ?env 10 z0 c0 s = Ret (ESP_OK, bsize, blocks) t"
    unfolding read_capacity_run [OF run] content capacity_format.dec_enc by simp
  with t show ?thesis by blast
qed

lemma sample_at_start: "sample_at sample_sys []"
  by (simp add: sample_at_def sample_sys_def transfer_at_def sample_device_def sample_transfer_def)

lemma sample_dev: "devs sample_sys 10 = Some sample_device"
  by (simp add: sample_sys_def)

lemma sample_rounds_up: "rounds_up (sample_host device)"
proof -
  have "n \<le> sample_round n m \<and> sample_round n m < n + m \<and> m dvd sample_round n m" if "0 < m" for n m
  proof -
    have "(n + m - 1) div m * m + (n + m - 1) mod m = n + m - 1" by simp
    moreover have "(n + m - 1) mod m < m" using that by simp
    ultimately have "n \<le> (n + m - 1) div m * m" "(n + m - 1) div m * m < n + m" using that by linarith+
    then show ?thesis using that by (simp add: sample_round_def)
  qed
  then show ?thesis by (simp add: rounds_up_def sample_host_def)
qed

lemma sample_parser: "parser_advances (sample_host device)"
  by (auto simp: parser_advances_def sample_host_def sample_interfaces_def split: if_splits)

lemma find_first:
  "next_interface_desc env c off = Some (i, off') \<Longrightarrow> is_msc_interface i \<Longrightarrow>
     find_msc_interface env c off = return (Some (i, off'))"
  by (simp add: find_msc_interface_def fun_eq_iff)

lemma sample_interface:
  "find_msc_interface (sample_host device) \<lparr>wTotalLength = 32, cfg_bytes = []\<rparr> 0 =
     return (Some (\<lparr>bInterfaceNumber = 0, bInterfaceClass = 8, bInterfaceSubClass = 6, bInterfaceProtocol = 0x50\<rparr>, 9))"
  by (rule find_first)
    (simp_all add: next_interface_desc_def sample_host_def sample_interfaces_def is_msc_interface_def)

lemma sample_fields:
  "s_msc_driver sample_sys = Some sample_driver" "hist sample_sys = []" "client_handle sample_driver = 5"
  "user_cb sample_driver = 1" "user_arg sample_driver = 0" "devices_tailq sample_driver = [10]"
  "r_device_open (sample_host device) hs c a = (ESP_OK, 7)"
  "r_get_config (sample_host device) hs h = (ESP_OK, \<lparr>wTotalLength = 32, cfg_bytes = []\<rparr>)"
  "s_disks sample_sys = []"
  by (simp_all add: sample_sys_def sample_driver_def sample_host_def)

end
