(* ===== verification/Msc_Host.thy ===== *)
theory Msc_Host imports Scsi_Bot Msc_Config begin

text \<open>
  The driver of \<open>src/msc_host.c\<close>: installing and uninstalling it, the client events, attaching
  and detaching devices, and the sector and information calls of \<open>include/usb/msc_host.h\<close>.
  A function that runs SCSI commands takes as \<open>depth\<close> the number of nested reset recoveries its
  task's stack can hold. The functions run one after the other here; \<open>Driver_Tasks\<close> interleaves them.
\<close>

section \<open>The installed driver and its device list\<close>

definition put_driver :: "msc_driver option \<Rightarrow> (sys, unit) prog" where
  "put_driver drv = modify (\<lambda>s. s\<lparr>s_msc_driver := drv\<rparr>)"

definition new_ptr :: "(ptr \<Rightarrow> event) \<Rightarrow> (sys, ptr) prog" where
  "new_ptr ev = (\<lambda>s. Ret (next_ptr s) (s\<lparr>next_ptr := Suc (next_ptr s), hist := hist s @ [ev (next_ptr s)]\<rparr>))"

text \<open>\<open>calloc\<close> and \<open>xSemaphoreCreateBinary\<close>: a fresh address, or \<open>NULL\<close>.\<close>

definition calloc_ptr :: "env \<Rightarrow> (sys, ptr) prog" where
  "calloc_ptr env = bind (gets (\<lambda>s. r_calloc env (hist s))) (\<lambda>ok.
     if ok then new_ptr (\<lambda>p. Os (EvCalloc p)) else then_do (emit (Os (EvCalloc NULL))) (return NULL))"

definition xSemaphoreCreateBinary :: "env \<Rightarrow> (sys, ptr) prog" where
  "xSemaphoreCreateBinary env = bind (gets (\<lambda>s. r_sem_create env (hist s))) (\<lambda>ok.
     if ok then new_ptr (\<lambda>p. Os (EvSemCreate p)) else then_do (emit (Os (EvSemCreate NULL))) (return NULL))"

text \<open>
  \<open>STAILQ_REMOVE\<close> walks the list until it finds the element before the one to remove: for an
  element that is not in the list it runs off the end, through a \<open>NULL\<close> pointer.
\<close>

definition stailq_insert_tail :: "ptr \<Rightarrow> (sys, unit) prog" where
  "stailq_insert_tail p = bind the_driver (\<lambda>drv.
     put_driver (Some (drv\<lparr>devices_tailq := devices_tailq drv @ [p]\<rparr>)))"

definition stailq_remove :: "ptr \<Rightarrow> (sys, unit) prog" where
  "stailq_remove p = bind the_driver (\<lambda>drv.
     if p \<in> set (devices_tailq drv)
     then put_driver (Some (drv\<lparr>devices_tailq := remove1 p (devices_tailq drv)\<rparr>))
     else fault NullDeref)"

definition free_device :: "ptr \<Rightarrow> (sys, unit) prog" where
  "free_device p = then_do (modify (\<lambda>s. s\<lparr>devs := (devs s)(p := None)\<rparr>)) (emit (Os (EvFree p)))"

section \<open>External calls of the driver\<close>

definition usb_host_device_open :: "env \<Rightarrow> ptr \<Rightarrow> u8 \<Rightarrow> (sys, esp_err_t \<times> ptr) prog" where
  "usb_host_device_open env client addr = ask (\<lambda>hs. r_device_open env hs client addr)
     (\<lambda>(e, h). Host (EvDeviceOpen client addr h e))"

definition usb_host_device_close :: "env \<Rightarrow> ptr \<Rightarrow> ptr \<Rightarrow> (sys, esp_err_t) prog" where
  "usb_host_device_close env client h = ask (\<lambda>hs. r_device_close env hs client h)
     (\<lambda>e. Host (EvDeviceClose client h e))"

definition usb_host_get_active_config_descriptor :: "env \<Rightarrow> ptr \<Rightarrow> (sys, esp_err_t \<times> usb_config_desc) prog" where
  "usb_host_get_active_config_descriptor env h = ask (\<lambda>hs. r_get_config env hs h)
     (\<lambda>(e, _). Host (EvGetConfig h e))"

definition usb_host_get_device_descriptor :: "env \<Rightarrow> ptr \<Rightarrow> (sys, esp_err_t \<times> usb_device_desc) prog" where
  "usb_host_get_device_descriptor env h = ask (\<lambda>hs. r_device_desc env hs h)
     (\<lambda>(e, _). Host (EvGetDeviceDesc h e))"

definition usb_host_device_info :: "env \<Rightarrow> ptr \<Rightarrow> (sys, esp_err_t \<times> usb_device_info) prog" where
  "usb_host_device_info env h = ask (\<lambda>hs. r_device_info env hs h)
     (\<lambda>(e, _). Host (EvGetDeviceInfo h e))"

definition usb_host_interface_claim :: "env \<Rightarrow> ptr \<Rightarrow> ptr \<Rightarrow> u8 \<Rightarrow> (sys, esp_err_t) prog" where
  "usb_host_interface_claim env client h i = ask (\<lambda>hs. r_interface_claim env hs client h i)
     (\<lambda>e. Host (EvClaim client h i e))"

definition usb_host_interface_release :: "env \<Rightarrow> ptr \<Rightarrow> ptr \<Rightarrow> u8 \<Rightarrow> (sys, esp_err_t) prog" where
  "usb_host_interface_release env client h i = ask (\<lambda>hs. r_interface_release env hs client h i)
     (\<lambda>e. Host (EvRelease client h i e))"

definition usb_host_client_register :: "env \<Rightarrow> (sys, esp_err_t \<times> ptr) prog" where
  "usb_host_client_register env = ask (r_client_register env) (\<lambda>(e, h). Host (EvClientRegister h e))"

definition usb_host_client_deregister :: "env \<Rightarrow> ptr \<Rightarrow> (sys, esp_err_t) prog" where
  "usb_host_client_deregister env client = ask (\<lambda>hs. r_client_deregister env hs client)
     (\<lambda>e. Host (EvClientDeregister client e))"

definition usb_host_client_unblock :: "env \<Rightarrow> ptr \<Rightarrow> (sys, esp_err_t) prog" where
  "usb_host_client_unblock env client = ask (\<lambda>hs. r_client_unblock env hs client)
     (\<lambda>e. Host (EvClientUnblock client e))"

section \<open>Detaching a device\<close>

definition msc_deinit_device :: "env \<Rightarrow> ptr \<Rightarrow> bool \<Rightarrow> (sys, esp_err_t) prog" where
  "msc_deinit_device env dev install_failed =
     (if dev = NULL then return ESP_ERR_INVALID_STATE else
      then_do (stailq_remove dev) (bind (deref_dev dev) (\<lambda>d.
      then_do (if transfer_done d \<noteq> NULL then emit (Os (EvSemDelete (transfer_done d))) else return ()) (
      bind the_driver (\<lambda>drv.
      if install_failed then
        then_do (usb_host_interface_release env (client_handle drv) (handle d) (iface_num (config d)))
       (then_do (usb_host_device_close env (client_handle drv) (handle d))
       (then_do (usb_host_transfer_free env (xfer d))
       (then_do (free_device dev) (return ESP_OK))))
      else
        on_error (usb_host_interface_release env (client_handle drv) (handle d) (iface_num (config d))) return
       (on_error (usb_host_device_close env (client_handle drv) (handle d)) return
       (on_error (usb_host_transfer_free env (xfer d)) return
       (then_do (free_device dev) (return ESP_OK)))))))))"

definition msc_host_uninstall_device :: "env \<Rightarrow> ptr \<Rightarrow> (sys, esp_err_t) prog" where
  "msc_host_uninstall_device env device =
     (if device = NULL then return ESP_ERR_INVALID_ARG else msc_deinit_device env device False)"

section \<open>Client events\<close>

definition is_mass_storage_device :: "env \<Rightarrow> u8 \<Rightarrow> (sys, bool) prog" where
  "is_mass_storage_device env dev_addr = bind the_driver (\<lambda>drv.
     bind (usb_host_device_open env (client_handle drv) dev_addr) (\<lambda>(e, device).
       if e = ESP_OK then
         bind (bind (usb_host_get_active_config_descriptor env device) (\<lambda>(e, config_desc).
             if e = ESP_OK then bind (find_msc_interface env config_desc 0) (\<lambda>found. return (found \<noteq> None))
             else return False)) (\<lambda>is_msc_device.
         then_do (usb_host_device_close env (client_handle drv) device) (return is_msc_device))
       else return False))"

primrec find_in :: "ptr list \<Rightarrow> ptr \<Rightarrow> (sys, ptr) prog" where
  "find_in [] dev_hdl = return NULL"
| "find_in (p # ps) dev_hdl = bind (deref_dev p) (\<lambda>d.
     if dev_hdl = handle d then return p else find_in ps dev_hdl)"

definition find_msc_device :: "ptr \<Rightarrow> (sys, ptr) prog" where
  "find_msc_device dev_hdl = bind the_driver (\<lambda>drv. find_in (devices_tailq drv) dev_hdl)"

text \<open>
  The call of the user's callback is an event here: the driver goes on the same whatever it does. The
  firmware's own callback is in \<open>Usb_Storage\<close>.
\<close>

definition call_user_cb :: "msc_host_event \<Rightarrow> (sys, unit) prog" where
  "call_user_cb ev = bind the_driver (\<lambda>drv. emit (Os (EvUserCb (user_cb drv) (user_arg drv) ev)))"

definition client_event_cb :: "env \<Rightarrow> usb_host_client_event \<Rightarrow> (sys, unit) prog" where
  "client_event_cb env event = (case event of
       USB_HOST_CLIENT_EVENT_NEW_DEV address \<Rightarrow>
         bind (is_mass_storage_device env address) (\<lambda>is_msc.
           if is_msc then call_user_cb (MSC_DEVICE_CONNECTED address) else return ())
     | USB_HOST_CLIENT_EVENT_DEV_GONE dev_hdl \<Rightarrow>
         bind (find_msc_device dev_hdl) (\<lambda>msc_device.
           if msc_device \<noteq> NULL then call_user_cb (MSC_DEVICE_DISCONNECTED msc_device) else return ())
     | USB_HOST_CLIENT_EVENT_OTHER _ \<Rightarrow> return ())"

text \<open>The host library calls \<open>client_event_cb\<close> for each event it has for the client.\<close>

primrec dispatch :: "env \<Rightarrow> usb_host_client_event list \<Rightarrow> (sys, unit) prog" where
  "dispatch env [] = return ()"
| "dispatch env (e # es) = then_do (client_event_cb env e) (dispatch env es)"

definition usb_host_client_handle_events :: "env \<Rightarrow> ptr \<Rightarrow> u32 \<Rightarrow> (sys, esp_err_t) prog" where
  "usb_host_client_handle_events env client timeout =
     bind (ask (\<lambda>hs. r_handle_events env hs client timeout) (\<lambda>(_, e). Host (EvHandleEvents client timeout e)))
       (\<lambda>(evs, e). then_do (dispatch env evs) (return e))"

definition msc_host_handle_events :: "env \<Rightarrow> u32 \<Rightarrow> (sys, esp_err_t) prog" where
  "msc_host_handle_events env timeout = bind (gets s_msc_driver) (\<lambda>drv. case drv of
       None \<Rightarrow> return ESP_ERR_INVALID_STATE
     | Some drv \<Rightarrow>
         then_do (put_driver (Some (drv\<lparr>event_handling_started := True\<rparr>)))
        (bind (usb_host_client_handle_events env (client_handle drv) timeout) (\<lambda>ret.
         bind the_driver (\<lambda>drv.
         if end_client_event_handling drv
         then then_do (emit (Os (EvSemGive (all_events_handled drv)))) (return ESP_FAIL)
         else return ret))))"

text \<open>
  The background task: \<open>rounds\<close> bounds the iterations looked at. The result is True when the loop
  ended and the task deleted itself, False when it is still running after that many rounds.
\<close>

primrec event_handler_task :: "nat \<Rightarrow> env \<Rightarrow> (sys, bool) prog" where
  "event_handler_task 0 env = return False"
| "event_handler_task (Suc rounds) env = bind (msc_host_handle_events env (- 1)) (\<lambda>e.
     if e = ESP_OK then event_handler_task rounds env
     else then_do (emit (Os EvTaskDelete)) (return True))"

section \<open>Installing the driver\<close>

record msc_host_driver_config =
  create_backround_task :: bool
  task_priority :: nat
  stack_size :: nat
  core_id :: int
  cb_callback :: ptr
  cb_callback_arg :: ptr

definition xTaskCreatePinnedToCore :: "env \<Rightarrow> nat \<Rightarrow> nat \<Rightarrow> int \<Rightarrow> (sys, bool) prog" where
  "xTaskCreatePinnedToCore env stack prio core = ask (\<lambda>hs. r_task_create env hs stack prio core)
     (\<lambda>ok. Os (EvTaskCreate stack prio core ok))"

text \<open>The code after the label \<open>fail\<close> of \<open>msc_host_install\<close>, for the driver object at \<open>p\<close>.\<close>

definition install_fail :: "env \<Rightarrow> ptr \<Rightarrow> ptr \<Rightarrow> ptr \<Rightarrow> esp_err_t \<Rightarrow> (sys, esp_err_t) prog" where
  "install_fail env p client sem ret =
     then_do (put_driver None)
    (then_do (usb_host_client_deregister env client)
    (then_do (if sem \<noteq> NULL then emit (Os (EvSemDelete sem)) else return ())
    (then_do (emit (Os (EvFree p))) (return ret))))"

definition msc_host_install :: "env \<Rightarrow> msc_host_driver_config option \<Rightarrow> (sys, esp_err_t) prog" where
  "msc_host_install env driver_config = (case driver_config of
       None \<Rightarrow> return ESP_ERR_INVALID_ARG
     | Some cfg \<Rightarrow>
         if cb_callback cfg = NULL then return ESP_ERR_INVALID_ARG
         else if create_backround_task cfg \<and> stack_size cfg = 0 then return ESP_ERR_INVALID_ARG
         else if create_backround_task cfg \<and> task_priority cfg = 0 then return ESP_ERR_INVALID_ARG
         else bind (gets s_msc_driver) (\<lambda>installed.
           if installed \<noteq> None then return ESP_ERR_INVALID_STATE else
           bind (calloc_ptr env) (\<lambda>p.
           if p = NULL then return ESP_ERR_NO_MEM else
           bind (xSemaphoreCreateBinary env) (\<lambda>sem.
           if sem = NULL then install_fail env p NULL sem ESP_ERR_NO_MEM else
           bind (usb_host_client_register env) (\<lambda>(e, client).
           if e \<noteq> ESP_OK then install_fail env p NULL sem e else
           bind (gets s_msc_driver) (\<lambda>installed.
           if installed \<noteq> None then install_fail env p client sem ESP_ERR_INVALID_STATE else
           then_do (put_driver (Some \<lparr>client_handle = client, user_cb = cb_callback cfg,
             user_arg = cb_callback_arg cfg, all_events_handled = sem, end_client_event_handling = False,
             event_handling_started = False, devices_tailq = []\<rparr>))
          (then_do (modify (\<lambda>s. s\<lparr>driver_addr := p\<rparr>))
           (if create_backround_task cfg then
              bind (xTaskCreatePinnedToCore env (stack_size cfg) (task_priority cfg) (core_id cfg)) (\<lambda>task_created.
                if \<not> task_created then install_fail env p client sem ESP_ERR_NO_MEM else return ESP_OK)
            else return ESP_OK))))))))"

definition msc_host_uninstall :: "env \<Rightarrow> (sys, esp_err_t) prog" where
  "msc_host_uninstall env = bind (gets s_msc_driver) (\<lambda>drv. case drv of
       None \<Rightarrow> return ESP_ERR_INVALID_STATE
     | Some drv \<Rightarrow>
         if end_client_event_handling drv then return ESP_ERR_INVALID_STATE
         else if devices_tailq drv \<noteq> [] then return ESP_ERR_INVALID_STATE
         else
           then_do (put_driver (Some (drv\<lparr>end_client_event_handling := True\<rparr>)))
          (then_do (if event_handling_started drv
              then then_do (ESP_ERROR_CHECK (usb_host_client_unblock env (client_handle drv)))
                     (take_forever env (all_events_handled drv))
              else return ())
          (then_do (emit (Os (EvSemDelete (all_events_handled drv))))
          (then_do (ESP_ERROR_CHECK (usb_host_client_deregister env (client_handle drv)))
          (then_do (bind (gets driver_addr) (\<lambda>p. emit (Os (EvFree p))))
          (then_do (put_driver None) (return ESP_OK)))))))"

section \<open>Attaching a device\<close>

definition update_dev :: "ptr \<Rightarrow> (msc_device \<Rightarrow> msc_device) \<Rightarrow> (sys, unit) prog" where
  "update_dev p f = bind (deref_dev p) (\<lambda>d. put_dev p (f d))"

text \<open>
  The steps of \<open>msc_host_install_device\<close> after the device is in the list, up to its own commands.
  Each returns an error code, and \<open>fail\<close> of the caller follows any but \<open>ESP_OK\<close>.
\<close>

definition open_device :: "env \<Rightarrow> ptr \<Rightarrow> u8 \<Rightarrow> (sys, esp_err_t) prog" where
  "open_device env p device_address =
     bind (xSemaphoreCreateBinary env) (\<lambda>sem.
     then_do (update_dev p (\<lambda>d. d\<lparr>transfer_done := sem\<rparr>)) (
     if sem = NULL then return ESP_ERR_NO_MEM else
     bind the_driver (\<lambda>drv.
     bind (usb_host_device_open env (client_handle drv) device_address) (\<lambda>(e, h).
     if e \<noteq> ESP_OK then return e else
     then_do (update_dev p (\<lambda>d. d\<lparr>handle := h\<rparr>)) (return ESP_OK)))))"

definition configure_device :: "env \<Rightarrow> ptr \<Rightarrow> (sys, esp_err_t) prog" where
  "configure_device env p = bind (deref_dev p) (\<lambda>d.
     bind (usb_host_get_active_config_descriptor env (handle d)) (\<lambda>(e, config_desc).
     if e \<noteq> ESP_OK then return e else
     bind (extract_config_from_descriptor env config_desc (config d)) (\<lambda>(e, cfg).
     then_do (update_dev p (\<lambda>d. d\<lparr>config := cfg\<rparr>)) (
     if e \<noteq> ESP_OK then return e else
     bind (usb_host_transfer_alloc env DEFAULT_XFER_SIZE) (\<lambda>(e, xp).
     if e \<noteq> ESP_OK then return e else
     then_do (update_dev p (\<lambda>d. d\<lparr>xfer := xp\<rparr>)) (
     bind the_driver (\<lambda>drv. bind (deref_dev p) (\<lambda>d.
     usb_host_interface_claim env (client_handle drv) (handle d) (iface_num (config d))))))))))"

definition start_device :: "nat \<Rightarrow> env \<Rightarrow> ptr \<Rightarrow> (sys, esp_err_t) prog" where
  "start_device depth env p =
     on_error (scsi_cmd_inquiry (msc_host_reset_recovery depth env) env p) return
    (on_error (msc_wait_for_ready_state (msc_host_reset_recovery depth env) env p WAIT_FOR_READY_TIMEOUT_MS) return
    (bind (uninitialised env 8) (\<lambda>m.
     bind (scsi_cmd_read_capacity (msc_host_reset_recovery depth env) env p (of_le32 (take 4 m)) (of_le32 (drop 4 m)))
       (\<lambda>(e, bsize, bcount).
     if e \<noteq> ESP_OK then return e else
     then_do (update_dev p (\<lambda>d. d\<lparr>disk := \<lparr>block_size = bsize, block_count = bcount\<rparr>\<rparr>)) (return ESP_OK)))))"

definition msc_host_install_device :: "nat \<Rightarrow> env \<Rightarrow> u8 \<Rightarrow> (sys, esp_err_t \<times> ptr option) prog" where
  "msc_host_install_device depth env device_address =
     bind (bind (gets (\<lambda>s. r_calloc env (hist s))) (\<lambda>ok. if ok
        then bind (new_ptr (\<lambda>p. Os (EvCalloc p))) (\<lambda>p. then_do (put_dev p zero_device) (return p))
        else then_do (emit (Os (EvCalloc NULL))) (return NULL))) (\<lambda>msc_device.
     let fail = (\<lambda>ret. then_do (msc_deinit_device env msc_device True) (return (ret, None))) in
     if msc_device = NULL then fail ESP_ERR_NO_MEM else
     bind (gets s_msc_driver) (\<lambda>drv.
     if drv = None then fail ESP_ERR_INVALID_STATE
     else if client_handle (the drv) = NULL then fail ESP_ERR_INVALID_STATE else
     then_do (stailq_insert_tail msc_device)
    (on_error (open_device env msc_device device_address) fail
    (on_error (configure_device env msc_device) fail
    (on_error (start_device depth env msc_device) fail
      (return (ESP_OK, Some msc_device)))))))"

section \<open>Sectors and information\<close>

definition msc_host_read_sector ::
    "nat \<Rightarrow> env \<Rightarrow> ptr \<Rightarrow> u32 \<Rightarrow> u8 list \<Rightarrow> nat \<Rightarrow> (sys, esp_err_t \<times> u8 list) prog" where
  "msc_host_read_sector depth env device sector data n =
     (if device = NULL then return (ESP_ERR_INVALID_ARG, data)
      else bind (deref_dev device) (\<lambda>dev.
        scsi_cmd_read10 (msc_host_reset_recovery depth env) env device data sector 1 (block_size (disk dev))))"

definition msc_host_write_sector ::
    "nat \<Rightarrow> env \<Rightarrow> ptr \<Rightarrow> u32 \<Rightarrow> u8 list \<Rightarrow> nat \<Rightarrow> (sys, esp_err_t) prog" where
  "msc_host_write_sector depth env device sector data n =
     (if device = NULL then return ESP_ERR_INVALID_ARG
      else bind (deref_dev device) (\<lambda>dev.
        scsi_cmd_write10 (msc_host_reset_recovery depth env) env device data sector 1 (block_size (disk dev))))"

definition MSC_STR_DESC_SIZE :: nat where [simp]: "MSC_STR_DESC_SIZE = 32"

record msc_host_device_info =
  sector_count :: u32
  sector_size :: u32
  info_idProduct :: u16
  info_idVendor :: u16
  iManufacturer :: "u32 list"
  iProduct :: "u32 list"
  iSerialNumber :: "u32 list"

text \<open>
  The length of \<open>copy_string_desc\<close>: an \<open>int\<close> expression whose quotient truncates towards 0, then
  converted to the 32-bit \<open>size_t\<close>. The loop and the terminator write \<open>len + 1\<close> characters.
\<close>

definition string_len :: "u8 \<Rightarrow> nat" where
  "string_len bLen = (let l = int (unat bLen) - 2;
       q = (if l < 0 then - ((- l) div 2) else l div 2);
       m = min q (int MSC_STR_DESC_SIZE - 1)
     in nat (m mod 2 ^ 32))"

definition copy_string_desc ::
    "env \<Rightarrow> u32 list \<Rightarrow> usb_str_desc option \<Rightarrow> (sys, u32 list) prog" where
  "copy_string_desc env dest src = (case src of
       None \<Rightarrow> then_do (guard BufferOverflow (dest \<noteq> [])) (return (dest[0 := 0]))
     | Some src \<Rightarrow> bind (gets hist) (\<lambda>hs.
         let len = string_len (bLength src) in
         then_do (guard BufferOverflow (len < length dest))
           (return (map (\<lambda>i. if i < length (wData src) then ucast (wData src ! i)
                             else ucast (r_memory env hs i)) [0..<len] @ 0 # drop (Suc len) dest))))"

definition msc_host_get_device_info ::
    "env \<Rightarrow> ptr \<Rightarrow> msc_host_device_info option \<Rightarrow> (sys, esp_err_t \<times> msc_host_device_info option) prog" where
  "msc_host_get_device_info env device info =
     (if device = NULL then return (ESP_ERR_INVALID_ARG, info) else case info of
       None \<Rightarrow> return (ESP_ERR_INVALID_ARG, info)
     | Some i \<Rightarrow> bind (deref_dev device) (\<lambda>dev.
         bind (usb_host_get_device_descriptor env (handle dev)) (\<lambda>(e, desc).
         if e \<noteq> ESP_OK then return (e, info) else
         bind (usb_host_device_info env (handle dev)) (\<lambda>(e, dev_info).
         if e \<noteq> ESP_OK then return (e, info) else
         bind (copy_string_desc env (iManufacturer i) (str_desc_manufacturer dev_info)) (\<lambda>m.
         bind (copy_string_desc env (iProduct i) (str_desc_product dev_info)) (\<lambda>pr.
         bind (copy_string_desc env (iSerialNumber i) (str_desc_serial_num dev_info)) (\<lambda>sn.
           return (ESP_OK, Some \<lparr>sector_count = block_count (disk dev), sector_size = block_size (disk dev),
             info_idProduct = idProduct desc, info_idVendor = idVendor desc, iManufacturer = m,
             iProduct = pr, iSerialNumber = sn\<rparr>))))))))"

definition msc_host_print_descriptors :: "env \<Rightarrow> ptr \<Rightarrow> (sys, esp_err_t) prog" where
  "msc_host_print_descriptors env device = bind (deref_dev device) (\<lambda>dev.
     bind (usb_host_get_device_descriptor env (handle dev)) (\<lambda>(e, _).
     if e \<noteq> ESP_OK then return e else
     bind (usb_host_get_active_config_descriptor env (handle dev)) (\<lambda>(e, _).
     if e \<noteq> ESP_OK then return e else
     then_do (emit (Host EvPrintDescriptors)) (return ESP_OK))))"

section \<open>What attaching a device changes\<close>

text \<open>
  While the device at \<open>p\<close> is set up, nothing changes but this device, transfers and the history:
  the driver with its list and every other device stay.
\<close>

definition dev_step :: "ptr \<Rightarrow> sys \<Rightarrow> sys \<Rightarrow> bool" where
  "dev_step p s t \<longleftrightarrow> s_msc_driver t = s_msc_driver s \<and> s_disks t = s_disks s \<and>
     next_ptr s \<le> next_ptr t \<and> (\<exists>es. hist t = hist s @ es) \<and>
     (\<forall>q. q \<noteq> p \<longrightarrow> same_device (devs s q) (devs t q))"

lemma dev_step_trans: "dev_step p s t \<Longrightarrow> dev_step p t u \<Longrightarrow> dev_step p s u"
  by (auto simp: dev_step_def intro: same_device_trans)

interpretation attach: command_frame "dev_step p" for p
  by unfold_locales (auto simp: same_device_def dev_step_def intro: dev_step_trans)

lemma attach_update_dev: "keeps (dev_step p) (update_dev p f)"
  by (auto simp: keeps_def update_dev_def prog_Ret deref_dev_eq_Ret dev_step_def)

lemma attach_put_dev: "keeps (dev_step p) (put_dev p d)"
  by (auto simp: keeps_def dev_step_def)

lemma attach_new_ptr: "keeps (dev_step p) (new_ptr ev)"
  by (auto simp: keeps_def dev_step_def new_ptr_def)

lemma attach_sem_create: "keeps (dev_step p) (xSemaphoreCreateBinary env)"
  unfolding xSemaphoreCreateBinary_def by (intro frame_intros attach_new_ptr)

lemma attach_finds: "keeps (dev_step p) (find_loop env c n off)"
  by (induction n arbitrary: off)
    (auto simp: keeps_def dev_step_def split: option.splits intro: attach.keeps_return)

lemma attach_extract: "keeps (dev_step p) (extract_config_from_descriptor env c cfg)"
  unfolding extract_config_from_descriptor_def find_msc_interface_def Let_def
  by (intro frame_intros attach_finds)

lemmas attach_rules = attach_update_dev attach_put_dev attach_new_ptr attach_sem_create attach_extract

lemma attach_open: "keeps (dev_step p) (open_device env p a)"
  unfolding open_device_def usb_host_device_open_def
  by (intro frame_intros attach_rules)

lemma attach_configure: "keeps (dev_step p) (configure_device env p)"
  unfolding configure_device_def usb_host_get_active_config_descriptor_def usb_host_interface_claim_def
  by (intro frame_intros attach_rules)

lemma attach_start: "keeps (dev_step p) (start_device depth env p)"
  unfolding start_device_def
  by (intro frame_intros attach_rules attach.keeps_inquiry attach.keeps_wait_for_ready_state
      attach.keeps_read_capacity attach.keeps_reset_recovery attach.keeps_uninitialised)

section \<open>Attaching ends, and a configured device is usable\<close>

definition under_setup :: "ptr \<Rightarrow> sys \<Rightarrow> bool" where
  "under_setup p s \<longleftrightarrow> p \<noteq> NULL \<and> next_ptr s \<noteq> NULL \<and> s_msc_driver s \<noteq> None \<and>
     (\<exists>d. devs s p = Some d \<and> (xfer d = NULL \<or> xfers s (xfer d) \<noteq> None))"

lemma under_setup_hist [simp]: "under_setup p (s\<lparr>hist := h\<rparr>) = under_setup p s"
  by (simp add: under_setup_def)

lemma dev_ok_under_setup: "dev_ok p s \<Longrightarrow> under_setup p s"
  by (auto simp: under_setup_def transfer_at_def elim!: dev_okE)

lemma setup_ask: "maintains F (under_setup p) (ask f ev)"
  by (simp add: runs_def)

lemma setup_update_dev:
  assumes "\<And>d. xfer (f d) = xfer d"
  shows "maintains F (under_setup p) (update_dev p f)"
  using assms by (auto simp: runs_def update_dev_def under_setup_def)

lemma setup_deref:
  assumes "\<And>d. runs F (under_setup p) (k d) Q"
  shows "runs F (under_setup p) (bind (deref_dev p) k) Q"
proof (rule runsI)
  fix s
  assume s: "under_setup p s"
  then obtain d where "p \<noteq> NULL" "devs s p = Some d" by (auto simp: under_setup_def)
  with s assms [of d] show "case bind (deref_dev p) k s of Ret a t \<Rightarrow> Q a t | Fault f \<Rightarrow> f \<in> F"
    by (simp add: runs_def)
qed

lemma setup_driver:
  assumes "\<And>d. runs F (under_setup p) (k d) Q"
  shows "runs F (under_setup p) (bind the_driver k) Q"
proof (rule runsI)
  fix s
  assume s: "under_setup p s"
  then obtain d where "s_msc_driver s = Some d" by (auto simp: under_setup_def)
  with s assms [of d] show "case bind the_driver k s of Ret a t \<Rightarrow> Q a t | Fault f \<Rightarrow> f \<in> F"
    by (simp add: runs_def)
qed

lemma setup_new_ptr: "maintains F (under_setup p) (new_ptr ev)"
  by (auto simp: runs_def new_ptr_def under_setup_def)

lemma setup_sem_create: "maintains F (under_setup p) (xSemaphoreCreateBinary env)"
  unfolding xSemaphoreCreateBinary_def
  by (rule runs_bind [OF maintains_gets], rule runs_if, rule setup_new_ptr)
    (simp add: runs_def)

lemma open_runs: "maintains F (under_setup p) (open_device env p a)"
  unfolding open_device_def usb_host_device_open_def
  apply (rule runs_bind [OF setup_sem_create], rule runs_then_do [OF setup_update_dev], simp)
  apply (rule runs_if, simp, rule setup_driver, rule runs_bind [OF setup_ask], rule runs_prod, rule runs_if, simp)
  apply (rule runs_then_do [OF setup_update_dev]; simp)
  done

lemma setup_alloc:
  assumes m: "runs F (dev_ok p) m (\<lambda>e. dev_ok p)"
  shows "runs F (under_setup p) (bind (usb_host_transfer_alloc env DEFAULT_XFER_SIZE) (\<lambda>(e, xp).
     if e \<noteq> ESP_OK then return e else then_do (update_dev p (\<lambda>d. d\<lparr>xfer := xp\<rparr>)) m))
     (\<lambda>e s. under_setup p s \<and> (e = ESP_OK \<longrightarrow> dev_ok p s))"
proof (rule runsI)
  fix s
  assume s: "under_setup p s"
  then obtain d where d: "p \<noteq> NULL" "next_ptr s \<noteq> NULL" "s_msc_driver s \<noteq> None" "devs s p = Some d"
    "xfer d = NULL \<or> xfers s (xfer d) \<noteq> None"
    by (auto simp: under_setup_def)
  let ?k = "\<lambda>(e, xp). if e \<noteq> ESP_OK then return e else then_do (update_dev p (\<lambda>d. d\<lparr>xfer := xp\<rparr>)) m"
  let ?Q = "\<lambda>e s. under_setup p s \<and> (e = ESP_OK \<longrightarrow> dev_ok p s)"
  show "case bind (usb_host_transfer_alloc env DEFAULT_XFER_SIZE) ?k s of Ret a t \<Rightarrow> ?Q a t | Fault f \<Rightarrow> f \<in> F"
  proof (cases "r_transfer_alloc env (hist s) DEFAULT_XFER_SIZE = ESP_OK")
    case False
    with s show ?thesis by (simp add: usb_host_transfer_alloc_def Let_def bind_def)
  next
    case True
    let ?x = "fresh_xfer env (hist s) DEFAULT_XFER_SIZE"
    let ?t = "s\<lparr>hist := hist s @ [Usb (EvXferAlloc DEFAULT_XFER_SIZE (next_ptr s) ESP_OK)],
      xfers := (xfers s)(next_ptr s \<mapsto> ?x), next_ptr := Suc (next_ptr s),
      devs := (devs s)(p \<mapsto> d\<lparr>xfer := next_ptr s\<rparr>)\<rparr>"
    have run: "bind (usb_host_transfer_alloc env DEFAULT_XFER_SIZE) ?k s = m ?t"
      using True d by (simp add: usb_host_transfer_alloc_def Let_def bind_def update_dev_def then_do_def deref_dev_def)
    have "transfer_at ?t p (d\<lparr>xfer := next_ptr s\<rparr>) ?x" using d by (simp add: transfer_at_def)
    then have "dev_ok p ?t" by (rule dev_okI) (use d in simp_all)
    from runs_at [OF m this] show ?thesis
      unfolding run by (rule outcome_mono) (simp_all add: dev_ok_under_setup)
  qed
qed

lemma configure_runs:
  assumes "parser_advances env"
  shows "runs {AssertFailed} (under_setup p) (configure_device env p)
    (\<lambda>e s. under_setup p s \<and> (e = ESP_OK \<longrightarrow> dev_ok p s))"
proof -
  have fail: "runs {AssertFailed} (under_setup p) (return e) (\<lambda>e s. under_setup p s \<and> (e = ESP_OK \<longrightarrow> dev_ok p s))"
    if "e \<noteq> ESP_OK" for e
    using that by (simp add: runs_return)
  have extr: "maintains {AssertFailed} (under_setup p) (extract_config_from_descriptor env c cfg)" for c cfg
    unfolding runs_def using extract_cases [OF assms] by (metis (no_types, lifting) outcome.simps(5,6) insertI1)
  have claim: "runs {AssertFailed} (dev_ok p) (bind the_driver (\<lambda>drv. bind (deref_dev p) (\<lambda>d.
      usb_host_interface_claim env (client_handle drv) (handle d) (iface_num (config d))))) (\<lambda>e. dev_ok p)"
  proof (rule runs_dev_okI)
    fix s
    assume ok: "dev_ok p s"
    then obtain d x drv where "transfer_at s p d x" "s_msc_driver s = Some drv"
      by (auto elim!: dev_okE)
    with ok show "\<exists>e t. bind the_driver (\<lambda>drv. bind (deref_dev p) (\<lambda>d.
        usb_host_interface_claim env (client_handle drv) (handle d) (iface_num (config d)))) s = Ret e t \<and> dev_ok p t"
      by (simp add: usb_host_interface_claim_def)
  qed
  show ?thesis
    unfolding configure_device_def usb_host_get_active_config_descriptor_def
    apply (rule setup_deref, rule runs_bind [OF setup_ask], rule runs_prod, rule runs_if, erule fail)
    apply (rule runs_bind [OF extr], rule runs_prod, rule runs_then_do [OF setup_update_dev], simp)
    apply (rule runs_if, erule fail, rule setup_alloc [OF claim])
    done
qed

lemma usable_update_dev:
  assumes "\<And>d. xfer (f d) = xfer d"
  shows "maintains F (usable env p) (update_dev p f)"
proof (rule runsI)
  fix s
  assume s: "usable env p s"
  then obtain d x where at: "transfer_at s p d x" "DEFAULT_XFER_SIZE \<le> length (data_buffer x)"
    "next_ptr s \<noteq> NULL" "s_msc_driver s \<noteq> None" by (auto simp: usable_def elim: dev_okE)
  let ?t = "s\<lparr>devs := (devs s)(p \<mapsto> f d)\<rparr>"
  have "transfer_at ?t p (f d) x" using at(1) assms by (simp add: transfer_at_def)
  then have "dev_ok p ?t" by (rule dev_okI) (use at in simp_all)
  with s at show "case update_dev p f s of Ret a t \<Rightarrow> usable env p t | Fault g \<Rightarrow> g \<in> F"
    by (simp add: update_dev_def usable_def)
qed

lemma start_runs:
  "maintains {BufferOverflow, StackExhausted} (usable env p) (start_device depth env p)"
  unfolding start_device_def
  apply (rule runs_on_error [OF safe.I_inquiry], simp)
  apply (rule runs_on_error [OF safe.I_wait_for_ready_state], simp)
  apply (rule safe.I_step [OF safe.I_uninitialised], rule runs_bind [OF safe.I_read_capacity])
  apply (intro runs_prod runs_if, simp, rule runs_then_do [OF usable_update_dev], simp, simp)
  done

text \<open>Detaching a device that is in the list and whose transfer is live, after a failed set-up.\<close>

lemma free_xfer_adds:
  assumes "xfer d = NULL \<or> xfers s (xfer d) \<noteq> None"
  shows "\<exists>e es xs. usb_host_transfer_free env (xfer d) s = Ret e (s\<lparr>hist := hist s @ es, xfers := xs\<rparr>)"
proof (cases "xfer d = NULL")
  case True
  then have "usb_host_transfer_free env (xfer d) s = Ret ESP_OK (s\<lparr>hist := hist s @ [], xfers := xfers s\<rparr>)"
    by (simp add: usb_host_transfer_free_def)
  then show ?thesis by blast
next
  case False
  then obtain x where x: "xfers s (xfer d) = Some x" using assms by auto
  let ?e = "r_transfer_free env (hist s) (xfer d)"
  have "usb_host_transfer_free env (xfer d) s = Ret ?e (s\<lparr>hist := hist s @ [Usb (EvXferFree (xfer d) ?e)],
      xfers := (if ?e = ESP_OK then (xfers s)(xfer d := None) else xfers s)\<rparr>)"
    using False x by (simp add: usb_host_transfer_free_def)
  then show ?thesis by blast
qed

lemma deinit_failed_run:
  assumes "under_setup p s" and "s_msc_driver s = Some drv" and "p \<in> set (devices_tailq drv)"
  shows "\<exists>es xs. msc_deinit_device env p True s = Ret ESP_OK (s\<lparr>hist := hist s @ es, xfers := xs,
    s_msc_driver := Some (drv\<lparr>devices_tailq := remove1 p (devices_tailq drv)\<rparr>), devs := (devs s)(p := None)\<rparr>)"
proof -
  from assms(1) obtain d where d: "p \<noteq> NULL" "devs s p = Some d" "xfer d = NULL \<or> xfers s (xfer d) \<noteq> None"
    by (auto simp: under_setup_def)
  let ?drv = "drv\<lparr>devices_tailq := remove1 p (devices_tailq drv)\<rparr>"
  let ?s1 = "s\<lparr>s_msc_driver := Some ?drv\<rparr>"
  define es1 where "es1 = (if transfer_done d \<noteq> NULL then [Os (EvSemDelete (transfer_done d))] else [])"
  let ?rel = "usb_host_interface_release env (client_handle ?drv) (handle d) (iface_num (config d))"
  let ?cls = "usb_host_device_close env (client_handle ?drv) (handle d)"
  have "only_adds (then_do ?rel ?cls)"
    by (simp add: usb_host_interface_release_def usb_host_device_close_def)
  then obtain e2 es2 where rc: "then_do ?rel ?cls (?s1\<lparr>hist := hist s @ es1\<rparr>) =
      Ret e2 (?s1\<lparr>hist := (hist s @ es1) @ es2\<rparr>)"
    by (rule only_addsE [where s = "?s1\<lparr>hist := hist s @ es1\<rparr>"]) simp
  let ?s2 = "?s1\<lparr>hist := (hist s @ es1) @ es2\<rparr>"
  have "xfer d = NULL \<or> xfers ?s2 (xfer d) \<noteq> None" using d(3) by simp
  then obtain e3 es3 xs where fr: "usb_host_transfer_free env (xfer d) ?s2 =
      Ret e3 (?s2\<lparr>hist := hist ?s2 @ es3, xfers := xs\<rparr>)"
    using free_xfer_adds by blast
  have sem: "(if transfer_done d \<noteq> NULL then emit (Os (EvSemDelete (transfer_done d))) else return ()) ?s1 =
      Ret () (?s1\<lparr>hist := hist s @ es1\<rparr>)"
    by (simp add: es1_def)
  have "msc_deinit_device env p True s =
      then_do ?rel (then_do ?cls (then_do (usb_host_transfer_free env (xfer d))
        (then_do (free_device p) (return ESP_OK)))) (?s1\<lparr>hist := hist s @ es1\<rparr>)"
    using assms d(1,2) sem
    by (simp add: msc_deinit_device_def stailq_remove_def put_driver_def del: if_split)
  also have "\<dots> = then_do (then_do ?rel ?cls) (then_do (usb_host_transfer_free env (xfer d))
        (then_do (free_device p) (return ESP_OK))) (?s1\<lparr>hist := hist s @ es1\<rparr>)"
    by (simp add: then_do_def bind_assoc)
  also have "\<dots> = Ret ESP_OK (s\<lparr>hist := hist s @ (es1 @ es2 @ es3 @ [Os (EvFree p)]), xfers := xs,
    s_msc_driver := Some ?drv, devs := (devs s)(p := None)\<rparr>)"
    using rc fr by (simp add: free_device_def)
  finally show ?thesis by blast
qed

section \<open>Attaching a device, as a whole\<close>

definition setup_device :: "nat \<Rightarrow> env \<Rightarrow> ptr \<Rightarrow> u8 \<Rightarrow> (sys, esp_err_t) prog" where
  "setup_device depth env p a =
     on_error (open_device env p a) return (on_error (configure_device env p) return (start_device depth env p))"

lemma on_error_nested:
  "on_error m f (on_error k f h) = on_error (on_error m return k) f h"
  by (auto simp: on_error_def bind_def fun_eq_iff split: outcome.splits)

lemma install_steps:
  "on_error (open_device env p a) fail (on_error (configure_device env p) fail (on_error (start_device depth env p) fail k))
     = on_error (setup_device depth env p a) fail k"
  unfolding setup_device_def on_error_nested by (simp add: on_error_nested)

lemma setup_frame: "keeps (dev_step p) (setup_device depth env p a)"
  unfolding setup_device_def
  by (intro attach.keeps_on_error attach_open attach_configure attach_start attach.keeps_return)

abbreviation setup_faults :: "fault set" where
  "setup_faults \<equiv> {BufferOverflow, StackExhausted, AssertFailed}"

lemma setup_runs:
  assumes "parser_advances env" and "host_ok env"
  shows "runs setup_faults (under_setup p) (setup_device depth env p a)
    (\<lambda>e s. under_setup p s \<and> (e = ESP_OK \<longrightarrow> dev_ok p s))"
proof -
  let ?Q = "\<lambda>e s. under_setup p s \<and> (e = ESP_OK \<longrightarrow> dev_ok p s)"
  have start: "runs setup_faults (\<lambda>s. under_setup p s \<and> (ESP_OK = ESP_OK \<longrightarrow> dev_ok p s)) (start_device depth env p) ?Q"
    by (rule runs_weaken [OF start_runs]) (use assms(2) in \<open>auto simp: usable_def dev_ok_under_setup\<close>)
  have conf: "runs setup_faults (under_setup p) (configure_device env p) ?Q"
    by (rule runs_weaken [OF configure_runs [OF assms(1)]]) auto
  show ?thesis
    unfolding setup_device_def
    by (rule runs_on_error [OF open_runs], rule runs_return, simp,
        rule runs_on_error [OF conf _ start], rule runs_return, simp)
qed

definition attached_at :: "ptr \<Rightarrow> msc_driver \<Rightarrow> sys \<Rightarrow> bool" where
  "attached_at p drv t \<longleftrightarrow> dev_ok p t \<and> s_msc_driver t = Some (drv\<lparr>devices_tailq := devices_tailq drv @ [p]\<rparr>)"

lemma install_device_cases:
  assumes env: "parser_advances env" "host_ok env"
    and drv: "s_msc_driver s = Some drv" "client_handle drv \<noteq> NULL"
    and fresh: "next_ptr s \<noteq> NULL" "next_ptr s \<notin> set (devices_tailq drv)" "devs s (next_ptr s) = None"
  shows "case msc_host_install_device depth env a s of
      Ret (e, r) t \<Rightarrow> s_disks t = s_disks s \<and> next_ptr s \<le> next_ptr t \<and> (\<forall>q. q \<noteq> next_ptr s \<longrightarrow> same_device (devs s q) (devs t q)) \<and>
        (e = ESP_OK \<and> r = Some (next_ptr s) \<and> attached_at (next_ptr s) drv t \<and> next_ptr s < next_ptr t \<or>
         e \<noteq> ESP_OK \<and> r = None \<and> s_msc_driver t = Some drv \<and> devs t (next_ptr s) = None)
    | Fault f \<Rightarrow> f \<in> setup_faults"
proof (cases "r_calloc env (hist s)")
  case False
  then show ?thesis
    using drv fresh by (simp add: msc_host_install_device_def msc_deinit_device_def bind_def emit_def Let_def)
next
  case True
  let ?p = "next_ptr s"
  let ?drv = "drv\<lparr>devices_tailq := devices_tailq drv @ [?p]\<rparr>"
  let ?fail = "\<lambda>ret. then_do (msc_deinit_device env ?p True) (return (ret, None))"
  obtain s1 where s1: "s1 = s\<lparr>next_ptr := Suc ?p, hist := hist s @ [Os (EvCalloc ?p)],
    devs := (devs s)(?p \<mapsto> zero_device), s_msc_driver := Some ?drv\<rparr>" by blast
  have run: "msc_host_install_device depth env a s =
      on_error (setup_device depth env ?p a) ?fail (return (ESP_OK, Some ?p)) s1"
    unfolding install_steps [symmetric]
    using True drv fresh
    by (simp add: msc_host_install_device_def new_ptr_def bind_run then_do_def Let_def
        stailq_insert_tail_def put_driver_def s1)
  have pre: "under_setup ?p s1" using fresh by (simp add: s1 under_setup_def zero_device_def)
  note at = runs_at [OF setup_runs [OF env, of ?p depth a] pre]
  show ?thesis
  proof (cases "setup_device depth env ?p a s1")
    case (Fault f)
    with at show ?thesis unfolding run by simp
  next
    case (Ret e t)
    have frame: "dev_step ?p s1 t" by (rule keepsD [OF setup_frame Ret])
    then have t: "s_msc_driver t = Some ?drv" "s_disks t = s_disks s" "next_ptr s < next_ptr t"
      "\<And>q. q \<noteq> ?p \<Longrightarrow> same_device (devs s q) (devs t q)"
      by (auto simp: dev_step_def s1 dest: spec)
    show ?thesis
    proof (cases "e = ESP_OK")
      case True
      with Ret at t show ?thesis unfolding run by (simp add: attached_at_def)
    next
      case False
      from Ret at have "under_setup ?p t" by simp
      from deinit_failed_run [where env = env, OF this t(1)] obtain es xs where
        "msc_deinit_device env ?p True t = Ret ESP_OK (t\<lparr>hist := hist t @ es, xfers := xs,
          s_msc_driver := Some (?drv\<lparr>devices_tailq := remove1 ?p (devices_tailq ?drv)\<rparr>), devs := (devs t)(?p := None)\<rparr>)"
        by auto
      with Ret False t fresh show ?thesis unfolding run by (simp add: remove1_append)
    qed
  qed
qed

section \<open>Detaching a device\<close>

lemma uninstall_device_ok:
  assumes "transfer_at s p d x" and "s_msc_driver s = Some drv" and "p \<in> set (devices_tailq drv)"
    and "\<And>h c q i. r_interface_release env h c q i = ESP_OK" and "\<And>h c q. r_device_close env h c q = ESP_OK"
    and "\<And>h q. r_transfer_free env h q = ESP_OK"
  shows "msc_host_uninstall_device env p s = Ret ESP_OK (s\<lparr>
     hist := hist s @ (if transfer_done d \<noteq> NULL then [Os (EvSemDelete (transfer_done d))] else []) @
       [Host (EvRelease (client_handle drv) (handle d) (iface_num (config d)) ESP_OK),
        Host (EvDeviceClose (client_handle drv) (handle d) ESP_OK), Usb (EvXferFree (xfer d) ESP_OK), Os (EvFree p)],
     s_msc_driver := Some (drv\<lparr>devices_tailq := remove1 p (devices_tailq drv)\<rparr>),
     devs := (devs s)(p := None), xfers := (xfers s)(xfer d := None)\<rparr>)"
  using assms transfer_atD [OF assms(1)]
  by (simp add: msc_host_uninstall_device_def msc_deinit_device_def stailq_remove_def put_driver_def
      usb_host_interface_release_def usb_host_device_close_def usb_host_transfer_free_def free_device_def)

lemma uninstall_device_error:
  assumes "transfer_at s p d x" and "s_msc_driver s = Some drv" and "p \<in> set (devices_tailq drv)"
    and "distinct (devices_tailq drv)" and "\<And>h c q i. r_interface_release env h c q i = e" and "e \<noteq> ESP_OK"
  shows "\<exists>t. msc_host_uninstall_device env p s = Ret e t \<and> devs t p = Some d \<and>
    s_msc_driver t = Some (drv\<lparr>devices_tailq := remove1 p (devices_tailq drv)\<rparr>) \<and>
    msc_host_uninstall_device env p t = Fault NullDeref"
proof -
  let ?drv = "drv\<lparr>devices_tailq := remove1 p (devices_tailq drv)\<rparr>"
  obtain t where t: "t = s\<lparr>s_msc_driver := Some ?drv, hist := hist s @
      (if transfer_done d \<noteq> NULL then [Os (EvSemDelete (transfer_done d))] else []) @
      [Host (EvRelease (client_handle drv) (handle d) (iface_num (config d)) e)]\<rparr>" by blast
  have "msc_host_uninstall_device env p s = Ret e t"
    using assms transfer_atD [OF assms(1)]
    by (simp add: msc_host_uninstall_device_def msc_deinit_device_def stailq_remove_def put_driver_def
        usb_host_interface_release_def t)
  moreover have "msc_host_uninstall_device env p t = Fault NullDeref"
    using assms(4) transfer_atD(1) [OF assms(1)]
    by (simp add: msc_host_uninstall_device_def msc_deinit_device_def stailq_remove_def t)
  ultimately show ?thesis using transfer_atD(2) [OF assms(1)] by (simp add: t)
qed

section \<open>Installing and uninstalling the driver\<close>

definition fresh_driver :: "msc_host_driver_config \<Rightarrow> ptr \<Rightarrow> ptr \<Rightarrow> msc_driver" where
  "fresh_driver cfg client sem = \<lparr>client_handle = client, user_cb = cb_callback cfg, user_arg = cb_callback_arg cfg,
     all_events_handled = sem, end_client_event_handling = False, event_handling_started = False, devices_tailq = []\<rparr>"

text \<open>What an installation acquired and did not give back, read off its events.\<close>

definition balanced :: "event list \<Rightarrow> bool" where
  "balanced es \<longleftrightarrow>
     (\<forall>p. p \<noteq> NULL \<and> Os (EvCalloc p) \<in> set es \<longrightarrow> Os (EvFree p) \<in> set es) \<and>
     (\<forall>p. p \<noteq> NULL \<and> Os (EvSemCreate p) \<in> set es \<longrightarrow> Os (EvSemDelete p) \<in> set es) \<and>
     (\<forall>h. Host (EvClientRegister h ESP_OK) \<in> set es \<longrightarrow> (\<exists>e. Host (EvClientDeregister h e) \<in> set es))"

definition config_ok :: "msc_host_driver_config option \<Rightarrow> bool" where
  "config_ok c \<longleftrightarrow> (case c of None \<Rightarrow> False | Some cfg \<Rightarrow> cb_callback cfg \<noteq> NULL \<and>
     (create_backround_task cfg \<longrightarrow> stack_size cfg \<noteq> 0 \<and> task_priority cfg \<noteq> 0))"

lemma install_rejects:
  "\<not> config_ok c \<Longrightarrow> msc_host_install env c s = Ret ESP_ERR_INVALID_ARG s"
  by (auto simp: msc_host_install_def config_ok_def split: option.splits)

lemma install_twice:
  "config_ok c \<Longrightarrow> s_msc_driver s = Some drv \<Longrightarrow> msc_host_install env c s = Ret ESP_ERR_INVALID_STATE s"
  by (auto simp: msc_host_install_def config_ok_def split: option.splits)

lemma install_fail_run:
  "install_fail env p client sem ret s = Ret ret (s\<lparr>s_msc_driver := None, hist := hist s @
     Host (EvClientDeregister client (r_client_deregister env (hist s) client)) #
     (if sem \<noteq> NULL then [Os (EvSemDelete sem)] else []) @ [Os (EvFree p)]\<rparr>)"
  by (simp add: install_fail_def put_driver_def usb_host_client_deregister_def)

lemma install_cases:
  assumes "config_ok (Some cfg)" and "s_msc_driver s = None" and "next_ptr s \<noteq> NULL"
  shows "\<exists>e t es. msc_host_install env (Some cfg) s = Ret e t \<and> hist t = hist s @ es \<and>
    devs t = devs s \<and> xfers t = xfers s \<and> next_ptr s \<le> next_ptr t \<and>
    (e = ESP_OK \<and> (\<exists>client sem h. sem \<noteq> NULL \<and> s_msc_driver t = Some (fresh_driver cfg client sem) \<and>
       r_client_register env h = (ESP_OK, client)) \<or>
     e \<noteq> ESP_OK \<and> s_msc_driver t = None \<and> balanced es)"
proof -
  let ?p = "next_ptr s"
  let ?h1 = "hist s @ [Os (EvCalloc ?p)]"
  let ?h2 = "?h1 @ [Os (EvSemCreate (Suc ?p))]"
  obtain e client where reg: "r_client_register env ?h2 = (e, client)" by fastforce
  let ?h3 = "?h2 @ [Host (EvClientRegister client e)]"
  let ?drv = "fresh_driver cfg client (Suc ?p)"
  let ?task = "r_task_create env ?h3 (stack_size cfg) (task_priority cfg) (core_id cfg)"
  have run: "msc_host_install env (Some cfg) s =
    (if \<not> r_calloc env (hist s) then Ret ESP_ERR_NO_MEM (s\<lparr>hist := hist s @ [Os (EvCalloc NULL)]\<rparr>)
     else if \<not> r_sem_create env ?h1 then install_fail env ?p NULL NULL ESP_ERR_NO_MEM
       (s\<lparr>next_ptr := Suc ?p, hist := ?h1 @ [Os (EvSemCreate NULL)]\<rparr>)
     else if e \<noteq> ESP_OK then install_fail env ?p NULL (Suc ?p) e
       (s\<lparr>next_ptr := Suc (Suc ?p), hist := ?h3\<rparr>)
     else if create_backround_task cfg then
       (if ?task then Ret ESP_OK (s\<lparr>next_ptr := Suc (Suc ?p), s_msc_driver := Some ?drv, driver_addr := ?p,
          hist := ?h3 @ [Os (EvTaskCreate (stack_size cfg) (task_priority cfg) (core_id cfg) True)]\<rparr>)
        else install_fail env ?p client (Suc ?p) ESP_ERR_NO_MEM (s\<lparr>next_ptr := Suc (Suc ?p), s_msc_driver := Some ?drv, driver_addr := ?p,
          hist := ?h3 @ [Os (EvTaskCreate (stack_size cfg) (task_priority cfg) (core_id cfg) False)]\<rparr>))
     else Ret ESP_OK (s\<lparr>next_ptr := Suc (Suc ?p), s_msc_driver := Some ?drv, driver_addr := ?p, hist := ?h3\<rparr>))"
    using assms reg
    by (cases "create_backround_task cfg") (simp_all add: msc_host_install_def calloc_ptr_def xSemaphoreCreateBinary_def new_ptr_def config_ok_def bind_run
        usb_host_client_register_def xTaskCreatePinnedToCore_def put_driver_def fresh_driver_def then_do_def
        ask_def emit_def)
  have "\<exists>h. r_client_register env h = (ESP_OK, client)" if "e = ESP_OK" using reg that by blast
  then show ?thesis
    unfolding run using assms(2,3)
    by (auto simp: install_fail_run balanced_def fresh_driver_def)
qed

text \<open>What the start of a driver needs of its vendor calls.\<close>

definition start_answers :: "env \<Rightarrow> bool" where
  "start_answers env \<longleftrightarrow> (\<forall>h. r_calloc env h \<and> r_sem_create env h \<and> fst (r_client_register env h) = ESP_OK \<and>
     snd (r_client_register env h) \<noteq> NULL \<and> (\<forall>st prio core. r_task_create env h st prio core))"

lemma install_ok:
  assumes "start_answers env" and "config_ok (Some cfg)" and "s_msc_driver s = None" and "next_ptr s = p" and "p \<noteq> NULL"
  shows "\<exists>client. msc_host_install env (Some cfg) s = Ret ESP_OK (s\<lparr>next_ptr := Suc (Suc p),
      s_msc_driver := Some (fresh_driver cfg client (Suc p)), driver_addr := p, hist := hist s @
        [Os (EvCalloc p), Os (EvSemCreate (Suc p)), Host (EvClientRegister client ESP_OK)] @
        (if create_backround_task cfg then [Os (EvTaskCreate (stack_size cfg) (task_priority cfg) (core_id cfg) True)] else [])\<rparr>) \<and>
    client \<noteq> NULL \<and> (\<exists>h. r_client_register env h = (ESP_OK, client))"
proof -
  obtain e client where reg: "r_client_register env (hist s @ [Os (EvCalloc p), Os (EvSemCreate (Suc p))]) = (e, client)" by fastforce
  with assms(1) have "e = ESP_OK" "client \<noteq> NULL" unfolding start_answers_def by (metis fst_conv, metis snd_conv)
  then have "\<exists>h. r_client_register env h = (ESP_OK, client)" using reg by blast
  with \<open>e = ESP_OK\<close> \<open>client \<noteq> NULL\<close> assms reg show ?thesis
    by (cases "create_backround_task cfg"; intro exI [of _ client]) (simp_all add: msc_host_install_def calloc_ptr_def xSemaphoreCreateBinary_def
        new_ptr_def config_ok_def bind_run usb_host_client_register_def xTaskCreatePinnedToCore_def put_driver_def
        fresh_driver_def then_do_def ask_def emit_def start_answers_def)
qed

lemma uninstall_rejects:
  assumes "case s_msc_driver s of None \<Rightarrow> True
    | Some drv \<Rightarrow> end_client_event_handling drv \<or> devices_tailq drv \<noteq> []"
  shows "msc_host_uninstall env s = Ret ESP_ERR_INVALID_STATE s"
  using assms by (auto simp: msc_host_uninstall_def split: option.splits)

lemma uninstall_run:
  assumes "s_msc_driver s = Some drv" "\<not> end_client_event_handling drv" "devices_tailq drv = []"
    and "\<And>h c. r_client_unblock env h c = ESP_OK" "\<And>h c. r_client_deregister env h c = ESP_OK"
    and "flush_completes env"
  shows "msc_host_uninstall env s = Ret ESP_OK (s\<lparr>s_msc_driver := None, hist := hist s @
    (if event_handling_started drv then [Host (EvClientUnblock (client_handle drv) ESP_OK),
       Usb (EvTakeForever (all_events_handled drv))] else []) @
    [Os (EvSemDelete (all_events_handled drv)), Host (EvClientDeregister (client_handle drv) ESP_OK),
       Os (EvFree (driver_addr s))]\<rparr>)"
  using assms
  by (simp add: msc_host_uninstall_def put_driver_def ESP_ERROR_CHECK_def usb_host_client_unblock_def
      usb_host_client_deregister_def flush_completes_def then_do_def bind_run ask_def emit_def)

section \<open>Client events\<close>

lemma find_in_run:
  assumes "\<forall>p\<in>set ps. p \<noteq> NULL \<and> devs s p \<noteq> None"
  shows "find_in ps h s = Ret (case find (\<lambda>p. h = handle (the (devs s p))) ps of None \<Rightarrow> NULL | Some p \<Rightarrow> p) s"
  using assms by (induction ps) auto

definition list_live :: "sys \<Rightarrow> bool" where
  "list_live s \<longleftrightarrow> (case s_msc_driver s of None \<Rightarrow> True
     | Some drv \<Rightarrow> \<forall>p\<in>set (devices_tailq drv). p \<noteq> NULL \<and> devs s p \<noteq> None)"

lemma gone_event_run:
  assumes "s_msc_driver s = Some drv" and "list_live s"
  shows "client_event_cb env (USB_HOST_CLIENT_EVENT_DEV_GONE h) s =
    (case find (\<lambda>p. h = handle (the (devs s p))) (devices_tailq drv) of
       None \<Rightarrow> Ret () s
     | Some p \<Rightarrow> Ret () (s\<lparr>hist := hist s @ [Os (EvUserCb (user_cb drv) (user_arg drv) (MSC_DEVICE_DISCONNECTED p))]\<rparr>))"
proof -
  have live: "\<forall>p\<in>set (devices_tailq drv). p \<noteq> NULL \<and> devs s p \<noteq> None"
    using assms by (simp add: list_live_def)
  show ?thesis
  proof (cases "find (\<lambda>p. h = handle (the (devs s p))) (devices_tailq drv)")
    case None
    with assms(1) find_in_run [OF live, of h] show ?thesis
      by (simp add: client_event_cb_def find_msc_device_def)
  next
    case (Some q)
    then have "q \<noteq> NULL" using live by (auto simp: find_Some_iff)
    with Some assms(1) find_in_run [OF live, of h] show ?thesis
      by (simp add: client_event_cb_def find_msc_device_def call_user_cb_def)
  qed
qed

text \<open>
  A new device is reported exactly when it opens, hands out its configuration and has a
  mass-storage interface, and it is closed again in every case.
\<close>

lemma new_dev_run:
  assumes "parser_advances env" and "s_msc_driver s = Some drv"
    and "r_device_open env (hist s) (client_handle drv) a = (e1, h)"
    and "r_get_config env (hist s @ [Host (EvDeviceOpen (client_handle drv) a h e1)]) h = (e2, c)"
  shows "\<exists>found e. find_msc_interface env c 0 = return found \<and>
    client_event_cb env (USB_HOST_CLIENT_EVENT_NEW_DEV a) s = Ret () (s\<lparr>hist := hist s @
      Host (EvDeviceOpen (client_handle drv) a h e1) #
      (if e1 \<noteq> ESP_OK then []
       else [Host (EvGetConfig h e2), Host (EvDeviceClose (client_handle drv) h e)] @
         (if e2 = ESP_OK \<and> found \<noteq> None
          then [Os (EvUserCb (user_cb drv) (user_arg drv) (MSC_DEVICE_CONNECTED a))] else []))\<rparr>)"
proof -
  obtain found where found: "find_msc_interface env c 0 = return found"
    using find_msc_interface_finds [OF assms(1)] by blast
  let ?h1 = "hist s @ [Host (EvDeviceOpen (client_handle drv) a h e1), Host (EvGetConfig h e2)]"
  have "client_event_cb env (USB_HOST_CLIENT_EVENT_NEW_DEV a) s = Ret () (s\<lparr>hist := hist s @
      Host (EvDeviceOpen (client_handle drv) a h e1) #
      (if e1 \<noteq> ESP_OK then []
       else [Host (EvGetConfig h e2), Host (EvDeviceClose (client_handle drv) h (r_device_close env ?h1 (client_handle drv) h))] @
         (if e2 = ESP_OK \<and> found \<noteq> None
          then [Os (EvUserCb (user_cb drv) (user_arg drv) (MSC_DEVICE_CONNECTED a))] else []))\<rparr>)"
    using assms(2-4) found
    by (cases "e1 = ESP_OK"; cases "e2 = ESP_OK"; cases found)
      (simp_all add: client_event_cb_def is_mass_storage_device_def usb_host_device_open_def usb_host_device_close_def
        usb_host_get_active_config_descriptor_def call_user_cb_def bind_run ask_def emit_def then_do_def)
  with found show ?thesis by blast
qed

section \<open>Strings\<close>

lemma string_len_bound: "b \<noteq> 0 \<Longrightarrow> string_len b \<le> 31"
proof -
  assume "b \<noteq> 0"
  then have "0 < unat b" by (simp add: unat_gt_0)
  then obtain k where k: "unat b = Suc k" using gr0_conv_Suc by blast
  define l where "l = int k - 1"
  have l: "int (unat b) - 2 = l" unfolding k l_def by simp
  define q where "q = (if l < 0 then - ((- l) div 2) else l div 2)"
  have "0 \<le> q" by (cases k) (auto simp: q_def l_def)
  then have "0 \<le> min q 31" "min q 31 \<le> 31" by simp_all
  then have "nat (min q 31 mod 2 ^ 32) \<le> 31" by (simp add: mod_pos_pos_trivial)
  then show ?thesis unfolding string_len_def Let_def l q_def [symmetric] by simp
qed

lemma string_len_zero: "string_len 0 = 2 ^ 32 - 1"
  by (simp add: string_len_def)

section \<open>The event loop\<close>

lemma client_event_adds:
  assumes "parser_advances env" and "s_msc_driver s = Some drv" and "list_live s"
  shows "\<exists>es. client_event_cb env ev s = Ret () (s\<lparr>hist := hist s @ es\<rparr>)"
proof (cases ev)
  case (USB_HOST_CLIENT_EVENT_NEW_DEV a)
  obtain e1 h where opened: "r_device_open env (hist s) (client_handle drv) a = (e1, h)" by fastforce
  obtain e2 c where "r_get_config env (hist s @ [Host (EvDeviceOpen (client_handle drv) a h e1)]) h = (e2, c)" by fastforce
  from new_dev_run [OF assms(1,2) opened this] show ?thesis using USB_HOST_CLIENT_EVENT_NEW_DEV by blast
next
  case (USB_HOST_CLIENT_EVENT_DEV_GONE h)
  have "s = s\<lparr>hist := hist s @ []\<rparr>" by simp
  then show ?thesis unfolding USB_HOST_CLIENT_EVENT_DEV_GONE gone_event_run [OF assms(2,3)]
    by (cases "find (\<lambda>p. h = handle (the (devs s p))) (devices_tailq drv)") (auto intro: exI [of _ "[]"])
next
  case (USB_HOST_CLIENT_EVENT_OTHER n)
  then show ?thesis by (auto simp: client_event_cb_def intro: exI [of _ "[]"])
qed

lemma list_live_hist [simp]: "list_live (s\<lparr>hist := h\<rparr>) = list_live s"
  by (simp add: list_live_def split: option.split)

lemma dispatch_adds:
  assumes "parser_advances env" and "s_msc_driver s = Some drv" and "list_live s"
  shows "\<exists>es. dispatch env evs s = Ret () (s\<lparr>hist := hist s @ es\<rparr>)"
  using assms(2,3)
proof (induction evs arbitrary: s)
  case Nil
  then show ?case by (auto intro: exI [of _ "[]"])
next
  case (Cons ev evs)
  obtain es where es: "client_event_cb env ev s = Ret () (s\<lparr>hist := hist s @ es\<rparr>)"
    using client_event_adds [OF assms(1) Cons.prems] by blast
  obtain fs where "dispatch env evs (s\<lparr>hist := hist s @ es\<rparr>) = Ret () (s\<lparr>hist := (hist s @ es) @ fs\<rparr>)"
    using Cons.IH [of "s\<lparr>hist := hist s @ es\<rparr>"] Cons.prems by auto
  with es show ?case by auto
qed

lemma handle_events_run:
  assumes "parser_advances env" and "s_msc_driver s = Some drv" and "list_live s"
  shows "\<exists>es e. msc_host_handle_events env timeout s =
      Ret (if end_client_event_handling drv then ESP_FAIL else e)
        (s\<lparr>s_msc_driver := Some (drv\<lparr>event_handling_started := True\<rparr>),
           hist := hist s @ Host (EvHandleEvents (client_handle drv) timeout e) # es @
             (if end_client_event_handling drv then [Os (EvSemGive (all_events_handled drv))] else [])\<rparr>)"
proof -
  let ?drv = "drv\<lparr>event_handling_started := True\<rparr>"
  obtain evs e where r: "r_handle_events env (hist s) (client_handle drv) timeout = (evs, e)" by fastforce
  let ?s = "s\<lparr>s_msc_driver := Some ?drv, hist := hist s @ [Host (EvHandleEvents (client_handle drv) timeout e)]\<rparr>"
  have "list_live ?s" using assms(2,3) by (simp add: list_live_def)
  with dispatch_adds [OF assms(1), of ?s ?drv evs] obtain es
    where "dispatch env evs ?s = Ret () (?s\<lparr>hist := hist ?s @ es\<rparr>)" by auto
  with r assms(2) show ?thesis
    by (intro exI [of _ es] exI [of _ e])
      (simp add: msc_host_handle_events_def usb_host_client_handle_events_def put_driver_def bind_run then_do_def)
qed

lemma string_copied:
  assumes "length dest = MSC_STR_DESC_SIZE" and "bLength src \<noteq> 0"
  shows "\<exists>out. copy_string_desc env dest (Some src) s = Ret out s \<and> length out = MSC_STR_DESC_SIZE \<and>
    out ! string_len (bLength src) = 0 \<and>
    (\<forall>i < string_len (bLength src). i < length (wData src) \<longrightarrow> out ! i = ucast (wData src ! i))"
proof -
  have "string_len (bLength src) \<le> 31" by (rule string_len_bound [OF assms(2)])
  then show ?thesis using assms(1)
    by (auto simp: copy_string_desc_def Let_def bind_run then_do_def nth_append)
qed

end
