(* ===== verification/Diskio.thy ===== *)
theory Diskio imports Msc_Host begin

text \<open>
  The FatFs disk layer of \<open>src/diskio_usb.c\<close>. \<open>s_disks\<close> is the array of the registered disks,
  indexed by drive number; its length is \<open>FF_VOLUMES\<close>. The array holds \<open>&dev->disk\<close>, and the code
  gets from it to the device with \<open>__containerof\<close>: here an entry is the device's pointer.
\<close>

datatype dresult = RES_OK | RES_ERROR

definition usb_disk_initialize :: "u8 \<Rightarrow> (sys, dresult) prog" where
  "usb_disk_initialize pdrv = return RES_OK"

definition usb_disk_status :: "u8 \<Rightarrow> (sys, dresult) prog" where
  "usb_disk_status pdrv = return RES_OK"

text \<open>The two assertions at the head of the functions below, and the disk they leave.\<close>

definition checked_disk :: "u8 \<Rightarrow> (sys, ptr) prog" where
  "checked_disk pdrv = bind (gets s_disks) (\<lambda>disks.
     then_do (guard AssertFailed (unat pdrv < length disks))
    (then_do (guard AssertFailed (disks ! unat pdrv \<noteq> NULL)) (return (disks ! unat pdrv))))"

definition usb_disk_read ::
    "nat \<Rightarrow> env \<Rightarrow> u8 \<Rightarrow> u8 list \<Rightarrow> u32 \<Rightarrow> u32 \<Rightarrow> (sys, dresult \<times> u8 list) prog" where
  "usb_disk_read depth env pdrv buff sector count = bind (checked_disk pdrv) (\<lambda>dev. bind (deref_dev dev) (\<lambda>d.
     bind (scsi_cmd_read10 (msc_host_reset_recovery depth env) env dev buff sector count (block_size (disk d)))
       (\<lambda>(err, buff). if err \<noteq> ESP_OK then return (RES_ERROR, buff) else return (RES_OK, buff))))"

definition usb_disk_write ::
    "nat \<Rightarrow> env \<Rightarrow> u8 \<Rightarrow> u8 list \<Rightarrow> u32 \<Rightarrow> u32 \<Rightarrow> (sys, dresult) prog" where
  "usb_disk_write depth env pdrv buff sector count = bind (checked_disk pdrv) (\<lambda>dev. bind (deref_dev dev) (\<lambda>d.
     bind (scsi_cmd_write10 (msc_host_reset_recovery depth env) env dev buff sector count (block_size (disk d)))
       (\<lambda>err. if err \<noteq> ESP_OK then return RES_ERROR else return RES_OK)))"

text \<open>The commands of \<open>disk_ioctl\<close> by their FatFs numbers, and what they store in the caller's buffer.\<close>

abbreviation (input) CTRL_SYNC :: u8 where "CTRL_SYNC \<equiv> 0"
abbreviation (input) GET_SECTOR_COUNT :: u8 where "GET_SECTOR_COUNT \<equiv> 1"
abbreviation (input) GET_SECTOR_SIZE :: u8 where "GET_SECTOR_SIZE \<equiv> 2"
abbreviation (input) GET_BLOCK_SIZE :: u8 where "GET_BLOCK_SIZE \<equiv> 3"

datatype ioctl_value = Nothing_Stored | DWord u32 | Word16 u16

definition usb_disk_ioctl :: "u8 \<Rightarrow> u8 \<Rightarrow> (sys, dresult \<times> ioctl_value) prog" where
  "usb_disk_ioctl pdrv cmd = bind (checked_disk pdrv) (\<lambda>dev.
     if cmd = CTRL_SYNC then return (RES_OK, Nothing_Stored)
     else if cmd = GET_SECTOR_COUNT then
       bind (deref_dev dev) (\<lambda>d. return (RES_OK, DWord (block_count (disk d))))
     else if cmd = GET_SECTOR_SIZE then
       bind (deref_dev dev) (\<lambda>d. return (RES_OK, Word16 (ucast (block_size (disk d)))))
     else if cmd = GET_BLOCK_SIZE then return (RES_ERROR, Nothing_Stored)
     else return (RES_ERROR, Nothing_Stored))"

definition ff_diskio_register_msc :: "u8 \<Rightarrow> ptr \<Rightarrow> (sys, unit) prog" where
  "ff_diskio_register_msc pdrv dev = bind (gets s_disks) (\<lambda>disks.
     then_do (guard AssertFailed (unat pdrv < length disks))
    (then_do (modify (\<lambda>s. s\<lparr>s_disks := disks[unat pdrv := dev]\<rparr>)) (emit (Fs (EvDiskRegister pdrv)))))"

primrec find_pdrv :: "ptr \<Rightarrow> nat \<Rightarrow> ptr list \<Rightarrow> u8" where
  "find_pdrv dev i [] = 0xFF"
| "find_pdrv dev i (p # ps) = (if dev = p then of_nat i else find_pdrv dev (Suc i) ps)"

definition ff_diskio_get_pdrv_disk :: "ptr \<Rightarrow> (sys, u8) prog" where
  "ff_diskio_get_pdrv_disk dev = gets (\<lambda>s. find_pdrv dev 0 (s_disks s))"

section \<open>Registration and lookup\<close>

lemma find_pdrv_first:
  assumes "k < length ps" and "ps ! k = dev" and "\<And>j. j < k \<Longrightarrow> ps ! j \<noteq> dev"
  shows "find_pdrv dev i ps = of_nat (i + k)"
  using assms
proof (induction ps arbitrary: i k)
  case (Cons p ps)
  show ?case
  proof (cases k)
    case 0
    with Cons.prems show ?thesis by simp
  next
    case (Suc k')
    with Cons.prems(3) [of 0] have "p \<noteq> dev" by simp
    moreover have "find_pdrv dev (Suc i) ps = of_nat (Suc i + k')"
    proof (rule Cons.IH)
      show "k' < length ps" "ps ! k' = dev" using Cons.prems Suc by simp_all
      show "ps ! j \<noteq> dev" if "j < k'" for j using Cons.prems(3) [of "Suc j"] that Suc by simp
    qed
    ultimately show ?thesis by (simp add: Suc)
  qed
qed simp

lemma find_pdrv_none: "dev \<notin> set ps \<Longrightarrow> find_pdrv dev i ps = 0xFF"
  by (induction ps arbitrary: i) auto

lemma register_run:
  "unat pdrv < length (s_disks s) \<Longrightarrow> ff_diskio_register_msc pdrv dev s =
     Ret () (s\<lparr>s_disks := (s_disks s)[unat pdrv := dev], hist := hist s @ [Fs (EvDiskRegister pdrv)]\<rparr>)"
  by (simp add: ff_diskio_register_msc_def)

lemma find_pdrv_update:
  assumes "unat pdrv < length ps" and "dev \<notin> set ps"
  shows "find_pdrv dev 0 (ps[unat pdrv := dev]) = pdrv"
proof -
  have "find_pdrv dev 0 (ps[unat pdrv := dev]) = of_nat (0 + unat pdrv)"
  proof (rule find_pdrv_first)
    show "ps[unat pdrv := dev] ! j \<noteq> dev" if "j < unat pdrv" for j
      using that assms by (metis in_set_conv_nth less_trans nat_neq_iff nth_list_update_neq)
  qed (use assms in simp_all)
  then show ?thesis by simp
qed

lemma lookup_after_register:
  assumes "unat pdrv < length (s_disks s)" and "dev \<notin> set (s_disks s)"
    and "ff_diskio_register_msc pdrv dev s = Ret () t"
  shows "ff_diskio_get_pdrv_disk dev t = Ret pdrv t \<and> (dev \<noteq> NULL \<longrightarrow> checked_disk pdrv t = Ret dev t)"
proof -
  have "s_disks t = (s_disks s)[unat pdrv := dev]" using assms(3) register_run [OF assms(1)] by auto
  then show ?thesis using assms(1) find_pdrv_update [OF assms(1,2)]
    by (simp add: ff_diskio_get_pdrv_disk_def checked_disk_def)
qed

lemma checked_disk_faults:
  "length (s_disks s) \<le> unat pdrv \<or> s_disks s ! unat pdrv = NULL \<Longrightarrow> checked_disk pdrv s = Fault AssertFailed"
  by (cases "unat pdrv < length (s_disks s)") (auto simp: checked_disk_def then_do_def bind_run)

lemma disk_read_run:
  assumes "checked_disk pdrv s = Ret p s" and "p \<noteq> NULL" and "devs s p = Some d"
  shows "usb_disk_read depth env pdrv buff sector count s =
    bind (scsi_cmd_read10 (msc_host_reset_recovery depth env) env p buff sector count (block_size (disk d)))
      (\<lambda>r. return (if fst r = ESP_OK then RES_OK else RES_ERROR, snd r)) s"
  using assms by (simp add: usb_disk_read_def bind_run split: outcome.split)

end
