(* ===== verification/Ram_Disk.thy ===== *)
theory Ram_Disk imports Sample_Device Diskio begin

text \<open>
  An abstract block store and a device that implements it over the Bulk-Only Transport, and the
  refinement: on a host stack that carries the transfers to such a device, the disk layer's read
  and write are the store's. The device is a specification, not code of the repository: it decodes
  the 31 bytes of each command with \<open>device_reads\<close>, independently of how the driver encodes them.
\<close>

section \<open>The block store\<close>

type_synonym blocks = "u32 \<Rightarrow> u8 list"

primrec read_blocks :: "nat \<Rightarrow> u32 \<Rightarrow> blocks \<Rightarrow> u8 list" where
  "read_blocks 0 a bl = []"
| "read_blocks (Suc k) a bl = bl a @ read_blocks k (a + 1) bl"

primrec write_blocks :: "nat \<Rightarrow> nat \<Rightarrow> u32 \<Rightarrow> u8 list \<Rightarrow> blocks \<Rightarrow> blocks" where
  "write_blocks z 0 a data bl = bl"
| "write_blocks z (Suc k) a data bl = (write_blocks z k (a + 1) (drop z data) bl)(a := take z data)"

definition blocks_of :: "nat \<Rightarrow> blocks \<Rightarrow> bool" where
  "blocks_of z bl \<longleftrightarrow> (\<forall>b. length (bl b) = z)"

lemma length_read_blocks [simp]: "blocks_of z bl \<Longrightarrow> length (read_blocks k a bl) = k * z"
  by (induction k arbitrary: a) (simp_all add: blocks_of_def)

lemma write_keeps_size: "blocks_of z bl \<Longrightarrow> length data = k * z \<Longrightarrow> blocks_of z (write_blocks z k a data bl)"
  by (induction k arbitrary: a data) (simp_all add: blocks_of_def)

lemma write_before:
  "(\<And>i. i < k \<Longrightarrow> b \<noteq> a + of_nat i) \<Longrightarrow> write_blocks z k a data bl b = bl b"
proof (induction k arbitrary: a data)
  case (Suc k)
  have "b \<noteq> a" using Suc.prems [of 0] by simp
  moreover have "write_blocks z k (a + 1) (drop z data) bl b = bl b"
    by (rule Suc.IH) (use Suc.prems [of "Suc _"] in \<open>simp add: add.assoc\<close>)
  ultimately show ?case by simp
qed simp

lemma read_upd: "(\<And>i. i < k \<Longrightarrow> b \<noteq> a + of_nat i) \<Longrightarrow> read_blocks k a (bl(b := v)) = read_blocks k a bl"
proof (induction k arbitrary: a)
  case (Suc k)
  have "b \<noteq> a" using Suc.prems [of 0] by simp
  moreover have "read_blocks k (a + 1) (bl(b := v)) = read_blocks k (a + 1) bl"
    by (rule Suc.IH) (use Suc.prems [of "Suc _"] in \<open>simp add: add.assoc\<close>)
  ultimately show ?case by (simp del: fun_upd_apply add: fun_upd_other)
qed simp

lemma later_differs:
  assumes "i < k" and "Suc k \<le> 2 ^ 32"
  shows "(a :: u32) \<noteq> a + 1 + of_nat i"
proof
  assume "a = a + 1 + of_nat i"
  then have "(of_nat (Suc i) :: u32) = 0" by (simp add: add.assoc)
  then have "2 ^ 32 dvd Suc i" by (simp add: word_of_nat_eq_0_iff del: of_nat_Suc)
  moreover have "Suc i < 2 ^ 32" using assms by simp
  ultimately show False using nat_dvd_not_less by blast
qed

lemma read_after_write:
  "length data = k * z \<Longrightarrow> k \<le> 2 ^ 32 \<Longrightarrow> read_blocks k a (write_blocks z k a data bl) = data"
proof (induction k arbitrary: a data)
  case (Suc k)
  have "read_blocks k (a + 1) ((write_blocks z k (a + 1) (drop z data) bl)(a := take z data)) =
      read_blocks k (a + 1) (write_blocks z k (a + 1) (drop z data) bl)"
    by (rule read_upd) (use later_differs Suc.prems(2) in simp)
  with Suc.IH [of "drop z data" "a + 1"] Suc.prems show ?case by (simp del: fun_upd_apply add: fun_upd_same)
qed simp

section \<open>The device\<close>

text \<open>
  Its blocks, its last block address, the command it is serving and whether that command's data was
  moved. A transfer to the OUT endpoint is a command when it serves none and data otherwise; one
  from the IN endpoint takes the data of a command that has data for the host, then the status.
\<close>

record ram =
  ram_blocks :: blocks
  ram_last :: u32
  ram_command :: "wire_command option"
  ram_moved :: bool

definition ram_data :: "nat \<Rightarrow> ram \<Rightarrow> wire_command \<Rightarrow> u8 list" where
  "ram_data z r w = (case wc_command w of
       Read_10 a k \<Rightarrow> read_blocks (unat k) a (ram_blocks r)
     | Read_Capacity_10 \<Rightarrow> rev (le32 (ram_last r)) @ rev (le32 (of_nat z))
     | _ \<Rightarrow> replicate (unat (wc_transfer_length w)) 0)"

definition ram_stores :: "nat \<Rightarrow> ram \<Rightarrow> wire_command \<Rightarrow> u8 list \<Rightarrow> ram" where
  "ram_stores z r w data = (case wc_command w of
       Write_10 a k \<Rightarrow> r\<lparr>ram_blocks := write_blocks z (unat k) a data (ram_blocks r), ram_moved := True\<rparr>
     | _ \<Rightarrow> r)"

definition ram_step :: "msc_config \<Rightarrow> nat \<Rightarrow> ram \<Rightarrow> usb_transfer \<Rightarrow> ram \<times> u8 list" where
  "ram_step cfg z r x =
     (if bEndpointAddress x = bulk_out_ep cfg then
        let bytes = take (num_bytes x) (data_buffer x) in
        (case ram_command r of
           None \<Rightarrow> (r\<lparr>ram_command := device_reads bytes, ram_moved := False\<rparr>, [])
         | Some w \<Rightarrow> (ram_stores z r w bytes, []))
      else
        (case ram_command r of
           None \<Rightarrow> (r, [])
         | Some w \<Rightarrow>
             if wc_device_to_host w \<and> wc_transfer_length w \<noteq> 0 \<and> \<not> ram_moved r
             then (r\<lparr>ram_moved := True\<rparr>, ram_data z r w)
             else (r\<lparr>ram_command := None\<rparr>, bytes_csw (passing_csw (wc_tag w)))))"

text \<open>The transfers of one device that a history submits, and the device's state after them.\<close>

definition submits :: "ptr \<Rightarrow> event list \<Rightarrow> usb_transfer list" where
  "submits h es = concat (map (\<lambda>e. case e of
       Usb (EvSubmit x r) \<Rightarrow> if r = ESP_OK \<and> device_handle x = h then [x] else [] | _ \<Rightarrow> []) es)"

definition ram_after :: "msc_config \<Rightarrow> nat \<Rightarrow> ram \<Rightarrow> usb_transfer list \<Rightarrow> ram" where
  "ram_after cfg z r0 xs = foldl (\<lambda>r x. fst (ram_step cfg z r x)) r0 xs"

text \<open>The host stack completes every transfer of the device the way the device answers it.\<close>

definition carries :: "env \<Rightarrow> msc_config \<Rightarrow> nat \<Rightarrow> ptr \<Rightarrow> ram \<Rightarrow> bool" where
  "carries env cfg z h r0 \<longleftrightarrow> answers env \<and> rounds_up env \<and> (\<forall>es x. device_handle x = h \<longrightarrow>
     r_completion env (es @ [Usb (EvSubmit x ESP_OK)]) x =
       completed (snd (ram_step cfg z (ram_after cfg z r0 (submits h es)) x)))"

lemma submits_append [simp]: "submits h (xs @ ys) = submits h xs @ submits h ys"
  by (simp add: submits_def)

lemma submits_simps [simp]:
  "submits h [] = []"
  "submits h (Usb (EvSubmit x e) # es) = (if e = ESP_OK \<and> device_handle x = h then [x] else []) @ submits h es"
  "submits h (Usb (EvTransferWait q ms b) # es) = submits h es"
  "submits h (Usb (EvXferFree p e) # es) = submits h es"
  "submits h (Usb (EvXferAlloc n p e) # es) = submits h es"
  by (simp_all add: submits_def)

lemma ram_after_snoc [simp]: "ram_after cfg z r (xs @ [x]) = fst (ram_step cfg z (ram_after cfg z r xs) x)"
  by (simp add: ram_after_def)

text \<open>The abstraction: the driver's device \<open>p\<close> is usable and what it is connected to has state \<open>r\<close>.\<close>

definition on_ram :: "env \<Rightarrow> nat \<Rightarrow> ptr \<Rightarrow> msc_device \<Rightarrow> ram \<Rightarrow> sys \<Rightarrow> ram \<Rightarrow> bool" where
  "on_ram env z p d r0 s r \<longleftrightarrow> dev_ok p s \<and> same_device (Some d) (devs s p) \<and>
     r = ram_after (config d) z r0 (submits (handle d) (hist s))"

definition two_endpoints :: "msc_config \<Rightarrow> bool" where
  "two_endpoints cfg \<longleftrightarrow> bulk_in_ep cfg \<noteq> 0 \<and> bulk_in_ep cfg \<noteq> bulk_out_ep cfg \<and> 0 < bulk_in_mps cfg"

lemma on_ram_tag [simp]: "on_ram env z p d r0 (s\<lparr>cbw_tag := t\<rparr>) r = on_ram env z p d r0 s r"
  by (simp add: on_ram_def)

section \<open>Transfers reach the device\<close>

lemma grow_hist:
  "grow_transfer env p n s = Ret e t \<Longrightarrow> \<exists>es. hist t = hist s @ es \<and> (\<forall>h. submits h es = [])"
  by (auto simp: grow_transfer_def usb_host_transfer_free_def usb_host_transfer_alloc_def prog_Ret
      deref_dev_eq_Ret deref_xfer_eq_Ret Let_def split: if_splits)

lemma same_device_fields:
  "same_device (Some d) (Some d') \<Longrightarrow> config d' = config d \<and> handle d' = handle d \<and> disk d' = disk d"
  by (simp add: same_device_def) (metis msc_device.select_convs(2,4,5) msc_device.surjective msc_device.update_convs(3))

lemma bulk_after_grow:
  assumes "grow_transfer env p (bulk_transfer_size env d n ep) s = Ret ESP_OK t" and "deref_dev p s = Ret d s"
    and "transfer_at t p d' x" and "bulk_transfer_size env d n ep \<le> length (data_buffer x)" and "config d' = config d"
  shows "msc_bulk_transfer env p data n ep s = msc_bulk_transfer env p data n ep t"
proof -
  have "bulk_transfer_size env d' n ep = bulk_transfer_size env d n ep" by (rule bulk_ts_config [OF assms(5)])
  with assms show ?thesis by (simp add: msc_bulk_transfer_def Let_def)
qed

lemma carried:
  assumes "carries env cfg z h r0" and "device_handle x = h"
  shows "r_completion env (es @ [Usb (EvSubmit x ESP_OK)]) x = completed (snd (ram_step cfg z (ram_after cfg z r0 (submits h es)) x))"
  using assms by (simp add: carries_def)

definition moved :: "env \<Rightarrow> nat \<Rightarrow> ptr \<Rightarrow> msc_device \<Rightarrow> ram \<Rightarrow> sys \<Rightarrow> ram \<Rightarrow> usb_transfer \<Rightarrow> ptr \<Rightarrow> sys \<Rightarrow> bool" where
  "moved env z p d r0 s r y q t \<longleftrightarrow> on_ram env z p d r0 t (fst (ram_step (config d) z r y)) \<and> bus_frame s t \<and> q \<noteq> NULL \<and>
     xfers t q = Some (complete_transfer (completed (snd (ram_step (config d) z r y))) y)"

lemma ram_bulk:
  assumes env: "carries env (config d) z (handle d) r0" and on: "on_ram env z p d r0 s r"
  shows "\<exists>y q t. msc_bulk_transfer env p data n ep s = finish_transfer q data ep USB_TRANSFER_STATUS_COMPLETED t \<and>
    moved env z p d r0 s r y q t \<and> bulk_transfer_size env d n ep \<le> length (data_buffer y) \<and>
    num_bytes y = bulk_transfer_size env d n ep \<and>
    bEndpointAddress y = (if ep = MSC_EP_IN then bulk_in_ep (config d) else bulk_out_ep (config d)) \<and>
    (ep = MSC_EP_OUT \<longrightarrow> (\<exists>g. take n (data_buffer y) = mem_read g n data))"
proof -
  let ?n = "bulk_transfer_size env d n ep"
  have ans: "answers env" using env by (simp add: carries_def)
  from on have ok: "dev_ok p s" and same: "same_device (Some d) (devs s p)"
    and r: "r = ram_after (config d) z r0 (submits (handle d) (hist s))" by (simp_all add: on_ram_def)
  from ok obtain d0 x0 where at0: "transfer_at s p d0 x0" by (auto elim: dev_okE)
  then have d0: "devs s p = Some d0" by auto
  with same have same0: "same_device (Some d) (Some d0)" by simp
  note f0 = same_device_fields [OF same0]
  have n0: "bulk_transfer_size env d0 n ep = ?n" using f0 by (intro bulk_ts_config) simp
  obtain t1 d1 x1 where grow: "grow_transfer env p ?n s = Ret ESP_OK t1" "dev_ok p t1" "transfer_at t1 p d1 x1"
    "?n \<le> length (data_buffer x1)" using grow_answered [OF ans ok] by metis
  obtain es where es: "hist t1 = hist s @ es" "\<forall>h. submits h es = []" using grow_hist [OF grow(1)] by blast
  have fr1: "bus_frame s t1" by (rule keepsD [OF bus.keeps_grow_transfer grow(1)])
  have d1: "devs t1 p = Some d1" using grow(3) by auto
  have same1: "same_device (Some d) (Some d1)"
    using frame_device [OF fr1, of p] same0 d0 d1 same_device_trans by metis
  note f1 = same_device_fields [OF same1]
  have n1: "bulk_transfer_size env d1 n ep = ?n" using f1 by (intro bulk_ts_config) simp
  obtain y where y: "y = loaded_transfer env (hist t1) p d1 x1 data n ?n ep" by blast
  obtain u where u: "u = after_submit env p d1 x1 data n ep t1" by blast
  have hu: "hist u = hist t1 @ [Usb (EvSubmit y ESP_OK)]" and xu: "xfers u (xfer d1) = Some y" and du: "devs u = devs t1"
    by (simp_all add: u after_submit_def Let_def y n1)
  have yf: "device_handle y = handle d" "length (data_buffer y) = length (data_buffer x1)" "num_bytes y = ?n"
    "bEndpointAddress y = (if ep = MSC_EP_IN then bulk_in_ep (config d) else bulk_out_ep (config d))"
    using f1 by (simp_all add: y loaded_transfer_def)
  let ?c = "completed (snd (ram_step (config d) z r y))"
  have c: "r_completion env (hist u) y = ?c"
    using carried [OF env yf(1), of "hist s @ es"] es by (simp add: hu r)
  have y1: "y = loaded_transfer env (hist t1) p d1 x1 data n (bulk_transfer_size env d1 n ep) ep"
    and fits1: "bulk_transfer_size env d1 n ep \<le> length (data_buffer x1)"
    using grow(4) by (simp_all add: y n1)
  define t where "t = awaited env (transfer_done d1) (xfer d1) y u"
  have run: "msc_bulk_transfer env p data n ep s = finish_transfer (xfer d1) data ep USB_TRANSFER_STATUS_COMPLETED t"
    using bulk_after_grow [OF grow(1) [folded n0] _ grow(3), of data] grow(4) at0 f0 f1 n0
      bulk_exact [OF ans grow(3) fits1 y1 u] c
    by (simp add: t_def completed_def)
  have "dev_ok p (t1\<lparr>xfers := (xfers t1)(xfer d1 \<mapsto> y)\<rparr>)"
    using grow(2,3) yf(2) by (intro dev_ok_put_xfer) (auto elim!: dev_okE simp: transfer_at_def)
  then have "dev_ok p u" by (simp add: u after_submit_def Let_def y n1)
  then have okt: "dev_ok p t" unfolding t_def by (rule dev_ok_awaited) (rule xu)
  have ht: "hist t = hist u @ [Usb (EvTransferWait (transfer_done d1) (timeout_ms y) True)]" by (simp add: t_def awaited_def)
  have "on_ram env z p d r0 t (fst (ram_step (config d) z r y))"
    using okt same1 d1 es yf(1) by (simp add: on_ram_def ht hu r t_def awaited_def du)
  moreover have "bus_frame s t"
    using fr1 by (auto simp: bus_frame_def t_def awaited_def u after_submit_def Let_def)
  moreover have "xfers t (xfer d1) = Some (complete_transfer ?c y)" by (simp add: t_def awaited_def c)
  moreover have "ep = MSC_EP_OUT \<longrightarrow> (\<exists>g. take n (data_buffer y) = mem_read g n data)"
    using grow(4) by (auto simp: y loaded_transfer_def bulk_transfer_size_def take_overwrite)
  moreover have "xfer d1 \<noteq> NULL" using grow(3) by auto
  ultimately have "moved env z p d r0 s r y (xfer d1) t"
    and "ep = MSC_EP_OUT \<longrightarrow> (\<exists>g. take n (data_buffer y) = mem_read g n data)" by (simp_all add: moved_def)
  with run yf grow(4) show ?thesis by (intro exI [of _ y] exI [of _ "xfer d1"] exI [of _ t]) simp
qed


lemma ram_out:
  assumes "carries env (config d) z (handle d) r0" and "on_ram env z p d r0 s r"
  shows "\<exists>y t g. msc_bulk_transfer env p data n MSC_EP_OUT s = Ret (ESP_OK, data) t \<and>
    on_ram env z p d r0 t (fst (ram_step (config d) z r y)) \<and> bus_frame s t \<and>
    bEndpointAddress y = bulk_out_ep (config d) \<and> take (num_bytes y) (data_buffer y) = mem_read g n data"
proof -
  obtain y q t where run: "msc_bulk_transfer env p data n MSC_EP_OUT s =
      finish_transfer q data MSC_EP_OUT USB_TRANSFER_STATUS_COMPLETED t"
    and m: "moved env z p d r0 s r y q t" and y: "num_bytes y = bulk_transfer_size env d n MSC_EP_OUT"
    "bEndpointAddress y = bulk_out_ep (config d)" "\<exists>g. take n (data_buffer y) = mem_read g n data"
    using ram_bulk [OF assms, where n = n and data = data and ep = MSC_EP_OUT] by auto
  then show ?thesis by (auto simp: finish_transfer_def moved_def bulk_transfer_size_def)
qed

lemma ram_in:
  assumes env: "carries env (config d) z (handle d) r0" and on: "on_ram env z p d r0 s r"
    and ep: "two_endpoints (config d)" and n: "0 < n"
    and step: "\<And>y. bEndpointAddress y = bulk_in_ep (config d) \<Longrightarrow> ram_step (config d) z r y = (r', bs)"
    and bs: "length bs \<le> n" "length bs \<le> length data"
  shows "\<exists>t. msc_bulk_transfer env p data n MSC_EP_IN s = Ret (ESP_OK, overwrite bs data) t \<and>
    on_ram env z p d r0 t r' \<and> bus_frame s t"
proof -
  let ?n = "bulk_transfer_size env d n MSC_EP_IN"
  have "0 < unat (bulk_in_mps (config d))" using ep by (auto simp: two_endpoints_def word_less_nat_alt)
  then have "n \<le> ?n" using env n by (simp add: bulk_transfer_size_def carries_def rounds_up_def)
  obtain y q t where run: "msc_bulk_transfer env p data n MSC_EP_IN s =
      finish_transfer q data MSC_EP_IN USB_TRANSFER_STATUS_COMPLETED t"
    and m: "moved env z p d r0 s r y q t" and y: "?n \<le> length (data_buffer y)" "bEndpointAddress y = bulk_in_ep (config d)"
    using ram_bulk [OF env on, where n = n and data = data and ep = MSC_EP_IN] by auto
  from step [OF y(2)] m have q: "q \<noteq> NULL" "xfers t q = Some (complete_transfer (completed bs) y)"
    "on_ram env z p d r0 t r'" "bus_frame s t" by (simp_all add: moved_def)
  have "bEndpointAddress y \<noteq> 0" using y(2) ep by (simp add: two_endpoints_def)
  then have "finish_transfer q data MSC_EP_IN USB_TRANSFER_STATUS_COMPLETED t = Ret (ESP_OK, overwrite bs data) t"
    using q(1,2) y(1) bs \<open>n \<le> ?n\<close>
    by (simp add: finish_transfer_cases complete_transfer_def completed_def take_overwrite)
  with run q show ?thesis by simp
qed

section \<open>The phases of a command\<close>

text \<open>A command the device decodes, its status, and the data between them.\<close>

lemma ram_command_phase:
  assumes env: "carries env (config d) z (handle d) r0" and on: "on_ram env z p d r0 s r" and "ram_command r = None"
    and w: "\<And>g. device_reads (mem_read g CBW_SIZE mem) = Some w"
  shows "\<exists>t. msc_bulk_transfer env p mem CBW_SIZE MSC_EP_OUT s = Ret (ESP_OK, mem) t \<and>
    on_ram env z p d r0 t (r\<lparr>ram_command := Some w, ram_moved := False\<rparr>) \<and> bus_frame s t"
  using ram_out [OF env on, where n = CBW_SIZE and data = mem] w \<open>ram_command r = None\<close>
  by (fastforce simp: ram_step_def)

lemma ram_status_phase:
  assumes env: "carries env (config d) z (handle d) r0" and on: "on_ram env z p d r0 s r"
    and ep: "two_endpoints (config d)" and w: "ram_command r = Some w"
    and no_data: "ram_moved r \<or> \<not> wc_device_to_host w \<or> wc_transfer_length w = 0"
  shows "\<exists>t. status_transport recover env p s = Ret (ESP_OK, bytes_csw (passing_csw (wc_tag w))) t \<and>
    on_ram env z p d r0 t (r\<lparr>ram_command := None\<rparr>) \<and> bus_frame s t"
proof -
  let ?csw = "bytes_csw (passing_csw (wc_tag w))"
  let ?mem = "map (r_memory env (hist s)) [0..<CSW_SIZE]"
  have "ram_step (config d) z r y = (r\<lparr>ram_command := None\<rparr>, ?csw)" if "bEndpointAddress y = bulk_in_ep (config d)" for y
    using that ep w no_data by (auto simp: ram_step_def two_endpoints_def)
  from ram_in [OF env on ep _ this, where n = CSW_SIZE and data = ?mem] obtain t
    where "msc_bulk_transfer env p ?mem CSW_SIZE MSC_EP_IN s = Ret (ESP_OK, overwrite ?csw ?mem) t"
    "on_ram env z p d r0 t (r\<lparr>ram_command := None\<rparr>)" "bus_frame s t"
    by (auto simp: csw_format.enc_width)
  moreover have "overwrite ?csw ?mem = ?csw" by (simp add: overwrite_full csw_format.enc_width)
  ultimately show ?thesis by (auto simp: status_transport_def uninitialised_def)
qed

lemma ram_executes:
  assumes env: "carries env (config d) z (handle d) r0" and on: "on_ram env z p d r0 s r" and "ram_command r = None"
    and ep: "two_endpoints (config d)" and w: "\<And>g. device_reads (mem_read g CBW_SIZE mem) = Some w" "wc_tag w = tag cbw"
    and e: "e = (if flags cbw AND CWB_FLAG_DIRECTION_IN \<noteq> 0 then MSC_EP_IN else MSC_EP_OUT)"
    and data: "\<And>u. on_ram env z p d r0 u (r\<lparr>ram_command := Some w, ram_moved := False\<rparr>) \<Longrightarrow>
      \<exists>v. data_transport env p data n e u = Ret (ESP_OK, out) v \<and> on_ram env z p d r0 v r' \<and> bus_frame u v"
    and r': "ram_command r' = Some w" "ram_moved r' \<or> \<not> wc_device_to_host w \<or> wc_transfer_length w = 0"
  shows "\<exists>t. bot_execute_command recover env p cbw mem data n s = Ret (ESP_OK, out) t \<and>
    on_ram env z p d r0 t (r'\<lparr>ram_command := None\<rparr>) \<and> bus_frame s t"
proof -
  obtain u where u: "msc_bulk_transfer env p mem CBW_SIZE MSC_EP_OUT s = Ret (ESP_OK, mem) u"
    "on_ram env z p d r0 u (r\<lparr>ram_command := Some w, ram_moved := False\<rparr>)" "bus_frame s u"
    using ram_command_phase [OF env on \<open>ram_command r = None\<close> w(1)] by blast
  obtain v where v: "data_transport env p data n e u = Ret (ESP_OK, out) v" "on_ram env z p d r0 v r'" "bus_frame u v"
    using data [OF u(2)] by blast
  obtain t where t: "status_transport recover env p v = Ret (ESP_OK, bytes_csw (passing_csw (wc_tag w))) t"
    "on_ram env z p d r0 t (r'\<lparr>ram_command := None\<rparr>)" "bus_frame v t"
    using ram_status_phase [OF env v(2) ep r'] by blast
  have "bot_execute_command recover env p cbw mem data n s = Ret (ESP_OK, out) t"
    using u(1) v(1) t(1) w(2) e
    by (simp add: bot_execute_command_def Let_def csw_format.dec_enc check_csw_ok)
  with t u(3) v(3) bus_frame_trans show ?thesis by blast
qed


section \<open>Reading and writing sectors\<close>

definition idle :: "nat \<Rightarrow> ram \<Rightarrow> bool" where
  "idle z r \<longleftrightarrow> ram_command r = None \<and> blocks_of z (ram_blocks r)"

lemma count_fits: "k < 2 ^ 16 \<Longrightarrow> unat (ucast (k :: u32) :: u16) = unat k"
  by (simp add: unsigned_ucast_eq take_bit_nat_eq_self word_less_nat_alt)

lemma sectors_bytes:
  assumes "k < 2 ^ 16" and "unat z \<le> 2 ^ 15"
  shows "unat (k * z :: u32) = unat k * unat z"
proof -
  have "unat k < 2 ^ 16" using assms(1) by (simp add: word_less_nat_alt)
  then have "unat k * unat z < 2 ^ 16 * 2 ^ 16" using assms(2) by (intro mult_strict_mono) simp_all
  then show ?thesis by (simp add: unat_word_ariths)
qed

lemma ram_reads:
  assumes env: "carries env (config d) z (handle d) r0" and on: "on_ram env z p d r0 s r" and ep: "two_endpoints (config d)"
    and r: "idle z r" and k: "0 < k" "k < 2 ^ 16" and z: "unat bs = z" "0 < z" "z \<le> 2 ^ 15"
    and fits: "unat k * z \<le> length data"
  shows "\<exists>t r'. scsi_cmd_read10 recover env p data a k bs s =
      Ret (ESP_OK, overwrite (read_blocks (unat k) a (ram_blocks r)) data) t \<and>
    on_ram env z p d r0 t r' \<and> idle z r' \<and> ram_blocks r' = ram_blocks r \<and> bus_frame s t"
proof -
  let ?c = "init_read10 (cbw_tag s + 1) a k bs"
  let ?s = "s\<lparr>cbw_tag := cbw_tag s + 1\<rparr>"
  define w where "w = \<lparr>wc_tag = cbw_tag s + 1, wc_transfer_length = k * bs, wc_device_to_host = True, wc_lun = 0,
      wc_command = Read_10 a (ucast k)\<rparr>"
  have reads: "\<And>g. device_reads (mem_read g CBW_SIZE (bytes_cbw_read10 ?c)) = Some w"
    and tag: "wc_tag w = tag (r10_base ?c)" and e: "MSC_EP_IN = (if flags (r10_base ?c) AND CWB_FLAG_DIRECTION_IN \<noteq> 0 then MSC_EP_IN else MSC_EP_OUT)"
    unfolding w_def by (rule reads_read10) (simp_all add: init_read10_def CBW_BASE_INIT_def)
  have len: "unat (k * bs) = unat k * z" using sectors_bytes k z by simp
  have pos: "0 < unat k * z" using k z by (simp add: word_less_nat_alt)
  let ?r1 = "r\<lparr>ram_command := Some w, ram_moved := False\<rparr>"
  let ?r2 = "r\<lparr>ram_command := Some w, ram_moved := True\<rparr>"
  let ?out = "overwrite (read_blocks (unat k) a (ram_blocks r)) data"
  have blk: "blocks_of z (ram_blocks r)" "ram_command r = None" using r by (simp_all add: idle_def)
  have "k * bs \<noteq> 0" using len pos by auto
  then have step: "ram_step (config d) z ?r1 y = (?r2, read_blocks (unat k) a (ram_blocks r))"
    if "bEndpointAddress y = bulk_in_ep (config d)" for y
    using that ep count_fits [OF k(2)] by (simp add: ram_step_def two_endpoints_def w_def ram_data_def)
  have "\<exists>v. data_transport env p (Some data) (unat (k * bs)) MSC_EP_IN u = Ret (ESP_OK, Some ?out) v \<and>
      on_ram env z p d r0 v ?r2 \<and> bus_frame u v" if u: "on_ram env z p d r0 u ?r1" for u
    using ram_in [OF env u ep _ step, where n = "unat (k * bs)" and data = data] pos fits blk(1)
    by (auto simp: data_transport_def len)
  from ram_executes [OF env _ blk(2) ep reads tag e this, of ?s recover] on
  obtain t where "bot_execute_command recover env p (r10_base ?c) (bytes_cbw_read10 ?c) (Some data) (unat (k * bs)) ?s =
      Ret (ESP_OK, Some ?out) t" "on_ram env z p d r0 t (?r2\<lparr>ram_command := None\<rparr>)" "bus_frame ?s t"
    by auto
  then show ?thesis unfolding read10_ok_iff using blk
    by (intro exI [of _ t] exI [of _ "?r2\<lparr>ram_command := None\<rparr>"]) (simp add: idle_def bus_frame_def)
qed

lemma ram_writes:
  assumes env: "carries env (config d) z (handle d) r0" and on: "on_ram env z p d r0 s r" and ep: "two_endpoints (config d)"
    and r: "idle z r" and k: "k < 2 ^ 16" and z: "unat bs = z" "z \<le> 2 ^ 15" and len: "length data = unat k * z"
  shows "\<exists>t r'. scsi_cmd_write10 recover env p data a k bs s = Ret ESP_OK t \<and>
    on_ram env z p d r0 t r' \<and> idle z r' \<and> ram_blocks r' = write_blocks z (unat k) a data (ram_blocks r) \<and> bus_frame s t"
proof -
  let ?c = "init_write10 (cbw_tag s + 1) a k bs"
  let ?s = "s\<lparr>cbw_tag := cbw_tag s + 1\<rparr>"
  define w where "w = \<lparr>wc_tag = cbw_tag s + 1, wc_transfer_length = k * bs, wc_device_to_host = False, wc_lun = 0,
      wc_command = Write_10 a (ucast k)\<rparr>"
  have reads: "\<And>g. device_reads (mem_read g CBW_SIZE (bytes_cbw_write10 ?c)) = Some w"
    and tag: "wc_tag w = tag (w10_base ?c)" and e: "MSC_EP_OUT = (if flags (w10_base ?c) AND CWB_FLAG_DIRECTION_IN \<noteq> 0 then MSC_EP_IN else MSC_EP_OUT)"
    unfolding w_def by (rule reads_write10) (simp_all add: init_write10_def CBW_BASE_INIT_def)
  have n: "unat (k * bs) = length data" using sectors_bytes k z len by simp
  let ?r1 = "r\<lparr>ram_command := Some w, ram_moved := False\<rparr>"
  let ?bl = "write_blocks z (unat k) a data (ram_blocks r)"
  let ?r2 = "r\<lparr>ram_command := Some w, ram_moved := True, ram_blocks := ?bl\<rparr>"
  have blk: "blocks_of z (ram_blocks r)" "ram_command r = None" using r by (simp_all add: idle_def)
  have step: "fst (ram_step (config d) z ?r1 y) = ?r2"
    if "bEndpointAddress y = bulk_out_ep (config d)" "take (num_bytes y) (data_buffer y) = data" for y
    using that count_fits [OF k(1)] by (simp add: ram_step_def w_def ram_stores_def)
  have "\<exists>v. data_transport env p (Some data) (unat (k * bs)) MSC_EP_OUT u = Ret (ESP_OK, Some data) v \<and>
      on_ram env z p d r0 v ?r2 \<and> bus_frame u v" if u: "on_ram env z p d r0 u ?r1" for u
  proof -
    obtain y v g where "msc_bulk_transfer env p data (unat (k * bs)) MSC_EP_OUT u = Ret (ESP_OK, data) v"
      and y: "on_ram env z p d r0 v (fst (ram_step (config d) z ?r1 y))" "bus_frame u v"
      "bEndpointAddress y = bulk_out_ep (config d)" "take (num_bytes y) (data_buffer y) = mem_read g (unat (k * bs)) data"
      using ram_out [OF env u, where n = "unat (k * bs)" and data = data] by blast
    with step [OF y(3)] show ?thesis by (auto simp: data_transport_def n)
  qed
  from ram_executes [OF env _ blk(2) ep reads tag e this, of ?s recover] on
  obtain t where "bot_execute_command recover env p (w10_base ?c) (bytes_cbw_write10 ?c) (Some data) (unat (k * bs)) ?s =
      Ret (ESP_OK, Some data) t" "on_ram env z p d r0 t (?r2\<lparr>ram_command := None\<rparr>)" "bus_frame ?s t"
    by (auto simp: w_def)
  then show ?thesis unfolding write10_ok_iff using write_keeps_size [OF blk(1) len]
    by (intro exI [of _ t] exI [of _ "?r2\<lparr>ram_command := None\<rparr>"]) (auto simp: idle_def bus_frame_def)
qed


section \<open>The disk layer is a block store\<close>

text \<open>
  \<open>disk_store\<close>: drive \<open>pdrv\<close> is registered for the device \<open>p\<close>, whose sector size is the store's,
  the host stack carries its transfers, and the device is idle and holds the blocks \<open>bl\<close>.
\<close>

definition disk_store :: "env \<Rightarrow> ram \<Rightarrow> ptr \<Rightarrow> msc_device \<Rightarrow> u8 \<Rightarrow> sys \<Rightarrow> blocks \<Rightarrow> bool" where
  "disk_store env r0 p d pdrv s bl \<longleftrightarrow>
     (let z = unat (block_size (disk d)) in
      carries env (config d) z (handle d) r0 \<and> two_endpoints (config d) \<and> 0 < z \<and> z \<le> 2 ^ 15 \<and>
      checked_disk pdrv s = Ret p s \<and> (\<exists>r. on_ram env z p d r0 s r \<and> idle z r \<and> ram_blocks r = bl))"

lemma checked_disk_frame: "bus_frame s t \<Longrightarrow> checked_disk pdrv s = Ret p s \<Longrightarrow> checked_disk pdrv t = Ret p t"
  by (auto simp: checked_disk_def bus_frame_def prog_Ret split: if_splits)

lemma on_ram_device:
  assumes "on_ram env z p d r0 s r"
  shows "p \<noteq> NULL \<and> (\<exists>d'. devs s p = Some d' \<and> block_size (disk d') = block_size (disk d))"
proof -
  from assms obtain d' x where at: "transfer_at s p d' x" by (auto simp: on_ram_def elim: dev_okE)
  then have "devs s p = Some d'" "p \<noteq> NULL" by auto
  moreover with assms have "same_device (Some d) (Some d')" by (simp add: on_ram_def)
  ultimately show ?thesis using same_device_fields by metis
qed

lemma disk_store_reads:
  assumes st: "disk_store env r0 p d pdrv s bl" and k: "0 < k" "k < 2 ^ 16"
    and fits: "unat k * unat (block_size (disk d)) \<le> length buff"
  shows "\<exists>t. usb_disk_read depth env pdrv buff a k s = Ret (RES_OK, overwrite (read_blocks (unat k) a bl) buff) t \<and>
    disk_store env r0 p d pdrv t bl"
proof -
  let ?z = "unat (block_size (disk d))"
  from st obtain r where r: "carries env (config d) ?z (handle d) r0" "on_ram env ?z p d r0 s r" "two_endpoints (config d)"
    "idle ?z r" "0 < ?z" "?z \<le> 2 ^ 15" "checked_disk pdrv s = Ret p s" and bl: "ram_blocks r = bl"
    by (auto simp: disk_store_def Let_def)
  obtain d' where d': "p \<noteq> NULL" "devs s p = Some d'" "block_size (disk d') = block_size (disk d)"
    using on_ram_device [OF r(2)] by blast
  obtain t r' where run: "scsi_cmd_read10 (msc_host_reset_recovery depth env) env p buff a k (block_size (disk d)) s =
      Ret (ESP_OK, overwrite (read_blocks (unat k) a bl) buff) t"
    and t: "on_ram env ?z p d r0 t r'" "idle ?z r'" "ram_blocks r' = bl" "bus_frame s t"
    using ram_reads [OF r(1-4) k refl r(5,6) fits, where a = a and recover = "msc_host_reset_recovery depth env"] bl by auto
  have "disk_store env r0 p d pdrv t bl"
    using r(1,3,5,6) t checked_disk_frame [OF t(4) r(7)] by (auto simp: disk_store_def Let_def)
  with run d' r(7) show ?thesis by (simp add: disk_read_run bind_run)
qed

lemma disk_store_writes:
  assumes st: "disk_store env r0 p d pdrv s bl" and k: "k < 2 ^ 16"
    and len: "length data = unat k * unat (block_size (disk d))"
  shows "\<exists>t. usb_disk_write depth env pdrv data a k s = Ret RES_OK t \<and>
    disk_store env r0 p d pdrv t (write_blocks (unat (block_size (disk d))) (unat k) a data bl)"
proof -
  let ?z = "unat (block_size (disk d))"
  from st obtain r where r: "carries env (config d) ?z (handle d) r0" "on_ram env ?z p d r0 s r" "two_endpoints (config d)"
    "idle ?z r" "0 < ?z" "?z \<le> 2 ^ 15" "checked_disk pdrv s = Ret p s" and bl: "ram_blocks r = bl"
    by (auto simp: disk_store_def Let_def)
  obtain d' where d': "p \<noteq> NULL" "devs s p = Some d'" "block_size (disk d') = block_size (disk d)"
    using on_ram_device [OF r(2)] by blast
  obtain t r' where run: "scsi_cmd_write10 (msc_host_reset_recovery depth env) env p data a k (block_size (disk d)) s =
      Ret ESP_OK t"
    and t: "on_ram env ?z p d r0 t r'" "idle ?z r'" "ram_blocks r' = write_blocks ?z (unat k) a data bl" "bus_frame s t"
    using ram_writes [OF r(1-4) k refl r(6) len, where a = a and recover = "msc_host_reset_recovery depth env"] bl by auto
  have "disk_store env r0 p d pdrv t (write_blocks ?z (unat k) a data bl)"
    using r(1,3,5,6) t checked_disk_frame [OF t(4) r(7)] by (auto simp: disk_store_def Let_def)
  with run d' r(7) show ?thesis by (simp add: usb_disk_write_def bind_run)
qed

text \<open>
  What a client of a block device relies on, and what follows for it: data that was written is read
  back, also after a write elsewhere.
\<close>

locale block_device =
  fixes sector :: nat
    and allowed :: "u32 \<Rightarrow> u32 \<Rightarrow> bool"
    and done_ok :: 'r
    and stored :: "'s \<Rightarrow> blocks \<Rightarrow> bool"
    and rd :: "u8 list \<Rightarrow> u32 \<Rightarrow> u32 \<Rightarrow> ('s, 'r \<times> u8 list) prog"
    and wr :: "u8 list \<Rightarrow> u32 \<Rightarrow> u32 \<Rightarrow> ('s, 'r) prog"
  assumes rd_ok: "stored s bl \<Longrightarrow> allowed a k \<Longrightarrow> length buff = unat k * sector \<Longrightarrow>
      \<exists>t. rd buff a k s = Ret (done_ok, read_blocks (unat k) a bl) t \<and> stored t bl"
    and wr_ok: "stored s bl \<Longrightarrow> allowed a k \<Longrightarrow> length data = unat k * sector \<Longrightarrow>
      \<exists>t. wr data a k s = Ret done_ok t \<and> stored t (write_blocks sector (unat k) a data bl)"
begin

lemma read_back:
  assumes "stored s bl" and "allowed a k" and "length data = unat k * sector" and "length buff = length data"
  shows "\<exists>t u. wr data a k s = Ret done_ok t \<and> rd buff a k t = Ret (done_ok, data) u \<and>
    stored u (write_blocks sector (unat k) a data bl)"
proof -
  obtain t where t: "wr data a k s = Ret done_ok t" "stored t (write_blocks sector (unat k) a data bl)"
    using wr_ok [OF assms(1-3)] by blast
  have "unat k < 2 ^ LENGTH(32)" by (rule unsigned_less)
  then have "unat k \<le> 2 ^ 32" by simp
  then have "read_blocks (unat k) a (write_blocks sector (unat k) a data bl) = data"
    by (rule read_after_write [OF assms(3)])
  with rd_ok [OF t(2) assms(2), of buff] assms(3,4) show ?thesis using t by auto
qed

lemma write_elsewhere:
  assumes "stored s bl" and "allowed a k" "allowed b j" and "length data = unat j * sector" and "length buff = unat k * sector"
    and apart: "\<And>i. i < unat k \<Longrightarrow> write_blocks sector (unat j) b data bl (a + of_nat i) = bl (a + of_nat i)"
  shows "\<exists>t u v out. rd buff a k s = Ret (done_ok, out) t \<and> wr data b j s = Ret done_ok u \<and>
    rd buff a k u = Ret (done_ok, out) v"
proof -
  have same: "read_blocks n c bl' = read_blocks n c bl" if "\<And>i. i < n \<Longrightarrow> bl' (c + of_nat i) = bl (c + of_nat i)" for n c bl'
    using that
  proof (induction n arbitrary: c)
    case (Suc n)
    from Suc.prems [of 0] Suc.prems [of "Suc _"] Suc.IH [of "c + 1"] show ?case by (simp add: add.assoc)
  qed simp
  obtain u where u: "wr data b j s = Ret done_ok u" "stored u (write_blocks sector (unat j) b data bl)"
    using wr_ok [OF assms(1,3,4)] by blast
  from rd_ok [OF u(2) assms(2,5)] rd_ok [OF assms(1,2,5)] u(1)
  show ?thesis by (auto simp: same [OF apart])
qed

end

lemma store_sizes: "disk_store env r0 p d pdrv s bl \<Longrightarrow> blocks_of (unat (block_size (disk d))) bl"
  by (auto simp: disk_store_def idle_def Let_def)

interpretation disk_layer: block_device "unat (block_size (disk d))" "\<lambda>a k. 0 < k \<and> k < 2 ^ 16" RES_OK
    "disk_store env r0 p d pdrv" "usb_disk_read depth env pdrv" "usb_disk_write depth env pdrv" for env r0 p d pdrv depth
proof unfold_locales
  fix s bl and a k :: u32 and buff :: "u8 list"
  assume st: "disk_store env r0 p d pdrv s bl" and k: "0 < k \<and> k < 2 ^ 16"
    and len: "length buff = unat k * unat (block_size (disk d))"
  have "overwrite (read_blocks (unat k) a bl) buff = read_blocks (unat k) a bl"
    using len store_sizes [OF st] by (intro overwrite_full) simp
  with disk_store_reads [OF st, of k buff depth a] k len
  show "\<exists>t. usb_disk_read depth env pdrv buff a k s = Ret (RES_OK, read_blocks (unat k) a bl) t \<and> disk_store env r0 p d pdrv t bl"
    by simp
qed (use disk_store_writes in blast)

section \<open>A host with such a device\<close>

definition ram_device :: "msc_config \<Rightarrow> nat \<Rightarrow> ptr \<Rightarrow> ram \<Rightarrow> event list \<Rightarrow> usb_transfer \<Rightarrow> completion" where
  "ram_device cfg z h r0 es x = completed (snd (ram_step cfg z (ram_after cfg z r0 (submits h (butlast es))) x))"

definition empty_ram :: "nat \<Rightarrow> ram" where
  "empty_ram z = \<lparr>ram_blocks = (\<lambda>_. replicate z 0), ram_last = 99, ram_command = None, ram_moved = False\<rparr>"

lemma sample_carries: "carries (sample_host (ram_device cfg z h r0)) cfg z h r0"
  using sample_host_ok [of "ram_device cfg z h r0"] sample_rounds_up [of "ram_device cfg z h r0"]
  by (simp add: carries_def answers_def) (simp add: sample_host_def ram_device_def completed_def)

lemma sample_store:
  "disk_store (sample_host (ram_device sample_config 16 7 (empty_ram 16))) (empty_ram 16) 10 sample_device 0
     (sample_sys\<lparr>s_disks := [10]\<rparr>) (\<lambda>_. replicate 16 0)"
proof -
  have d: "config sample_device = sample_config" "handle sample_device = 7" "unat (block_size (disk sample_device)) = 16"
    by (simp_all add: sample_device_def)
  have "dev_ok 10 (sample_sys\<lparr>s_disks := [10]\<rparr>)"
    by (rule dev_okI [of _ _ sample_device sample_transfer])
      (simp_all add: transfer_at_def sample_sys_def sample_device_def sample_transfer_def)
  then have "on_ram (sample_host (ram_device sample_config 16 7 (empty_ram 16))) 16 10 sample_device (empty_ram 16)
      (sample_sys\<lparr>s_disks := [10]\<rparr>) (empty_ram 16)"
    by (simp add: on_ram_def sample_dev sample_fields ram_after_def)
  moreover have "checked_disk 0 (sample_sys\<lparr>s_disks := [10]\<rparr>) = Ret 10 (sample_sys\<lparr>s_disks := [10]\<rparr>)"
    by (simp add: checked_disk_def)
  moreover have "two_endpoints sample_config" by (simp add: two_endpoints_def sample_config_def)
  moreover have "idle 16 (empty_ram 16)" by (simp add: idle_def empty_ram_def blocks_of_def)
  ultimately show ?thesis
    by (auto simp: disk_store_def d Let_def sample_carries empty_ram_def)
qed

end
