(* ===== verification/Spi_Crc.thy ===== *)
theory Spi_Crc imports Prelude begin

text \<open>
  The checksum of the SPI link (\<open>spi_crc32\<close> of \<open>src/spi_link/protocol.rs\<close>): the register loop of the
  code, the CRC-32 of IEEE 802.3 as a remainder of polynomials, the proof that the two agree, and
  the errors the checksum detects.
\<close>

unbundle bit_operations_syntax

section \<open>The code\<close>

definition crc_constant :: u32 where "crc_constant = 0xEDB88320"

definition crc_step :: "u32 \<Rightarrow> u32" where
  "crc_step crc = (if crc AND 1 \<noteq> 0 then drop_bit 1 crc XOR crc_constant else drop_bit 1 crc)"

definition crc_byte :: "u8 \<Rightarrow> u32 \<Rightarrow> u32" where
  "crc_byte b crc = (crc_step ^^ 8) (crc XOR ucast b)"

definition spi_crc32 :: "u8 list \<Rightarrow> u32" where
  "spi_crc32 data = NOT (fold crc_byte data 0xFFFFFFFF)"

section \<open>The reference\<close>

text \<open>
  A polynomial over bits is the list of its coefficients, the highest first. \<open>crc32_poly\<close> is the
  generator without its leading term \<open>x ^ 32\<close>; \<open>poly_mod\<close> divides by the generator, one leading
  coefficient at a time. The bits of a message are sent lowest first. The checksum is the complement
  of the remainder of the message, its first 32 bits complemented, times \<open>x ^ 32\<close>.
\<close>

fun xor_onto :: "bool list \<Rightarrow> bool list \<Rightarrow> bool list" where
  "xor_onto [] ys = ys"
| "xor_onto (x # xs) [] = []"
| "xor_onto (x # xs) (y # ys) = (x \<noteq> y) # xor_onto xs ys"

lemma length_xor_onto [simp]: "length (xor_onto xs ys) = length ys"
  by (induction xs ys rule: xor_onto.induct) simp_all

definition crc32_poly :: "bool list" where
  "crc32_poly = map (\<lambda>i. i \<in> {26, 23, 22, 16, 12, 11, 10, 8, 7, 5, 4, 2, 1, 0 :: nat}) (rev [0..<32])"

function poly_mod :: "bool list \<Rightarrow> bool list" where
  "poly_mod [] = []"
| "poly_mod (b # bs) = (if length bs < 32 then b # bs else poly_mod (if b then xor_onto crc32_poly bs else bs))"
  by pat_completeness auto
termination by (relation "measure length") simp_all

definition message_bits :: "u8 list \<Rightarrow> bool list" where
  "message_bits data = concat (map (\<lambda>b. map (bit b) [0..<8]) data)"

definition of_bits :: "bool list \<Rightarrow> u32" where
  "of_bits bs = horner_sum of_bool 2 bs"

definition crc32_ieee :: "u8 list \<Rightarrow> u32" where
  "crc32_ieee data =
     of_bits (map Not (poly_mod (xor_onto (replicate 32 True) (message_bits data @ replicate 32 False))))"

section \<open>The register as a list of bits\<close>

text \<open>The register's lowest bit is the highest coefficient. \<open>run_bits\<close> feeds it a message bit by bit.\<close>

definition register :: "u32 \<Rightarrow> bool list" where
  "register x = map (bit x) [0..<32]"

definition feed_bit :: "bool \<Rightarrow> bool list \<Rightarrow> bool list" where
  "feed_bit b r = (let q = tl r @ [False] in if hd r \<noteq> b then xor_onto crc32_poly q else q)"

abbreviation run_bits :: "bool list \<Rightarrow> bool list \<Rightarrow> bool list" where
  "run_bits \<equiv> fold feed_bit"

lemma length_register [simp]: "length (register x) = 32"
  by (simp add: register_def)

lemma length_feed_bit [simp]: "r \<noteq> [] \<Longrightarrow> length (feed_bit b r) = length r"
  by (simp add: feed_bit_def Let_def)

lemma length_run_bits: "length r = 32 \<Longrightarrow> length (run_bits m r) = 32"
proof (induction m arbitrary: r)
  case (Cons b m)
  then have "r \<noteq> []" by auto
  with Cons show ?case by simp
qed simp

lemma length_poly [simp]: "length crc32_poly = 32"
  by (simp add: crc32_poly_def)

lemma xor_onto_twice:
  "length xs = length ys \<Longrightarrow> xor_onto xs (xor_onto ys zs) = xor_onto (xor_onto xs ys) zs"
proof (induction xs ys arbitrary: zs rule: list_induct2)
  case (Cons x xs y ys)
  then show ?case by (cases zs) auto
qed simp

lemma xor_onto_snoc_False: "length xs < length zs \<Longrightarrow> xor_onto (xs @ [False]) zs = xor_onto xs zs"
proof (induction xs zs rule: xor_onto.induct)
  case (1 ys)
  then show ?case by (cases ys) simp_all
qed simp_all

text \<open>Division and register compute the same: what is left of the message is combined with the register.\<close>

lemma poly_mod_run:
  "length r = 32 \<Longrightarrow> poly_mod (xor_onto r (m @ replicate 32 False)) = run_bits m r"
proof (induction m arbitrary: r)
  case Nil
  have "xor_onto xs (replicate (length xs) False) = xs" for xs by (induction xs) auto
  from this [of r] Nil have "xor_onto r ([] @ replicate 32 False) = r" by simp
  with Nil show ?case by (cases r) simp_all
next
  case (Cons b m)
  then obtain r0 r' where r: "r = r0 # r'" "length r' = 31" by (cases r) auto
  let ?z = "m @ replicate 32 False"
  have shift: "xor_onto r' ?z = xor_onto (r' @ [False]) ?z"
    using xor_onto_snoc_False [of r' ?z] r(2) by simp
  have "poly_mod (xor_onto r ((b # m) @ replicate 32 False)) =
      poly_mod (if r0 \<noteq> b then xor_onto crc32_poly (xor_onto (r' @ [False]) ?z) else xor_onto (r' @ [False]) ?z)"
    unfolding shift [symmetric] by (simp add: r(1))
  also have "\<dots> = poly_mod (xor_onto (feed_bit b r) ?z)"
    by (simp add: feed_bit_def r Let_def xor_onto_twice)
  also have "\<dots> = run_bits m (feed_bit b r)"
    using Cons.prems r by (intro Cons.IH) (simp add: feed_bit_def Let_def)
  finally show ?case by simp
qed

section \<open>The word register\<close>

lemma bit_crc_poly: "n < 32 \<Longrightarrow> bit crc_constant n = crc32_poly ! n"
proof -
  have "map (bit crc_constant) [0..<32] = crc32_poly" by code_simp
  then show "n < 32 \<Longrightarrow> bit crc_constant n = crc32_poly ! n"
    by (metis add_0 length_upt minus_nat.diff_0 nth_map nth_upt)
qed

lemma nth_xor_onto: "n < length xs \<Longrightarrow> length xs \<le> length ys \<Longrightarrow> xor_onto xs ys ! n = (xs ! n \<noteq> ys ! n)"
proof (induction xs ys arbitrary: n rule: xor_onto.induct)
  case (3 x xs y ys)
  then show ?case by (cases n) auto
qed simp_all

lemma low_bit: "(x :: u32) AND 1 \<noteq> 0 \<longleftrightarrow> bit x 0"
  by (simp add: and_one_eq odd_iff_mod_2_eq_one [symmetric] bit_0)

lemma register_feed: "register (crc_step (x XOR of_bool b)) = feed_bit b (register x)"
proof (rule nth_equalityI)
  fix n
  assume "n < length (register (crc_step (x XOR of_bool b)))"
  then have n: "n < 32" by simp
  have hd: "hd (register x) = bit x 0" by (simp add: register_def upt_conv_Cons)
  have tl: "(tl (register x) @ [False]) ! n = (n < 31 \<and> bit x (Suc n))"
    using n by (auto simp: register_def nth_append nth_tl)
  have "register (crc_step (x XOR of_bool b)) ! n = bit (crc_step (x XOR of_bool b)) n"
    using n by (simp add: register_def)
  also have "\<dots> = ((bit x 0 \<noteq> b \<and> crc32_poly ! n) \<noteq> (n < 31 \<and> bit x (Suc n)))"
    using n by (cases b) (auto simp: crc_step_def low_bit bit_simps bit_crc_poly [OF n] dest: bit_imp_le_length)
  also have "\<dots> = feed_bit b (register x) ! n"
    using n by (simp add: feed_bit_def Let_def hd tl nth_xor_onto)
  finally show "register (crc_step (x XOR of_bool b)) ! n = feed_bit b (register x) ! n" .
qed (simp add: register_def feed_bit_def Let_def)

definition double :: "u32 \<Rightarrow> u32" where
  "double w = push_bit 1 w"

lemma bit_double: "bit (double w) n \<longleftrightarrow> 0 < n \<and> n < 32 \<and> bit w (n - 1)"
  unfolding double_def bit_push_bit_iff by auto

lemma crc_step_shifted:
  assumes "\<not> bit w 31"
  shows "crc_step (x XOR double w) = crc_step x XOR w"
proof (rule bit_word_eqI)
  fix n :: nat
  assume "n < LENGTH(32)"
  then have n: "n < 32" by simp
  have "bit (double w) (Suc n) = bit w n" "\<not> bit (double w) 0"
    using n assms by (cases "n = 31"; simp add: bit_double)+
  then show "bit (crc_step (x XOR double w)) n = bit (crc_step x XOR w) n"
    by (auto simp: crc_step_def low_bit bit_simps)
qed

text \<open>Several bits: the register may take them all at once before its steps.\<close>

lemma bit_of_bits: "bit (of_bits bs) n \<longleftrightarrow> n < 32 \<and> n < length bs \<and> bs ! n"
  by (auto simp: of_bits_def bit_horner_sum_bit_iff)

lemma of_bits_Cons: "of_bits (b # bs) = of_bool b XOR double (of_bits bs)"
proof (rule bit_word_eqI)
  fix n :: nat
  assume "n < LENGTH(32)"
  then show "bit (of_bits (b # bs)) n = bit (of_bool b XOR double (of_bits bs)) n"
    by (cases n) (auto simp: bit_of_bits bit_xor_iff bit_double bit_simps)
qed

lemma xor_cancel: "(x :: u32) XOR z = y XOR z \<longleftrightarrow> x = y" "z XOR x = z XOR y \<longleftrightarrow> x = y"
  by (auto simp: bit_eq_iff bit_xor_iff)

lemma register_of_bits: "length bs = 32 \<Longrightarrow> register (of_bits bs) = bs"
  by (rule nth_equalityI) (simp_all add: register_def bit_of_bits)

lemma of_bits_register: "of_bits (register x) = x"
  by (rule bit_word_eqI) (simp add: bit_of_bits register_def)

lemma register_inject: "register x = register y \<longleftrightarrow> x = y"
  by (metis of_bits_register)

lemma run_bits_word:
  "length bs \<le> 32 \<Longrightarrow> run_bits bs (register x) = register ((crc_step ^^ length bs) (x XOR of_bits bs))"
proof (induction bs arbitrary: x)
  case (Cons b bs)
  have "\<not> bit (of_bits bs) 31" using Cons.prems by (simp add: bit_of_bits)
  then have "crc_step (x XOR of_bits (b # bs)) = crc_step (x XOR of_bool b) XOR of_bits bs"
    unfolding of_bits_Cons by (metis crc_step_shifted xor.assoc)
  with Cons show ?case by (simp add: funpow_swap1 flip: register_feed)
qed (simp add: of_bits_def)

lemma of_bits_byte: "of_bits (map (bit b) [0..<8]) = ucast (b :: u8)"
proof (rule bit_word_eqI)
  fix n :: nat
  show "bit (of_bits (map (bit b) [0..<8])) n = bit (ucast b :: u32) n"
    by (cases "n < 8") (auto simp: bit_of_bits bit_simps)
qed

lemma register_crc_byte: "register (crc_byte b x) = run_bits (map (bit b) [0..<8]) (register x)"
  using run_bits_word [of "map (bit b) [0..<8]" x] by (simp add: crc_byte_def of_bits_byte)

lemma register_message: "register (fold crc_byte data x) = run_bits (message_bits data) (register x)"
  by (induction data arbitrary: x) (simp_all add: message_bits_def register_crc_byte del: upt_Suc)

theorem spi_crc32_eq: "spi_crc32 data = crc32_ieee data"
proof -
  have ones: "register 0xFFFFFFFF = replicate 32 True" by code_simp
  have compl: "of_bits (map Not (register y)) = NOT y" for y
    by (rule bit_word_eqI) (simp add: bit_of_bits register_def bit_not_iff)
  have "poly_mod (xor_onto (replicate 32 True) (message_bits data @ replicate 32 False)) =
      run_bits (message_bits data) (replicate 32 True)" by (rule poly_mod_run) simp
  then have "poly_mod (xor_onto (replicate 32 True) (message_bits data @ replicate 32 False)) =
      register (fold crc_byte data 0xFFFFFFFF)" by (simp only: register_message ones)
  then show ?thesis by (simp add: crc32_ieee_def spi_crc32_def compl)
qed

section \<open>What the checksum detects\<close>

text \<open>A step loses nothing: the highest bit of its result is the lowest bit it shifted out.\<close>

lemma crc_step_inject: "crc_step x = crc_step y \<longleftrightarrow> x = y"
proof
  assume eq: "crc_step x = crc_step y"
  have set: "bit crc_constant 31" by code_simp
  have top: "bit (crc_step z) 31 = bit z 0" for z
    using set by (auto simp: crc_step_def low_bit bit_simps dest: bit_imp_le_length)
  have low: "bit x 0 = bit y 0" using top [of x] top [of y] eq by simp
  then have "drop_bit 1 x = drop_bit 1 y"
    using eq by (auto simp: crc_step_def low_bit xor_cancel split: if_splits)
  then have "bit x (Suc n) = bit y (Suc n)" for n by (metis add.commute bit_drop_bit_eq comp_apply plus_1_eq_Suc)
  with low have "bit x n = bit y n" for n by (cases n) simp_all
  then show "x = y" by (simp add: bit_eq_iff)
qed simp

lemma crc_steps_inject: "(crc_step ^^ n) x = (crc_step ^^ n) y \<longleftrightarrow> x = y"
  by (induction n) (simp_all add: crc_step_inject)

lemma of_bits_inject: "length xs = length ys \<Longrightarrow> length xs \<le> 32 \<Longrightarrow> of_bits xs = of_bits ys \<longleftrightarrow> xs = ys"
proof (rule iffI)
  assume "length xs = length ys" "length xs \<le> 32" "of_bits xs = of_bits ys"
  then have "xs ! n = ys ! n" if "n < length xs" for n
    using that bit_of_bits [of xs n] bit_of_bits [of ys n] by auto
  with \<open>length xs = length ys\<close> show "xs = ys" by (simp add: nth_equalityI)
qed simp

lemma run_bits_inject:
  "length r = 32 \<Longrightarrow> length r' = 32 \<Longrightarrow> run_bits m r = run_bits m r' \<longleftrightarrow> r = r'"
proof (induction m arbitrary: r r')
  case (Cons b m)
  have len: "length (feed_bit b q) = 32" if "length q = 32" for q using length_run_bits [of q "[b]"] that by simp
  have "feed_bit b r = feed_bit b r' \<longleftrightarrow> r = r'"
    using register_feed [of "of_bits r" b] register_feed [of "of_bits r'" b] Cons.prems
    by (metis crc_step_inject register_inject register_of_bits xor_cancel)
  with Cons.IH [OF len len] Cons.prems show ?case by simp
qed simp

text \<open>An error burst of at most 32 bits changes the checksum.\<close>

lemma burst_detected:
  assumes "message_bits a = pre @ x @ post" and "message_bits b = pre @ y @ post"
    and "length x = length y" and "length x \<le> 32" and "x \<noteq> y"
  shows "spi_crc32 a \<noteq> spi_crc32 b"
proof
  assume "spi_crc32 a = spi_crc32 b"
  then have "fold crc_byte a 0xFFFFFFFF = fold crc_byte b 0xFFFFFFFF"
    by (metis bit.double_compl spi_crc32_def)
  then have "run_bits (pre @ x @ post) (register 0xFFFFFFFF) = run_bits (pre @ y @ post) (register 0xFFFFFFFF)"
    by (metis assms(1,2) register_message)
  then have *: "run_bits post (run_bits x r) = run_bits post (run_bits y r)" if "r = run_bits pre (register 0xFFFFFFFF)" for r
    using that by simp
  define r where "r = run_bits pre (register 0xFFFFFFFF)"
  have r: "length r = 32" by (simp add: r_def length_run_bits)
  have "run_bits x r = run_bits y r"
    using * [OF r_def] run_bits_inject [of "run_bits x r" "run_bits y r" post] by (simp add: length_run_bits r)
  then have "run_bits x (register (of_bits r)) = run_bits y (register (of_bits r))" by (simp add: register_of_bits r)
  then have "of_bits r XOR of_bits x = of_bits r XOR of_bits y"
    using assms(3,4) by (simp add: run_bits_word register_inject crc_steps_inject)
  then have "of_bits x = of_bits y" by (simp add: xor_cancel)
  with assms(3-5) show False by (simp add: of_bits_inject)
qed

text \<open>The check value of the standard.\<close>

lemma crc_check_value: "spi_crc32 [0x31] = 0x83DCEFB7"
  by code_simp

end
