(* ===== verification/Spi_Protocol.thy ===== *)
theory Spi_Protocol imports Scsi_Cbw Spi_Crc begin

text \<open>
  The frames of the SPI link (\<open>src/spi_link/protocol.rs\<close>): the command set, the 16-byte header as it lies
  in memory, and the payload of a \<open>GetCapacity\<close> response.
\<close>

definition MAGIC :: "u8 \<times> u8" where "MAGIC = (0x42, 0x4B)"
definition VERSION :: u8 where [simp]: "VERSION = 1"
definition RESP_FLAG :: u8 where "RESP_FLAG = 0x80"
definition MAX_PAYLOAD :: nat where [simp]: "MAX_PAYLOAD = 8192"
definition CRC_LEN :: nat where [simp]: "CRC_LEN = 4"

lemma RESP_FLAG_set [simp]: "RESP_FLAG \<noteq> 0"
  by (simp add: RESP_FLAG_def)

section \<open>Commands\<close>

datatype cmd = GetStatus | GetCapacity | Read | Write | Flush

text \<open>The discriminants of the enum, and \<open>Cmd::from_u8\<close>.\<close>

primrec cmd_byte :: "cmd \<Rightarrow> u8" where
  "cmd_byte GetStatus = 1"
| "cmd_byte GetCapacity = 2"
| "cmd_byte Read = 3"
| "cmd_byte Write = 4"
| "cmd_byte Flush = 5"

definition from_u8 :: "u8 \<Rightarrow> cmd option" where
  "from_u8 v = (if v = 1 then Some GetStatus else if v = 2 then Some GetCapacity else if v = 3 then Some Read
     else if v = 4 then Some Write else if v = 5 then Some Flush else None)"

lemma from_u8_iff: "from_u8 v = Some c \<longleftrightarrow> v = cmd_byte c"
  by (cases c) (auto simp: from_u8_def)

lemma from_u8_None: "from_u8 v = None \<longleftrightarrow> v \<notin> range cmd_byte"
  by (metis from_u8_iff not_Some_eq rangeE rangeI)

lemma cmd_byte_low: "cmd_byte c AND RESP_FLAG = 0"
  by (cases c) (simp_all add: RESP_FLAG_def)

section \<open>The header\<close>

record header =
  hdr_magic :: "u8 \<times> u8"
  hdr_version :: u8
  hdr_cmd :: u8
  hdr_seq :: u16
  hdr_reserved :: u16
  hdr_arg0 :: u32
  hdr_arg1 :: u32

definition header_new :: "cmd \<Rightarrow> u16 \<Rightarrow> u32 \<Rightarrow> u32 \<Rightarrow> header" where
  "header_new c n a0 a1 = \<lparr>hdr_magic = MAGIC, hdr_version = VERSION, hdr_cmd = cmd_byte c, hdr_seq = n,
     hdr_reserved = 0, hdr_arg0 = a0, hdr_arg1 = a1\<rparr>"

definition is_valid :: "header \<Rightarrow> bool" where
  "is_valid h \<longleftrightarrow> hdr_magic h = MAGIC \<and> hdr_version h = VERSION"

definition is_response :: "header \<Rightarrow> bool" where
  "is_response h \<longleftrightarrow> hdr_cmd h AND RESP_FLAG \<noteq> 0"

definition cmd_base :: "header \<Rightarrow> u8" where
  "cmd_base h = hdr_cmd h AND NOT RESP_FLAG"

definition cmd_enum :: "header \<Rightarrow> cmd option" where
  "cmd_enum h = from_u8 (cmd_base h)"

definition response_for :: "header \<Rightarrow> esp_err_t \<Rightarrow> header" where
  "response_for req e = \<lparr>hdr_magic = MAGIC, hdr_version = VERSION, hdr_cmd = cmd_base req OR RESP_FLAG,
     hdr_seq = hdr_seq req, hdr_reserved = 0, hdr_arg0 = e, hdr_arg1 = 0\<rparr>"

text \<open>\<open>repr(C, packed)\<close>: the fields in their order, without gaps, little-endian.\<close>

definition HDR_LEN :: nat where [simp]: "HDR_LEN = 16"

definition bytes_header :: "header \<Rightarrow> u8 list" where
  "bytes_header h = [fst (hdr_magic h), snd (hdr_magic h), hdr_version h, hdr_cmd h] @ le16 (hdr_seq h) @ le16 (hdr_reserved h) @
     le32 (hdr_arg0 h) @ le32 (hdr_arg1 h)"

definition header_of_bytes :: "u8 list \<Rightarrow> header" where
  "header_of_bytes b = \<lparr>hdr_magic = (b ! 0, b ! 1), hdr_version = b ! 2, hdr_cmd = b ! 3, hdr_seq = of_le16 (take 2 (drop 4 b)),
     hdr_reserved = of_le16 (take 2 (drop 6 b)), hdr_arg0 = of_le32 (take 4 (drop 8 b)), hdr_arg1 = of_le32 (take 4 (drop 12 b))\<rparr>"

interpretation header_format: fixed_format bytes_header header_of_bytes HDR_LEN
proof unfold_locales
  fix bs :: "u8 list"
  assume "length bs = HDR_LEN"
  then obtain b0 b1 b2 b3 b4 b5 b6 b7 b8 b9 b10 b11 b12 b13 b14 b15
    where "bs = [b0, b1, b2, b3, b4, b5, b6, b7, b8, b9, b10, b11, b12, b13, b14, b15]"
    by (auto simp: eval_nat_numeral length_Suc_conv)
  then show "bytes_header (header_of_bytes bs) = bs" by (simp add: bytes_header_def header_of_bytes_def)
qed (simp_all add: bytes_header_def header_of_bytes_def nth_append)

text \<open>The header of a response answers its request: the same command and number, marked as a response.\<close>

lemma response_flag: "(x AND NOT RESP_FLAG) OR RESP_FLAG = x OR RESP_FLAG" "(x OR RESP_FLAG) AND NOT RESP_FLAG = x AND NOT RESP_FLAG"
    "(x OR RESP_FLAG) AND RESP_FLAG \<noteq> 0" for x :: u8
proof -
  have "(x OR RESP_FLAG) AND RESP_FLAG = RESP_FLAG" by (rule bit_word_eqI) (auto simp: bit_simps)
  then show "(x OR RESP_FLAG) AND RESP_FLAG \<noteq> 0" by (simp add: RESP_FLAG_def)
qed (rule bit_word_eqI; auto simp: bit_simps)+

lemma response_for_fields [simp]:
  "is_valid (response_for req e)" "is_response (response_for req e)" "cmd_enum (response_for req e) = cmd_enum req"
  "hdr_seq (response_for req e) = hdr_seq req" "hdr_arg0 (response_for req e) = e"
  by (simp_all add: is_valid_def is_response_def cmd_enum_def cmd_base_def response_for_def response_flag)

lemma header_new_fields [simp]:
  "is_valid (header_new c n a b)" "\<not> is_response (header_new c n a b)" "cmd_enum (header_new c n a b) = Some c"
proof -
  have "cmd_byte c AND NOT RESP_FLAG = cmd_byte c" by (cases c) (simp_all add: RESP_FLAG_def)
  then show "cmd_enum (header_new c n a b) = Some c" by (simp add: cmd_enum_def cmd_base_def header_new_def from_u8_iff)
qed (simp_all add: is_valid_def is_response_def header_new_def cmd_byte_low)

section \<open>Payloads\<close>

definition encode_capacity :: "u32 \<Rightarrow> u32 \<Rightarrow> u8 list" where
  "encode_capacity bs bc = le32 bs @ le32 bc"

lemma encode_capacity_read:
  "length (encode_capacity bs bc) = 8" "of_le32 (take 4 (encode_capacity bs bc)) = bs"
  "of_le32 (drop 4 (encode_capacity bs bc)) = bc"
  by (simp_all add: encode_capacity_def)

end
