(* ===== verification/Msc_Vfs.thy ===== *)
theory Msc_Vfs imports Diskio begin

text \<open>
  The virtual file system layer of \<open>src/msc_host_vfs.c\<close>: formatting a device, mounting it at a
  path, and unmounting it. FatFs, the ESP-IDF VFS and the drive table are external: each call is
  an event with its result. A C function that leaves by \<open>goto fail\<close> continues with \<open>vfs_fail\<close>.
\<close>

record mount_config =
  format_if_mount_failed :: bool
  max_files :: nat
  allocation_unit_size :: u32

definition zero_vfs :: msc_host_vfs where
  "zero_vfs = \<lparr>vfs_drive = [], vfs_base_path = None, vfs_pdrv = 0\<rparr>"

definition put_vfs :: "ptr \<Rightarrow> msc_host_vfs \<Rightarrow> (sys, unit) prog" where
  "put_vfs p v = modify (\<lambda>s. s\<lparr>vfss := (vfss s)(p \<mapsto> v)\<rparr>)"

definition deref_vfs :: "ptr \<Rightarrow> (sys, msc_host_vfs) prog" where
  "deref_vfs p = (\<lambda>s. if p = NULL then Fault NullDeref
     else case vfss s p of None \<Rightarrow> Fault UseAfterFree | Some v \<Rightarrow> Ret v s)"

lemma put_vfs_run [simp]: "put_vfs p v s = Ret () (s\<lparr>vfss := (vfss s)(p \<mapsto> v)\<rparr>)"
  by (simp add: put_vfs_def)

lemma deref_vfs_Some [simp]: "p \<noteq> NULL \<Longrightarrow> vfss s p = Some v \<Longrightarrow> deref_vfs p s = Ret v s"
  by (simp add: deref_vfs_def)

section \<open>External calls\<close>

definition ff_diskio_get_drive :: "env \<Rightarrow> (sys, esp_err_t \<times> u8) prog" where
  "ff_diskio_get_drive env = ask (r_get_drive env) (\<lambda>(e, p). Fs (EvGetDrive p e))"

definition ff_diskio_unregister :: "u8 \<Rightarrow> (sys, unit) prog" where
  "ff_diskio_unregister p = emit (Fs (EvDiskUnregister p))"

definition esp_vfs_fat_register :: "env \<Rightarrow> string \<Rightarrow> string \<Rightarrow> nat \<Rightarrow> (sys, esp_err_t \<times> ptr) prog" where
  "esp_vfs_fat_register env path drv files = ask (\<lambda>hs. r_vfs_register env hs path drv files)
     (\<lambda>(e, fs). Fs (EvVfsRegister path drv files e))"

definition esp_vfs_fat_unregister_path :: "string \<Rightarrow> (sys, unit) prog" where
  "esp_vfs_fat_unregister_path path = emit (Fs (EvVfsUnregister path))"

definition f_mount :: "env \<Rightarrow> ptr \<Rightarrow> string \<Rightarrow> nat \<Rightarrow> (sys, fresult) prog" where
  "f_mount env fs drv opt = ask (\<lambda>hs. r_mount env hs drv opt) (\<lambda>r. Fs (EvMount fs drv opt r))"

definition f_unmount :: "string \<Rightarrow> (sys, unit) prog" where
  "f_unmount drv = emit (Fs (EvUnmount drv))"

definition f_mkfs :: "env \<Rightarrow> string \<Rightarrow> nat \<Rightarrow> (sys, fresult) prog" where
  "f_mkfs env drv cluster = ask (\<lambda>hs. r_mkfs env hs drv cluster) (\<lambda>r. Fs (EvMkfs drv cluster r))"

definition free_ptr :: "ptr \<Rightarrow> (sys, unit) prog" where
  "free_ptr p = emit (Os (EvFree p))"

section \<open>Formatting\<close>

text \<open>\<open>size_t\<close> has 32 bits on the target, so the product wraps.\<close>

definition cluster_size :: "u32 \<Rightarrow> u32 \<Rightarrow> u32" where
  "cluster_size sector allocation = min (max allocation sector) (128 * sector)"

definition msc_format_storage :: "env \<Rightarrow> u32 \<Rightarrow> u32 \<Rightarrow> string \<Rightarrow> (sys, esp_err_t) prog" where
  "msc_format_storage env sector allocation drv = bind (calloc_ptr env) (\<lambda>workbuf.
     if workbuf = NULL then return ESP_ERR_NO_MEM else
     bind (f_mkfs env drv (unat (cluster_size sector allocation))) (\<lambda>err.
       if err \<noteq> FR_OK then then_do (free_ptr workbuf) (return ESP_ERR_MSC_FORMAT_FAILED)
       else then_do (free_ptr workbuf) (return ESP_OK)))"

definition msc_host_vfs_format :: "env \<Rightarrow> ptr \<Rightarrow> mount_config option \<Rightarrow> ptr \<Rightarrow> (sys, esp_err_t) prog" where
  "msc_host_vfs_format env device mount_config vfs_handle =
     (if device = NULL then return ESP_ERR_INVALID_ARG else
      case mount_config of None \<Rightarrow> return ESP_ERR_INVALID_ARG | Some cfg \<Rightarrow>
      if vfs_handle = NULL then return ESP_ERR_INVALID_ARG else
      bind (deref_dev device) (\<lambda>d. bind (deref_vfs vfs_handle) (\<lambda>v.
        msc_format_storage env (block_size (disk d)) (allocation_unit_size cfg) (vfs_drive v))))"

section \<open>Mounting\<close>

definition dealloc_msc_vfs :: "ptr \<Rightarrow> (sys, unit) prog" where
  "dealloc_msc_vfs vfs = bind (deref_vfs vfs) (\<lambda>v.
     then_do (case vfs_base_path v of None \<Rightarrow> return () | Some (p, _) \<Rightarrow> free_ptr p)
    (then_do (free_ptr vfs) (modify (\<lambda>s. s\<lparr>vfss := (vfss s)(vfs := None)\<rparr>))))"

definition drive_name :: "u8 \<Rightarrow> string" where
  "drive_name pdrv = [char_of (48 + unat pdrv), CHR '':'']"

text \<open>
  The label \<open>fail\<close>: the drive number if the disk layer was registered, the \<open>FATFS\<close> pointer, the
  mount path, the block of the mount and the error to return.
\<close>

definition vfs_fail ::
    "u8 option \<Rightarrow> ptr \<Rightarrow> string \<Rightarrow> ptr \<Rightarrow> esp_err_t \<Rightarrow> (sys, esp_err_t \<times> ptr option) prog" where
  "vfs_fail registered fs base_path vfs ret =
     then_do (case registered of None \<Rightarrow> return () | Some pdrv \<Rightarrow> ff_diskio_unregister pdrv)
    (then_do (case registered of None \<Rightarrow> return ()
                | Some pdrv \<Rightarrow> if fs \<noteq> NULL then f_unmount (drive_name pdrv) else return ())
    (then_do (esp_vfs_fat_unregister_path base_path)
    (then_do (dealloc_msc_vfs vfs) (return (ret, None)))))"

text \<open>\<open>f_mount\<close>, and formatting and mounting again if that is allowed (lines 115 to 125).\<close>

definition mount_volume ::
    "env \<Rightarrow> u32 \<Rightarrow> mount_config \<Rightarrow> ptr \<Rightarrow> string \<Rightarrow> (sys, esp_err_t) prog" where
  "mount_volume env sector cfg fs drv = bind (f_mount env fs drv 1) (\<lambda>fresult.
     if fresult \<noteq> FR_OK then
       if format_if_mount_failed cfg \<and> (fresult = FR_NO_FILESYSTEM \<or> fresult = FR_INT_ERR) then
         on_error (msc_format_storage env sector (allocation_unit_size cfg) drv) return
        (bind (f_mount env fs drv 0) (\<lambda>r.
           if r = FR_OK then return ESP_OK else return ESP_ERR_MSC_MOUNT_FAILED))
       else return ESP_ERR_MSC_MOUNT_FAILED
     else return ESP_OK)"

definition msc_host_vfs_register ::
    "env \<Rightarrow> ptr \<Rightarrow> string option \<Rightarrow> mount_config option \<Rightarrow> ptr \<Rightarrow> (sys, esp_err_t \<times> ptr option) prog" where
  "msc_host_vfs_register env device base_path mount_config vfs_handle =
     (if device = NULL then return (ESP_ERR_INVALID_ARG, None) else
      case base_path of None \<Rightarrow> return (ESP_ERR_INVALID_ARG, None) | Some path \<Rightarrow>
      case mount_config of None \<Rightarrow> return (ESP_ERR_INVALID_ARG, None) | Some cfg \<Rightarrow>
      if vfs_handle = NULL then return (ESP_ERR_INVALID_ARG, None) else
      bind (deref_dev device) (\<lambda>d.
      bind (calloc_ptr env) (\<lambda>vfs.
      if vfs = NULL then return (ESP_ERR_NO_MEM, None) else
      then_do (put_vfs vfs zero_vfs)
     (bind (ff_diskio_get_drive env) (\<lambda>(e, pdrv).
      if e \<noteq> ESP_OK then vfs_fail None NULL path vfs e else
      then_do (ff_diskio_register_msc pdrv device)
     (then_do (put_vfs vfs (zero_vfs\<lparr>vfs_drive := drive_name pdrv\<rparr>))
     (bind (calloc_ptr env) (\<lambda>copy.
      if copy = NULL then vfs_fail (Some pdrv) NULL path vfs ESP_ERR_NO_MEM else
      then_do (put_vfs vfs \<lparr>vfs_drive = drive_name pdrv, vfs_base_path = Some (copy, path), vfs_pdrv = pdrv\<rparr>)
     (bind (esp_vfs_fat_register env path (drive_name pdrv) (max_files cfg)) (\<lambda>(e, fs).
      if e \<noteq> ESP_OK then vfs_fail (Some pdrv) fs path vfs e else
      bind (mount_volume env (block_size (disk d)) cfg fs (drive_name pdrv)) (\<lambda>e.
      if e \<noteq> ESP_OK then vfs_fail (Some pdrv) fs path vfs e
      else return (ESP_OK, Some vfs))))))))))))"

definition msc_host_vfs_unregister :: "env \<Rightarrow> ptr \<Rightarrow> (sys, esp_err_t) prog" where
  "msc_host_vfs_unregister env vfs_handle =
     (if vfs_handle = NULL then return ESP_ERR_INVALID_ARG else
      bind (deref_vfs vfs_handle) (\<lambda>vfs.
      then_do (f_unmount (vfs_drive vfs))
     (then_do (ff_diskio_unregister (vfs_pdrv vfs))
     (then_do (case vfs_base_path vfs of None \<Rightarrow> fault NullDeref
                 | Some (_, path) \<Rightarrow> esp_vfs_fat_unregister_path path)
     (then_do (dealloc_msc_vfs vfs_handle) (return ESP_OK))))))"


section \<open>What a mount does\<close>

text \<open>Every block the events allocate is freed in them, and which calls they may contain.\<close>

definition heap_balanced :: "event list \<Rightarrow> bool" where
  "heap_balanced es \<longleftrightarrow> (\<forall>p. p \<noteq> NULL \<and> Os (EvCalloc p) \<in> set es \<longrightarrow> Os (EvFree p) \<in> set es)"

definition formats_when_allowed :: "mount_config \<Rightarrow> event list \<Rightarrow> bool" where
  "formats_when_allowed cfg es \<longleftrightarrow> (\<forall>drv n r. Fs (EvMkfs drv n r) \<in> set es \<longrightarrow> format_if_mount_failed cfg \<and>
     (\<exists>fs. Fs (EvMount fs drv 1 FR_NO_FILESYSTEM) \<in> set es \<or> Fs (EvMount fs drv 1 FR_INT_ERR) \<in> set es))"

definition volume_events :: "event list \<Rightarrow> bool" where
  "volume_events es \<longleftrightarrow> (\<forall>ev\<in>set es. \<forall>x. ev = Fs x \<longrightarrow> (\<exists>fs drv n r. x = EvMount fs drv n r) \<or> (\<exists>drv n r. x = EvMkfs drv n r))"

definition mounts :: "string \<Rightarrow> event list \<Rightarrow> bool" where
  "mounts drv es \<longleftrightarrow> (\<exists>fs n. Fs (EvMount fs drv n FR_OK) \<in> set es)"

lemma mount_volume_run:
  assumes "next_ptr s \<noteq> NULL"
  shows "\<exists>e es n. mount_volume env sector cfg fs drv s = Ret e (s\<lparr>hist := hist s @ es, next_ptr := n\<rparr>) \<and>
    next_ptr s \<le> n \<and> heap_balanced es \<and> formats_when_allowed cfg es \<and> volume_events es \<and> (e = ESP_OK \<longrightarrow> mounts drv es)"
proof -
  let ?r = "r_mount env (hist s) drv 1"
  let ?h1 = "hist s @ [Fs (EvMount fs drv 1 ?r)]"
  let ?h2 = "?h1 @ [Os (EvCalloc (next_ptr s))]"
  let ?k = "r_mkfs env ?h2 drv (unat (cluster_size sector (allocation_unit_size cfg)))"
  let ?h3 = "?h2 @ [Fs (EvMkfs drv (unat (cluster_size sector (allocation_unit_size cfg))) ?k), Os (EvFree (next_ptr s))]"
  note defs = mount_volume_def f_mount_def f_mkfs_def free_ptr_def msc_format_storage_def calloc_ptr_def new_ptr_def
    bind_run then_do_def on_error_def heap_balanced_def formats_when_allowed_def volume_events_def mounts_def
  consider (ok) "?r = FR_OK" | (no) "?r \<noteq> FR_OK" "\<not> (format_if_mount_failed cfg \<and> (?r = FR_NO_FILESYSTEM \<or> ?r = FR_INT_ERR))"
    | (mem) "?r \<noteq> FR_OK" "format_if_mount_failed cfg" "?r = FR_NO_FILESYSTEM \<or> ?r = FR_INT_ERR" "\<not> r_calloc env ?h1"
    | (bad) "?r \<noteq> FR_OK" "format_if_mount_failed cfg" "?r = FR_NO_FILESYSTEM \<or> ?r = FR_INT_ERR" "r_calloc env ?h1" "?k \<noteq> FR_OK"
    | (again) "?r \<noteq> FR_OK" "format_if_mount_failed cfg" "?r = FR_NO_FILESYSTEM \<or> ?r = FR_INT_ERR" "r_calloc env ?h1" "?k = FR_OK"
    by blast
  then show ?thesis
  proof cases
    case ok
    then show ?thesis by (intro exI [of _ "[Fs (EvMount fs drv 1 ?r)]"] exI [of _ "next_ptr s"] exI) (auto simp: defs)
  next
    case no
    then show ?thesis by (intro exI [of _ "[Fs (EvMount fs drv 1 ?r)]"] exI [of _ "next_ptr s"] exI) (auto simp: defs)
  next
    case mem
    then show ?thesis by (intro exI [of _ "[Fs (EvMount fs drv 1 ?r), Os (EvCalloc NULL)]"] exI [of _ "next_ptr s"] exI) (auto simp: defs)
  next
    case bad
    with assms show ?thesis by (intro exI [of _ "drop (length (hist s)) ?h3"] exI [of _ "Suc (next_ptr s)"] exI) (auto simp: defs)
  next
    case again
    with assms show ?thesis
      by (intro exI [of _ "if r_mount env ?h3 drv 0 = FR_OK then ESP_OK else ESP_ERR_MSC_MOUNT_FAILED"]
          exI [of _ "drop (length (hist s)) ?h3 @ [Fs (EvMount fs drv 0 (r_mount env ?h3 drv 0))]"] exI [of _ "Suc (next_ptr s)"])
        (auto simp: defs)
  qed
qed


text \<open>The label \<open>fail\<close> on a mount that is still on the heap.\<close>

definition fail_events :: "u8 option \<Rightarrow> ptr \<Rightarrow> string \<Rightarrow> ptr \<Rightarrow> msc_host_vfs \<Rightarrow> event list" where
  "fail_events registered fs path vfs v =
     (case registered of None \<Rightarrow> [] | Some p \<Rightarrow> Fs (EvDiskUnregister p) # (if fs \<noteq> NULL then [Fs (EvUnmount (drive_name p))] else [])) @
     [Fs (EvVfsUnregister path)] @
     (case vfs_base_path v of None \<Rightarrow> [] | Some (c, _) \<Rightarrow> [Os (EvFree c)]) @ [Os (EvFree vfs)]"

lemma vfs_fail_run:
  assumes "vfs \<noteq> NULL" and "vfss s vfs = Some v"
  shows "vfs_fail registered fs path vfs ret s = Ret (ret, None)
    (s\<lparr>hist := hist s @ fail_events registered fs path vfs v, vfss := (vfss s)(vfs := None)\<rparr>)"
  using assms by (cases registered; cases "vfs_base_path v"; cases "fs = NULL")
    (auto simp: vfs_fail_def fail_events_def ff_diskio_unregister_def f_unmount_def esp_vfs_fat_unregister_path_def
      dealloc_msc_vfs_def free_ptr_def bind_run then_do_def deref_vfs_def)

text \<open>A mounted handle, and the state a mount starts from.\<close>

definition mounted :: "sys \<Rightarrow> ptr \<Rightarrow> ptr \<Rightarrow> string \<Rightarrow> u8 \<Rightarrow> bool" where
  "mounted s vfs dev path pdrv \<longleftrightarrow> vfs \<noteq> NULL \<and> unat pdrv < length (s_disks s) \<and> s_disks s ! unat pdrv = dev \<and>
     (\<exists>copy. vfss s vfs = Some \<lparr>vfs_drive = drive_name pdrv, vfs_base_path = Some (copy, path), vfs_pdrv = pdrv\<rparr>)"

definition drives_exist :: "env \<Rightarrow> sys \<Rightarrow> bool" where
  "drives_exist env s \<longleftrightarrow> (\<forall>h p. r_get_drive env h = (ESP_OK, p) \<longrightarrow> unat p < length (s_disks s))"

definition mount_undone :: "event list \<Rightarrow> bool" where
  "mount_undone es \<longleftrightarrow> heap_balanced es \<and>
     (\<forall>p. Fs (EvDiskRegister p) \<in> set es \<longrightarrow> Fs (EvDiskUnregister p) \<in> set es) \<and>
     (\<forall>path drv n. Fs (EvVfsRegister path drv n ESP_OK) \<in> set es \<longrightarrow> Fs (EvVfsUnregister path) \<in> set es)"

section \<open>Outcomes of a mount\<close>

text \<open>
  What \<open>msc_host_vfs_register\<close> leaves: a handle and a registered disk, or no handle, no block of
  memory and no registration of its own.
\<close>

definition register_outcome ::
    "ptr \<Rightarrow> string \<Rightarrow> mount_config \<Rightarrow> sys \<Rightarrow> esp_err_t \<times> ptr option \<Rightarrow> sys \<Rightarrow> bool" where
  "register_outcome dev path cfg s r t \<longleftrightarrow> devs t = devs s \<and> s_msc_driver t = s_msc_driver s \<and>
     next_ptr s \<le> next_ptr t \<and> (\<exists>es. hist t = hist s @ es \<and> formats_when_allowed cfg es \<and>
      (if fst r = ESP_OK
       then \<exists>vfs pdrv. snd r = Some vfs \<and> mounted t vfs dev path pdrv \<and> vfss s vfs = None \<and>
              (\<forall>q. q \<noteq> vfs \<longrightarrow> vfss t q = vfss s q) \<and> s_disks t = (s_disks s)[unat pdrv := dev] \<and>
              Fs (EvDiskRegister pdrv) \<in> set es \<and> mounts (drive_name pdrv) es
       else snd r = None \<and> vfss t = vfss s \<and> mount_undone es))"

lemma mount_undone_append:
  "volume_events es \<Longrightarrow> heap_balanced es \<Longrightarrow> mount_undone fs \<Longrightarrow> mount_undone (es @ fs)"
  by (fastforce simp: mount_undone_def volume_events_def heap_balanced_def)

lemma formats_append_left:
  "formats_when_allowed cfg es \<Longrightarrow> \<forall>drv n r. Fs (EvMkfs drv n r) \<notin> set xs \<union> set ys \<Longrightarrow> formats_when_allowed cfg (xs @ es @ ys)"
  by (fastforce simp: formats_when_allowed_def)

lemma mkfs_not_fail [simp]: "Fs (EvMkfs drv n r) \<notin> set (fail_events reg fs path vfs v)"
  by (auto simp: fail_events_def split: option.splits)

lemmas register_defs = msc_host_vfs_register_def calloc_ptr_def new_ptr_def ff_diskio_get_drive_def
  esp_vfs_fat_register_def bind_run then_do_def register_run

lemma register_no_block:
  assumes "device \<noteq> NULL" and "devs s device = Some d" and "out \<noteq> NULL" and "\<not> r_calloc env (hist s)"
  shows "\<exists>r t. msc_host_vfs_register env device (Some path) (Some cfg) out s = Ret r t \<and>
    register_outcome device path cfg s r t"
  using assms by (auto simp: register_defs register_outcome_def formats_when_allowed_def mount_undone_def heap_balanced_def)

lemma register_no_drive:
  assumes "device \<noteq> NULL" and "devs s device = Some d" and "out \<noteq> NULL" and "r_calloc env (hist s)"
    and "next_ptr s \<noteq> NULL" and "vfss s (next_ptr s) = None"
    and "r_get_drive env (hist s @ [Os (EvCalloc (next_ptr s))]) = (e, p)" and "e \<noteq> ESP_OK"
  shows "\<exists>r t. msc_host_vfs_register env device (Some path) (Some cfg) out s = Ret r t \<and>
    register_outcome device path cfg s r t"
  using assms by (simp add: register_defs vfs_fail_run [where v = zero_vfs])
    (auto simp: register_outcome_def formats_when_allowed_def mount_undone_def heap_balanced_def fail_events_def
      zero_vfs_def fun_upd_idem)


definition after_drive :: "sys \<Rightarrow> u8 \<Rightarrow> event list" where
  "after_drive s p = [Os (EvCalloc (next_ptr s)), Fs (EvGetDrive p ESP_OK), Fs (EvDiskRegister p)]"

definition mounting :: "env \<Rightarrow> ptr \<Rightarrow> msc_device \<Rightarrow> ptr \<Rightarrow> u8 \<Rightarrow> sys \<Rightarrow> bool" where
  "mounting env device d out p s \<longleftrightarrow> device \<noteq> NULL \<and> devs s device = Some d \<and> out \<noteq> NULL \<and> next_ptr s \<noteq> NULL \<and>
     vfss s (next_ptr s) = None \<and> r_calloc env (hist s) \<and>
     r_get_drive env (hist s @ [Os (EvCalloc (next_ptr s))]) = (ESP_OK, p) \<and> unat p < length (s_disks s)"

lemmas outcome_defs = register_outcome_def formats_when_allowed_def mount_undone_def heap_balanced_def
  fail_events_def zero_vfs_def fun_upd_idem after_drive_def

lemma register_no_copy:
  assumes "mounting env device d out p s" and "\<not> r_calloc env (hist s @ after_drive s p)"
  shows "\<exists>r t. msc_host_vfs_register env device (Some path) (Some cfg) out s = Ret r t \<and>
    register_outcome device path cfg s r t"
  using assms unfolding mounting_def
  by (simp add: register_defs after_drive_def vfs_fail_run [where v = "zero_vfs\<lparr>vfs_drive := drive_name p\<rparr>"])
    (auto simp: outcome_defs)

abbreviation with_copy :: "sys \<Rightarrow> u8 \<Rightarrow> event list" where
  "with_copy s p \<equiv> hist s @ after_drive s p @ [Os (EvCalloc (Suc (next_ptr s)))]"

definition full_vfs :: "sys \<Rightarrow> u8 \<Rightarrow> string \<Rightarrow> msc_host_vfs" where
  "full_vfs s p path = \<lparr>vfs_drive = drive_name p, vfs_base_path = Some (Suc (next_ptr s), path), vfs_pdrv = p\<rparr>"

lemma register_refused:
  assumes "mounting env device d out p s" and "r_calloc env (hist s @ after_drive s p)"
    and "r_vfs_register env (with_copy s p) path (drive_name p) (max_files cfg) = (e, fs)" and "e \<noteq> ESP_OK"
  shows "msc_host_vfs_register env device (Some path) (Some cfg) out s = Ret (e, None)
    (s\<lparr>hist := with_copy s p @ [Fs (EvVfsRegister path (drive_name p) (max_files cfg) e)] @
         fail_events (Some p) fs path (next_ptr s) (full_vfs s p path),
       next_ptr := Suc (Suc (next_ptr s)), s_disks := (s_disks s)[unat p := device]\<rparr>)"
  using assms unfolding mounting_def
  by (simp add: register_defs after_drive_def full_vfs_def [symmetric] vfs_fail_run [where v = "full_vfs s p path"] fun_upd_idem)

definition registered_sys :: "sys \<Rightarrow> u8 \<Rightarrow> ptr \<Rightarrow> string \<Rightarrow> nat \<Rightarrow> sys" where
  "registered_sys s p device path files = s\<lparr>s_disks := (s_disks s)[unat p := device],
     next_ptr := Suc (Suc (next_ptr s)), vfss := (vfss s)(next_ptr s \<mapsto> full_vfs s p path),
     hist := with_copy s p @ [Fs (EvVfsRegister path (drive_name p) files ESP_OK)]\<rparr>"

lemma register_to_mount:
  assumes "mounting env device d out p s" and "r_calloc env (hist s @ after_drive s p)"
    and "r_vfs_register env (with_copy s p) path (drive_name p) (max_files cfg) = (ESP_OK, fs)"
  shows "msc_host_vfs_register env device (Some path) (Some cfg) out s =
    bind (mount_volume env (block_size (disk d)) cfg fs (drive_name p)) (\<lambda>e.
      if e \<noteq> ESP_OK then vfs_fail (Some p) fs path (next_ptr s) e else return (ESP_OK, Some (next_ptr s)))
     (registered_sys s p device path (max_files cfg))"
  using assms unfolding mounting_def
  by (simp add: register_defs after_drive_def registered_sys_def full_vfs_def)

lemma register_at_mount:
  assumes m: "mounting env device d out p s" and "r_calloc env (hist s @ after_drive s p)"
    and "r_vfs_register env (with_copy s p) path (drive_name p) (max_files cfg) = (ESP_OK, fs)"
  shows "\<exists>r t. msc_host_vfs_register env device (Some path) (Some cfg) out s = Ret r t \<and>
    register_outcome device path cfg s r t"
proof -
  let ?s = "registered_sys s p device path (max_files cfg)"
  obtain e es n where v: "mount_volume env (block_size (disk d)) cfg fs (drive_name p) ?s = Ret e (?s\<lparr>hist := hist ?s @ es, next_ptr := n\<rparr>)"
    "next_ptr ?s \<le> n" "heap_balanced es" "formats_when_allowed cfg es" "volume_events es" "e = ESP_OK \<longrightarrow> mounts (drive_name p) es"
    using mount_volume_run [of ?s env "block_size (disk d)" cfg fs "drive_name p"] by (auto simp: registered_sys_def)
  note run = register_to_mount [OF assms]
  show ?thesis
  proof (cases "e = ESP_OK")
    case True
    with v run m show ?thesis
      by (fastforce simp: register_outcome_def registered_sys_def mounted_def full_vfs_def mounting_def after_drive_def
          mounts_def formats_when_allowed_def)
  next
    case False
    have f: "vfss (?s\<lparr>hist := hist ?s @ es, next_ptr := n\<rparr>) (next_ptr s) = Some (full_vfs s p path)"
      by (simp add: registered_sys_def)
    let ?fe = "fail_events (Some p) fs path (next_ptr s) (full_vfs s p path)"
    let ?all = "after_drive s p @ [Os (EvCalloc (Suc (next_ptr s))), Fs (EvVfsRegister path (drive_name p) (max_files cfg) ESP_OK)] @ es @ ?fe"
    have "mount_undone ?all"
      using v(3,5) by (auto simp: mount_undone_def after_drive_def fail_events_def full_vfs_def heap_balanced_def volume_events_def)
    moreover have "formats_when_allowed cfg ?all"
      using formats_append_left [OF v(4), of "after_drive s p @ [Os (EvCalloc (Suc (next_ptr s))), Fs (EvVfsRegister path (drive_name p) (max_files cfg) ESP_OK)]" ?fe]
      by (simp add: after_drive_def)
    ultimately show ?thesis using v(1,2) run m False vfs_fail_run [OF _ f, of "Some p" fs path e]
      by (auto simp: register_outcome_def registered_sys_def mounting_def fun_upd_idem)
  qed
qed

lemma register_cases:
  assumes "device \<noteq> NULL" and "devs s device = Some d" and "out \<noteq> NULL" and "next_ptr s \<noteq> NULL"
    and "vfss s (next_ptr s) = None" and "drives_exist env s"
  shows "\<exists>r t. msc_host_vfs_register env device (Some path) (Some cfg) out s = Ret r t \<and>
    register_outcome device path cfg s r t"
proof (cases "r_calloc env (hist s)")
  case False
  with assms register_no_block show ?thesis by blast
next
  case block: True
  obtain e p where g: "r_get_drive env (hist s @ [Os (EvCalloc (next_ptr s))]) = (e, p)" by fastforce
  show ?thesis
  proof (cases "e = ESP_OK")
    case False
    with assms block g register_no_drive show ?thesis by blast
  next
    case True
    with assms block g have m: "mounting env device d out p s" by (simp add: mounting_def drives_exist_def)
    obtain e' fs where r: "r_vfs_register env (with_copy s p) path (drive_name p) (max_files cfg) = (e', fs)" by fastforce
    show ?thesis
    proof (cases "r_calloc env (hist s @ after_drive s p)")
      case False
      with m register_no_copy show ?thesis by blast
    next
      case copy: True
      show ?thesis
      proof (cases "e' = ESP_OK")
        case True
        with m copy r register_at_mount show ?thesis by blast
      next
        case False
        with m register_refused [OF m copy r] show ?thesis
          by (auto simp: outcome_defs full_vfs_def mounting_def)
      qed
    qed
  qed
qed

lemma unregister_run:
  assumes "vfss s vfs = Some v" and "vfs \<noteq> NULL" and "vfs_base_path v = Some (copy, path)"
  shows "msc_host_vfs_unregister env vfs s = Ret ESP_OK
    (s\<lparr>hist := hist s @ [Fs (EvUnmount (vfs_drive v)), Fs (EvDiskUnregister (vfs_pdrv v)), Fs (EvVfsUnregister path),
         Os (EvFree copy), Os (EvFree vfs)], vfss := (vfss s)(vfs := None)\<rparr>)"
  using assms by (simp add: msc_host_vfs_unregister_def ff_diskio_unregister_def f_unmount_def esp_vfs_fat_unregister_path_def
      dealloc_msc_vfs_def free_ptr_def bind_run then_do_def deref_vfs_def)

lemma cluster_size_bounds:
  assumes "0 < sector" and "sector < 2 ^ 25"
  shows "sector \<le> cluster_size sector allocation \<and> cluster_size sector allocation \<le> 128 * sector \<and>
    (sector \<le> allocation \<and> allocation \<le> 128 * sector \<longrightarrow> cluster_size sector allocation = allocation)"
proof -
  have "unat sector < 2 ^ 25" using assms(2) by (simp add: word_less_nat_alt)
  then have "unat (128 * sector) = 128 * unat sector" by (simp add: unat_word_ariths)
  then have "sector \<le> 128 * sector" by (simp add: word_le_nat_alt)
  then show ?thesis by (auto simp: cluster_size_def min_def max_def)
qed

end
