(* ===== verification/Usb_Storage.thy ===== *)
theory Usb_Storage imports Msc_Vfs begin

text \<open>
  The mass storage of the firmware (\<open>src/usb_mass_storage/driver.rs\<close>, \<open>block_device.rs\<close> and
  \<open>callback.rs\<close>, with \<open>src/power_switch/tps.rs\<close>): the object that follows the connected drive through the
  events of the C driver, opens it, watches for its absence, and gives the SPI link its blocks.

  A method on \<open>&self\<close> is a program with the object as an argument; one on \<open>&mut self\<close> returns it
  updated. A \<open>Result\<close> is a sum, with the error code on the left. Where an operator of Rust can overflow,
  \<open>build\<close> says whether the build checks it: a debug build panics, a release build wraps.
\<close>

section \<open>Arithmetic of the two builds\<close>

datatype build = Debug | Release

definition add_u32 :: "build \<Rightarrow> u32 \<Rightarrow> u32 \<Rightarrow> ('s, u32) prog" where
  "add_u32 build a b = (if build = Debug \<and> 2 ^ 32 \<le> unat a + unat b then fault Panicked else return (a + b))"

definition mul_u32 :: "build \<Rightarrow> u32 \<Rightarrow> u32 \<Rightarrow> ('s, u32) prog" where
  "mul_u32 build a b = (if build = Debug \<and> 2 ^ 32 \<le> unat a * unat b then fault Panicked else return (a * b))"

definition saturating_add :: "u32 \<Rightarrow> u32 \<Rightarrow> u32" where
  "saturating_add a b = (if unat a + unat b < 2 ^ 32 then a + b else 0xFFFFFFFF)"

lemma unat_saturating_add: "unat (saturating_add a b) = min (unat a + unat b) (2 ^ 32 - 1)"
  by (simp add: saturating_add_def unat_word_ariths)

lemma mul_u32_fits [simp]: "unat a * unat b < 2 ^ 32 \<Longrightarrow> mul_u32 build a b s = Ret (a * b) s"
  by (simp add: mul_u32_def)

section \<open>The object\<close>

record usb_mass_storage =
  pending_addr :: int
  retries_left :: int
  ums_handle :: ptr
  ums_vfs :: ptr
  ums_block_size :: u32
  ums_block_count :: u32
  no_device_since :: "nat option"

definition RETRY_COUNT :: int where [simp]: "RETRY_COUNT = 3"
definition DEBUG_VFS :: int where [simp]: "DEBUG_VFS = 0"
definition MNT_PATH :: string where "MNT_PATH = ''/usb''"

definition ums_new :: usb_mass_storage where
  "ums_new = \<lparr>pending_addr = - 1, retries_left = 0, ums_handle = NULL, ums_vfs = NULL, ums_block_size = 0,
     ums_block_count = 0, no_device_since = None\<rparr>"

definition is_mounted :: "usb_mass_storage \<Rightarrow> bool" where
  "is_mounted u \<longleftrightarrow> ums_vfs u \<noteq> NULL"

section \<open>The block device\<close>

datatype block_dev_status = NotPresent | NotReady | Ready

type_synonym 'a rust_result = "esp_err_t + 'a"

definition bd_status :: "nat \<Rightarrow> env \<Rightarrow> usb_mass_storage \<Rightarrow> (sys, block_dev_status) prog" where
  "bd_status depth env u =
     (if ums_handle u = NULL then return NotPresent
      else if ums_block_size u = 0 \<or> ums_block_count u = 0 then return NotReady
      else bind (scsi_cmd_unit_ready (msc_host_reset_recovery depth env) env (ums_handle u)) (\<lambda>err.
        if err = ESP_OK then return Ready else return NotReady))"

definition bd_refresh_capacity ::
    "nat \<Rightarrow> env \<Rightarrow> usb_mass_storage \<Rightarrow> (sys, (u32 \<times> u32) rust_result \<times> usb_mass_storage) prog" where
  "bd_refresh_capacity depth env u =
     (if ums_handle u = NULL then return (Inl ESP_ERR_INVALID_STATE, u)
      else bind (scsi_cmd_read_capacity (msc_host_reset_recovery depth env) env (ums_handle u) 0 0)
        (\<lambda>(err, bs, bc).
          if err \<noteq> ESP_OK then return (Inl err, u)
          else return (Inr (bs, bc), u\<lparr>ums_block_size := bs, ums_block_count := bc\<rparr>)))"

text \<open>What \<open>bd_read_blocks\<close> and \<open>bd_write_blocks\<close> test before they call the driver, with \<open>len\<close> bytes of memory.\<close>

definition bd_check :: "build \<Rightarrow> usb_mass_storage \<Rightarrow> u32 \<Rightarrow> u32 \<Rightarrow> nat \<Rightarrow> (sys, unit rust_result) prog" where
  "bd_check build u lba nblocks len =
     (if ums_handle u = NULL then return (Inl ESP_ERR_INVALID_STATE)
      else if nblocks = 0 then return (Inl ESP_ERR_INVALID_ARG)
      else if ums_block_size u = 0 \<or> ums_block_count u = 0 then return (Inl ESP_ERR_INVALID_STATE)
      else if ums_block_count u < saturating_add lba nblocks then return (Inl ESP_ERR_INVALID_ARG)
      else bind (mul_u32 build nblocks (ums_block_size u)) (\<lambda>need.
        if len \<noteq> unat need then return (Inl ESP_ERR_INVALID_ARG) else return (Inr ())))"

definition bd_read_blocks ::
    "build \<Rightarrow> nat \<Rightarrow> env \<Rightarrow> usb_mass_storage \<Rightarrow> u32 \<Rightarrow> u32 \<Rightarrow> u8 list \<Rightarrow> (sys, unit rust_result \<times> u8 list) prog" where
  "bd_read_blocks build depth env u lba nblocks out =
     bind (bd_check build u lba nblocks (length out)) (\<lambda>c. case c of
       Inl e \<Rightarrow> return (Inl e, out)
     | Inr _ \<Rightarrow> bind (scsi_cmd_read10 (msc_host_reset_recovery depth env) env (ums_handle u) out lba nblocks (ums_block_size u))
         (\<lambda>(err, out). if err = ESP_OK then return (Inr (), out) else return (Inl err, out)))"

definition bd_write_blocks ::
    "build \<Rightarrow> nat \<Rightarrow> env \<Rightarrow> usb_mass_storage \<Rightarrow> u32 \<Rightarrow> u32 \<Rightarrow> u8 list \<Rightarrow> (sys, unit rust_result) prog" where
  "bd_write_blocks build depth env u lba nblocks data =
     bind (bd_check build u lba nblocks (length data)) (\<lambda>c. case c of
       Inl e \<Rightarrow> return (Inl e)
     | Inr _ \<Rightarrow> bind (scsi_cmd_write10 (msc_host_reset_recovery depth env) env (ums_handle u) data lba nblocks (ums_block_size u))
         (\<lambda>err. if err = ESP_OK then return (Inr ()) else return (Inl err)))"

definition bd_flush :: "usb_mass_storage \<Rightarrow> unit rust_result" where
  "bd_flush u = (if ums_handle u = NULL then Inl ESP_ERR_INVALID_STATE else Inr ())"

section \<open>Following the drive\<close>

definition close_device :: "env \<Rightarrow> usb_mass_storage \<Rightarrow> (sys, usb_mass_storage) prog" where
  "close_device env u =
     (if ums_handle u \<noteq> NULL
      then then_do (msc_host_uninstall_device env (ums_handle u)) (return (u\<lparr>ums_handle := NULL\<rparr>))
      else return u)"

definition unmount_vfs :: "env \<Rightarrow> usb_mass_storage \<Rightarrow> (sys, usb_mass_storage) prog" where
  "unmount_vfs env u =
     (if ums_vfs u \<noteq> NULL
      then then_do (msc_host_vfs_unregister env (ums_vfs u)) (return (u\<lparr>ums_vfs := NULL\<rparr>))
      else return u)"

text \<open>
  The mount of a debugging build; the listing of its files, which only logs, is in \<open>File_Listing\<close>. The last
  argument of \<open>msc_host_vfs_register\<close> is the address of a local variable, which is never \<open>NULL\<close>.
\<close>

definition mount_vfs :: "env \<Rightarrow> usb_mass_storage \<Rightarrow> (sys, bool \<times> usb_mass_storage) prog" where
  "mount_vfs env u =
     bind (msc_host_vfs_register env (ums_handle u) (Some MNT_PATH)
         (Some \<lparr>format_if_mount_failed = False, max_files = 8, allocation_unit_size = 8192\<rparr>) 1) (\<lambda>(vfs_ret, vfs_handle).
       if vfs_ret = ESP_OK then return (True, u\<lparr>ums_vfs := (case vfs_handle of None \<Rightarrow> NULL | Some p \<Rightarrow> p)\<rparr>)
       else return (False, u))"

definition handle_raw_event :: "env \<Rightarrow> msc_host_event \<Rightarrow> usb_mass_storage \<Rightarrow> (sys, usb_mass_storage) prog" where
  "handle_raw_event env event u = (case event of
       MSC_DEVICE_CONNECTED addr \<Rightarrow>
         return (u\<lparr>pending_addr := int (unat addr), retries_left := RETRY_COUNT, ums_handle := NULL, ums_vfs := NULL,
           ums_block_size := 0, ums_block_count := 0\<rparr>)
     | MSC_DEVICE_DISCONNECTED _ \<Rightarrow>
         bind (unmount_vfs env u) (\<lambda>u. bind (close_device env u) (\<lambda>u.
           return (u\<lparr>pending_addr := - 1, retries_left := 0, ums_block_size := 0, ums_block_count := 0\<rparr>))))"

definition try_open_and_mount :: "nat \<Rightarrow> env \<Rightarrow> usb_mass_storage \<Rightarrow> (sys, usb_mass_storage) prog" where
  "try_open_and_mount depth env u =
     (if pending_addr u < 0 \<or> retries_left u \<le> 0 then return u else
      bind (msc_host_install_device depth env (of_int (pending_addr u))) (\<lambda>(ret, hdl).
        if ret = ESP_OK then
          bind (bd_refresh_capacity depth env
              (u\<lparr>pending_addr := - 1, retries_left := 0, ums_handle := (case hdl of None \<Rightarrow> NULL | Some p \<Rightarrow> p)\<rparr>)) (\<lambda>(_, u).
            if DEBUG_VFS = 1 then
              bind (mount_vfs env u) (\<lambda>(mounted, u).
                if mounted then return u
                else bind (close_device env u) (\<lambda>u. return (u\<lparr>retries_left := retries_left u - 1\<rparr>)))
            else return u)
        else if ret = ESP_ERR_INVALID_STATE then return (u\<lparr>retries_left := retries_left u - 1\<rparr>)
        else return (u\<lparr>pending_addr := - 1, retries_left := 0\<rparr>)))"

section \<open>Events of the C driver\<close>

text \<open>
  The callback of the driver is \<open>handle_raw_event\<close> on the global object. It is the last thing
  \<open>client_event_cb\<close> does, so the callbacks an event caused are the last events of the history.
\<close>

definition callbacks :: "event list \<Rightarrow> msc_host_event list" where
  "callbacks es = concat (map (\<lambda>e. case e of Os (EvUserCb _ _ ev) \<Rightarrow> [ev] | _ \<Rightarrow> []) es)"

primrec raw_events :: "env \<Rightarrow> msc_host_event list \<Rightarrow> usb_mass_storage \<Rightarrow> (sys, usb_mass_storage) prog" where
  "raw_events env [] u = return u"
| "raw_events env (e # es) u = bind (handle_raw_event env e u) (raw_events env es)"

definition deliver_event :: "env \<Rightarrow> usb_host_client_event \<Rightarrow> usb_mass_storage \<Rightarrow> (sys, usb_mass_storage) prog" where
  "deliver_event env ev u = bind (gets (\<lambda>s. length (hist s))) (\<lambda>n. then_do (client_event_cb env ev)
     (bind (gets (\<lambda>s. callbacks (drop n (hist s)))) (\<lambda>es. raw_events env es u)))"

primrec deliver :: "env \<Rightarrow> usb_host_client_event list \<Rightarrow> usb_mass_storage \<Rightarrow> (sys, usb_mass_storage) prog" where
  "deliver env [] u = return u"
| "deliver env (ev # evs) u = bind (deliver_event env ev u) (deliver env evs)"

text \<open>\<open>msc_host_handle_events\<close> of the driver with this callback.\<close>

definition handle_events_cb :: "env \<Rightarrow> u32 \<Rightarrow> usb_mass_storage \<Rightarrow> (sys, usb_mass_storage) prog" where
  "handle_events_cb env timeout u = bind (gets s_msc_driver) (\<lambda>drv. case drv of
       None \<Rightarrow> return u
     | Some drv \<Rightarrow>
         then_do (put_driver (Some (drv\<lparr>event_handling_started := True\<rparr>)))
        (bind (ask (\<lambda>hs. r_handle_events env hs (client_handle drv) timeout) (\<lambda>(_, e). Host (EvHandleEvents (client_handle drv) timeout e)))
           (\<lambda>(evs, _). bind (deliver env evs u) (\<lambda>u. bind the_driver (\<lambda>drv.
             then_do (if end_client_event_handling drv then emit (Os (EvSemGive (all_events_handled drv))) else return ())
               (return u))))))"

section \<open>Power, and the main loop\<close>

definition EN_BARRE_GPIO :: nat where [simp]: "EN_BARRE_GPIO = 1"

definition tps_new :: "(sys, unit) prog" where
  "tps_new = then_do (emit (Os (EvGpioReset EN_BARRE_GPIO))) (then_do (emit (Os (EvGpioOutput EN_BARRE_GPIO)))
     (emit (Os (EvGpioLevel EN_BARRE_GPIO 0))))"

definition power_cycle_usb :: "bool \<Rightarrow> (sys, unit) prog" where
  "power_cycle_usb tps_initialized =
     (if \<not> tps_initialized then return ()
      else then_do (emit (Os (EvGpioLevel EN_BARRE_GPIO 1)))
       (then_do (emit (Os (EvDelay 2000))) (emit (Os (EvGpioLevel EN_BARRE_GPIO 0)))))"

text \<open>
  The watchdog at the end of \<open>poll\<close>; \<open>clock\<close> is the time in milliseconds, read again after the power
  cycle. \<open>since.elapsed().as_secs()\<close> is in whole seconds.
\<close>

definition watchdog :: "(event list \<Rightarrow> nat) \<Rightarrow> bool \<Rightarrow> usb_mass_storage \<Rightarrow> (sys, usb_mass_storage) prog" where
  "watchdog clock tps u =
     (if ums_handle u = NULL \<and> pending_addr u < 0 then
        bind (gets (\<lambda>s. clock (hist s))) (\<lambda>now. case no_device_since u of
          None \<Rightarrow> return (u\<lparr>no_device_since := Some now\<rparr>)
        | Some since \<Rightarrow>
            if 2 \<le> (now - since) div 1000
            then then_do (power_cycle_usb tps) (bind (gets (\<lambda>s. clock (hist s))) (\<lambda>now.
              return (u\<lparr>no_device_since := Some now\<rparr>)))
            else return u)
      else return (u\<lparr>no_device_since := None\<rparr>))"

definition poll :: "nat \<Rightarrow> env \<Rightarrow> (event list \<Rightarrow> nat) \<Rightarrow> bool \<Rightarrow> usb_mass_storage \<Rightarrow> (sys, usb_mass_storage) prog" where
  "poll depth env clock tps u =
     then_do (emit (Host (EvLibHandleEvents 10)))
    (bind (handle_events_cb env 10 u) (\<lambda>u. bind (try_open_and_mount depth env u) (watchdog clock tps)))"

section \<open>What the block device asks of the driver\<close>

text \<open>
  The sum saturates, so a count of \<open>0xFFFFFFFF\<close> (a drive too large for READ CAPACITY(10)) excludes
  nothing; with any other count, the blocks lie below it.
\<close>

definition range_ok :: "usb_mass_storage \<Rightarrow> u32 \<Rightarrow> u32 \<Rightarrow> bool" where
  "range_ok u lba nblocks \<longleftrightarrow> min (unat lba + unat nblocks) (2 ^ 32 - 1) \<le> unat (ums_block_count u)"

lemma range_ok_iff: "\<not> ums_block_count u < saturating_add lba nblocks \<longleftrightarrow> range_ok u lba nblocks"
  by (auto simp: range_ok_def word_less_nat_alt unat_saturating_add not_less min_le_iff_disj)

lemma range_below: "range_ok u lba n \<Longrightarrow> ums_block_count u \<noteq> 0xFFFFFFFF \<Longrightarrow> unat lba + unat n \<le> unat (ums_block_count u)"
proof -
  assume r: "range_ok u lba n" and "ums_block_count u \<noteq> 0xFFFFFFFF"
  then have "unat (ums_block_count u) \<noteq> unat (0xFFFFFFFF :: u32)" by (metis word_unat_eq_iff)
  moreover have "unat (ums_block_count u) < 2 ^ 32" using unsigned_less [of "ums_block_count u"] by simp
  ultimately show ?thesis using r by (auto simp: range_ok_def min_def split: if_splits)
qed

lemma bd_check_cases:
  "bd_check build u lba nblocks len s = Fault f \<Longrightarrow> f = Panicked \<and> build = Debug"
  "bd_check build u lba nblocks len s = Ret r t \<Longrightarrow> t = s"
  "bd_check build u lba nblocks len s = Ret (Inr ()) t \<Longrightarrow> ums_handle u \<noteq> NULL \<and> nblocks \<noteq> 0 \<and>
     range_ok u lba nblocks \<and> len = unat (nblocks * ums_block_size u)"
  by (auto simp: bd_check_def mul_u32_def bind_run range_ok_iff split: if_splits)

lemma bd_check_ok:
  assumes "ums_handle u \<noteq> NULL" and "0 < nblocks" and "unat lba + unat nblocks \<le> unat (ums_block_count u)"
    and "ums_block_size u \<noteq> 0" and "len = unat nblocks * unat (ums_block_size u)" and "len < 2 ^ 32"
  shows "bd_check build u lba nblocks len s = Ret (Inr ()) s"
proof -
  have "range_ok u lba nblocks" using assms(3) by (simp add: range_ok_def)
  moreover have "ums_block_count u \<noteq> 0" using assms(2,3) by (auto simp: word_less_nat_alt)
  moreover have "unat (nblocks * ums_block_size u) = len" using assms(5,6) by (simp add: unat_word_ariths)
  ultimately show ?thesis using assms by (simp add: bd_check_def bind_run range_ok_iff word_neq_0_conv)
qed

end
