(* ===== verification/Usb_Lifecycle.thy ===== *)
theory Usb_Lifecycle imports Usb_Storage begin

text \<open>
  The life of the drive in the firmware: the invariant that ties the object of \<open>Usb_Storage\<close> to the C driver,
  kept by every call the tasks make, in every order; and what happens to the calls of a task when another
  one closes the drive between the test of the handle and its use.
\<close>

section \<open>Detaching, whatever the host stack answers\<close>

lemma uninstall_device_run:
  assumes "transfer_at s p d x" and "s_msc_driver s = Some drv" and "p \<in> set (devices_tailq drv)"
  shows "\<exists>e es xs ds. msc_host_uninstall_device env p s = Ret e (s\<lparr>hist := hist s @ es, xfers := xs,
      s_msc_driver := Some (drv\<lparr>devices_tailq := remove1 p (devices_tailq drv)\<rparr>), devs := ds\<rparr>) \<and>
    (\<forall>q. q \<noteq> p \<longrightarrow> ds q = devs s q)"
proof -
  let ?drv = "drv\<lparr>devices_tailq := remove1 p (devices_tailq drv)\<rparr>"
  define h0 where "h0 = hist s @ (if transfer_done d \<noteq> NULL then [Os (EvSemDelete (transfer_done d))] else [])"
  define e1 where "e1 = r_interface_release env h0 (client_handle drv) (handle d) (iface_num (config d))"
  define h1 where "h1 = h0 @ [Host (EvRelease (client_handle drv) (handle d) (iface_num (config d)) e1)]"
  define e2 where "e2 = r_device_close env h1 (client_handle drv) (handle d)"
  define h2 where "h2 = h1 @ [Host (EvDeviceClose (client_handle drv) (handle d) e2)]"
  define e3 where "e3 = r_transfer_free env h2 (xfer d)"
  define h3 where "h3 = h2 @ [Usb (EvXferFree (xfer d) e3)]"
  let ?at = "\<lambda>h xs ds. s\<lparr>hist := h, xfers := xs, s_msc_driver := Some ?drv, devs := ds\<rparr>"
  note names = h0_def [symmetric] e1_def [symmetric] h1_def [symmetric] e2_def [symmetric] h2_def [symmetric]
    e3_def [symmetric] h3_def [symmetric]
  have sem: "(if transfer_done d \<noteq> NULL then emit (Os (EvSemDelete (transfer_done d))) else return ())
      (s\<lparr>s_msc_driver := Some ?drv\<rparr>) = Ret () (s\<lparr>hist := h0, s_msc_driver := Some ?drv\<rparr>)"
    by (simp add: h0_def)
  have run: "msc_host_uninstall_device env p s =
      (if e1 \<noteq> ESP_OK then Ret e1 (?at h1 (xfers s) (devs s)) else if e2 \<noteq> ESP_OK then Ret e2 (?at h2 (xfers s) (devs s))
       else if e3 \<noteq> ESP_OK then Ret e3 (?at h3 (xfers s) (devs s))
       else Ret ESP_OK (?at ((h2 @ [Usb (EvXferFree (xfer d) ESP_OK)]) @ [Os (EvFree p)]) ((xfers s)(xfer d := None)) ((devs s)(p := None))))"
    using assms transfer_atD [OF assms(1)] sem
    by (simp add: msc_host_uninstall_device_def msc_deinit_device_def stailq_remove_def put_driver_def
        usb_host_interface_release_def usb_host_device_close_def usb_host_transfer_free_def free_device_def names
        del: if_split append_assoc append.simps)
  have added: "\<exists>es. h = hist s @ es" if "h \<in> {h1, h2, h3, (h2 @ [Usb (EvXferFree (xfer d) ESP_OK)]) @ [Os (EvFree p)]}" for h
    using that by (auto simp: h0_def h1_def h2_def h3_def)
  obtain e h xs ds where u: "msc_host_uninstall_device env p s = Ret e (?at h xs ds)" "\<exists>es. h = hist s @ es"
    "\<forall>q. q \<noteq> p \<longrightarrow> ds q = devs s q"
    using that [where e = e1 and h = h1 and xs = "xfers s" and ds = "devs s"] that [where e = e2 and h = h2 and xs = "xfers s" and ds = "devs s"] that [where e = e3 and h = h3 and xs = "xfers s" and ds = "devs s"]
      that [where e = ESP_OK and h = "(h2 @ [Usb (EvXferFree (xfer d) ESP_OK)]) @ [Os (EvFree p)]" and xs = "(xfers s)(xfer d := None)" and ds = "(devs s)(p := None)"]
      run added by (cases "e1 = ESP_OK"; cases "e2 = ESP_OK"; cases "e3 = ESP_OK") simp_all
  then show ?thesis by blast
qed

section \<open>The invariant\<close>

text \<open>
  Between the calls: pointers not handed out yet are unused, the driver's devices are live and
  distinct, nothing is mounted, a drive that waits to be opened has no handle yet, and a handle is
  that of a device in the list that every command can use.
\<close>

definition driver_ok :: "sys \<Rightarrow> msc_driver \<Rightarrow> bool" where
  "driver_ok s drv \<longleftrightarrow> s_msc_driver s = Some drv \<and> client_handle drv \<noteq> NULL \<and> distinct (devices_tailq drv) \<and>
     (\<forall>p\<in>set (devices_tailq drv). p \<noteq> NULL \<and> p < next_ptr s \<and> devs s p \<noteq> None)"

definition handle_ok :: "sys \<Rightarrow> msc_driver \<Rightarrow> ptr \<Rightarrow> bool" where
  "handle_ok s drv p \<longleftrightarrow> p \<noteq> NULL \<longrightarrow> p \<in> set (devices_tailq drv) \<and> dev_ok p s"

definition storage_ok :: "sys \<Rightarrow> usb_mass_storage \<Rightarrow> bool" where
  "storage_ok s u \<longleftrightarrow> next_ptr s \<noteq> NULL \<and> (\<forall>q\<ge>next_ptr s. devs s q = None) \<and> ums_vfs u = NULL \<and>
     (0 \<le> pending_addr u \<longrightarrow> ums_handle u = NULL) \<and> (\<exists>drv. driver_ok s drv \<and> handle_ok s drv (ums_handle u))"

lemma driver_ok_hist [simp]: "driver_ok (s\<lparr>hist := h\<rparr>) drv = driver_ok s drv"
  by (simp add: driver_ok_def)

lemma handle_ok_hist [simp]: "handle_ok (s\<lparr>hist := h\<rparr>) drv p = handle_ok s drv p"
  by (simp add: handle_ok_def)

lemma storage_ok_hist [simp]: "storage_ok (s\<lparr>hist := h\<rparr>) u = storage_ok s u"
  by (simp add: storage_ok_def)

lemma storage_ok_size [simp]:
  "storage_ok s (u\<lparr>ums_block_size := b, ums_block_count := c\<rparr>) = storage_ok s u"
  "storage_ok s (u\<lparr>no_device_since := n\<rparr>) = storage_ok s u"
  "storage_ok s (u\<lparr>retries_left := k\<rparr>) = storage_ok s u"
  by (simp_all add: storage_ok_def)

lemma handle_ok_NULL [simp]: "handle_ok s drv NULL"
  by (simp add: handle_ok_def)

lemma storage_ok_live: "storage_ok s u \<Longrightarrow> list_live s"
  by (auto simp: storage_ok_def driver_ok_def list_live_def)

lemma storage_ok_usable: "storage_ok s u \<Longrightarrow> ums_handle u \<noteq> NULL \<Longrightarrow> dev_ok (ums_handle u) s"
  by (auto simp: storage_ok_def handle_ok_def)

lemma same_device_None: "same_device a b \<Longrightarrow> a = None \<longleftrightarrow> b = None"
  by (cases a; cases b) (simp_all add: same_device_def)

text \<open>Whatever keeps the driver's data and the handle usable keeps the invariant.\<close>

definition unused_above :: "sys \<Rightarrow> bool" where
  "unused_above s \<longleftrightarrow> next_ptr s \<noteq> NULL \<and> (\<forall>q\<ge>next_ptr s. devs s q = None)"

lemma unused_above_hist [simp]: "unused_above (s\<lparr>hist := h\<rparr>) = unused_above s"
  by (simp add: unused_above_def)

lemma driver_ok_frame:
  assumes "bus_frame s t"
  shows "driver_ok s drv \<Longrightarrow> driver_ok t drv" "unused_above s \<Longrightarrow> unused_above t"
proof -
  have f: "s_msc_driver t = s_msc_driver s" "next_ptr s \<le> next_ptr t" "devs t q = None \<longleftrightarrow> devs s q = None" for q
    using assms same_device_None by (auto simp: bus_frame_def)
  then show "driver_ok s drv \<Longrightarrow> driver_ok t drv" by (fastforce simp: driver_ok_def)
  from f show "unused_above s \<Longrightarrow> unused_above t" unfolding unused_above_def
    by (metis bot_nat_0.extremum_uniqueI le_trans)
qed

lemma storage_ok_frame:
  assumes "storage_ok s u" and "bus_frame s t" and "ums_handle u \<noteq> NULL \<Longrightarrow> dev_ok (ums_handle u) t"
  shows "storage_ok t u"
  using assms(1,3) driver_ok_frame [OF assms(2)]
  unfolding storage_ok_def unused_above_def handle_ok_def by blast

section \<open>The block device keeps it\<close>

abbreviation command_faults :: "fault set" where
  "command_faults \<equiv> {BufferOverflow, StackExhausted}"

lemma command_keeps_storage:
  assumes "keeps bus_frame m" and "maintains command_faults (usable env (ums_handle u)) m" and "host_ok env"
    and "ums_handle u \<noteq> NULL"
  shows "maintains command_faults (\<lambda>s. storage_ok s u) m"
proof (rule runsI)
  fix s assume ok: "storage_ok s u"
  then have "usable env (ums_handle u) s" using assms(3,4) storage_ok_usable by (simp add: usable_def)
  from runs_at [OF assms(2) this] keepsD [OF assms(1)] storage_ok_frame [OF ok]
  show "case m s of Ret a t \<Rightarrow> storage_ok t u | Fault f \<Rightarrow> f \<in> command_faults"
    by (cases "m s") (auto simp: usable_def)
qed

lemma command_keeps_handle:
  assumes "keeps bus_frame m" and "maintains command_faults (usable env (ums_handle u)) m" and "host_ok env"
    and "ums_handle u \<noteq> NULL" and "storage_ok s u"
  shows "case m s of Ret a t \<Rightarrow> storage_ok t u | Fault f \<Rightarrow> f \<in> command_faults"
  by (rule runs_at [OF command_keeps_storage [OF assms(1-4)] assms(5)])

abbreviation recovery_at :: "nat \<Rightarrow> env \<Rightarrow> recovery" where
  "recovery_at depth env \<equiv> msc_host_reset_recovery depth env"

lemmas command_frames = commands.keeps_unit_ready [OF commands.keeps_reset_recovery]
  commands.keeps_read_capacity [OF commands.keeps_reset_recovery]
  commands.keeps_read10 [OF commands.keeps_reset_recovery]
  commands.keeps_write10 [OF commands.keeps_reset_recovery]

lemmas command_safety = safe.I_unit_ready safe.I_read_capacity safe.I_read10 safe.I_write10

lemma bd_status_runs:
  assumes "host_ok env"
  shows "maintains command_faults (\<lambda>s. storage_ok s u) (bd_status depth env u)"
proof (cases "ums_handle u = NULL")
  case False
  then have cmd: "maintains command_faults (\<lambda>s. storage_ok s u) (scsi_cmd_unit_ready (recovery_at depth env) env (ums_handle u))"
    by (intro command_keeps_storage [OF _ _ assms] command_frames command_safety)
  show ?thesis unfolding bd_status_def
    by (intro runs_if runs_return runs_bind [OF cmd]) simp_all
qed (simp add: bd_status_def)

lemma bd_refresh_runs:
  assumes "host_ok env"
  shows "runs command_faults (\<lambda>s. storage_ok s u) (bd_refresh_capacity depth env u) (\<lambda>(r, u') s. storage_ok s u')"
proof (cases "ums_handle u = NULL")
  case True
  then show ?thesis by (simp add: bd_refresh_capacity_def runs_return)
next
  case False
  then have cmd: "maintains command_faults (\<lambda>s. storage_ok s u)
      (scsi_cmd_read_capacity (recovery_at depth env) env (ums_handle u) 0 0)"
    by (intro command_keeps_storage [OF _ _ assms] command_frames command_safety)
  show ?thesis unfolding bd_refresh_capacity_def
    by (intro runs_if runs_return runs_bind [OF cmd] runs_prod) simp_all
qed

text \<open>A read or write that a debug build does not refuse with a panic is a command on a usable device.\<close>

abbreviation block_faults :: "build \<Rightarrow> fault set" where
  "block_faults build \<equiv> {f. f = Panicked \<and> build = Debug} \<union> command_faults"

lemma checked_runs:
  assumes "ums_handle u \<noteq> NULL \<Longrightarrow> maintains command_faults (\<lambda>s. storage_ok s u) m"
  shows "maintains (block_faults build) (\<lambda>s. storage_ok s u)
    (bind (bd_check build u lba n len) (\<lambda>c. case c of Inl e \<Rightarrow> return (f e) | Inr _ \<Rightarrow> m))"
proof (rule runsI)
  fix s assume ok: "storage_ok s u"
  show "case bind (bd_check build u lba n len) (\<lambda>c. case c of Inl e \<Rightarrow> return (f e) | Inr _ \<Rightarrow> m) s of
      Ret r t \<Rightarrow> storage_ok t u | Fault x \<Rightarrow> x \<in> block_faults build"
  proof (cases "bd_check build u lba n len s")
    case (Ret r t)
    then have [simp]: "t = s" by (rule bd_check_cases)
    show ?thesis
    proof (cases r)
      case (Inr x)
      then have "ums_handle u \<noteq> NULL" using bd_check_cases(3) Ret by fastforce
      from runs_at [OF assms [OF this] ok] Ret Inr show ?thesis by (cases "m s") auto
    qed (use Ret ok in simp)
  next
    case (Fault x)
    then show ?thesis using bd_check_cases(1) by simp
  qed
qed

lemma bd_read_runs:
  assumes "host_ok env"
  shows "maintains (block_faults build) (\<lambda>s. storage_ok s u) (bd_read_blocks build depth env u lba n out)"
  unfolding bd_read_blocks_def
proof (rule checked_runs)
  assume "ums_handle u \<noteq> NULL"
  then have cmd: "maintains command_faults (\<lambda>s. storage_ok s u)
      (scsi_cmd_read10 (recovery_at depth env) env (ums_handle u) out lba n (ums_block_size u))"
    by (intro command_keeps_storage [OF _ _ assms] command_frames command_safety)
  show "maintains command_faults (\<lambda>s. storage_ok s u)
      (bind (scsi_cmd_read10 (recovery_at depth env) env (ums_handle u) out lba n (ums_block_size u))
        (\<lambda>(err, out). if err = ESP_OK then return (Inr (), out) else return (Inl err, out)))"
    by (intro runs_bind [OF cmd] runs_prod runs_if runs_return) simp_all
qed

lemma bd_write_runs:
  assumes "host_ok env"
  shows "maintains (block_faults build) (\<lambda>s. storage_ok s u) (bd_write_blocks build depth env u lba n data)"
  unfolding bd_write_blocks_def
proof (rule checked_runs)
  assume "ums_handle u \<noteq> NULL"
  then have cmd: "maintains command_faults (\<lambda>s. storage_ok s u)
      (scsi_cmd_write10 (recovery_at depth env) env (ums_handle u) data lba n (ums_block_size u))"
    by (intro command_keeps_storage [OF _ _ assms] command_frames command_safety)
  show "maintains command_faults (\<lambda>s. storage_ok s u)
      (bind (scsi_cmd_write10 (recovery_at depth env) env (ums_handle u) data lba n (ums_block_size u))
        (\<lambda>err. if err = ESP_OK then return (Inr ()) else return (Inl err)))"
    by (intro runs_bind [OF cmd] runs_if runs_return) simp_all
qed

section \<open>Events and openings keep it\<close>

lemma uninstall_device_keeps:
  assumes ok: "unused_above s" "driver_ok s drv" and p: "p \<in> set (devices_tailq drv)" "dev_ok p s"
  shows "\<exists>e t. msc_host_uninstall_device env p s = Ret e t \<and> unused_above t \<and>
    driver_ok t (drv\<lparr>devices_tailq := remove1 p (devices_tailq drv)\<rparr>)"
proof -
  obtain d x where at: "transfer_at s p d x" using p(2) by (auto elim: dev_okE)
  have "s_msc_driver s = Some drv" using ok(2) by (simp add: driver_ok_def)
  from uninstall_device_run [OF at this p(1), of env] obtain e es xs ds where
    run: "msc_host_uninstall_device env p s = Ret e (s\<lparr>hist := hist s @ es, xfers := xs,
      s_msc_driver := Some (drv\<lparr>devices_tailq := remove1 p (devices_tailq drv)\<rparr>), devs := ds\<rparr>)"
    and ds: "\<forall>q. q \<noteq> p \<longrightarrow> ds q = devs s q" by blast
  let ?t = "s\<lparr>hist := hist s @ es, xfers := xs,
      s_msc_driver := Some (drv\<lparr>devices_tailq := remove1 p (devices_tailq drv)\<rparr>), devs := ds\<rparr>"
  have "driver_ok ?t (drv\<lparr>devices_tailq := remove1 p (devices_tailq drv)\<rparr>)"
    using ok(2) ds by (auto simp: driver_ok_def set_remove1_eq)
  moreover have "unused_above ?t" using ok ds p by (auto simp: unused_above_def driver_ok_def)
  ultimately show ?thesis using run by blast
qed

lemma close_device_runs:
  "runs {} (\<lambda>s. storage_ok s u) (close_device env u) (\<lambda>u' s. u' = u\<lparr>ums_handle := NULL\<rparr> \<and> storage_ok s u')"
proof (rule runsI)
  fix s assume ok: "storage_ok s u"
  show "case close_device env u s of Ret u' t \<Rightarrow> u' = u\<lparr>ums_handle := NULL\<rparr> \<and> storage_ok t u' | Fault f \<Rightarrow> f \<in> {}"
  proof (cases "ums_handle u = NULL")
    case True
    then have "u\<lparr>ums_handle := NULL\<rparr> = u" by simp
    then show ?thesis using True ok by (simp add: close_device_def)
  next
    case False
    with ok obtain drv where "unused_above s" "driver_ok s drv" "ums_handle u \<in> set (devices_tailq drv)" "dev_ok (ums_handle u) s"
      by (auto simp: storage_ok_def handle_ok_def unused_above_def)
    from uninstall_device_keeps [OF this, of env] ok False show ?thesis
      by (auto simp: close_device_def storage_ok_def unused_above_def)
  qed
qed

lemma handle_raw_event_runs: "runs {} (\<lambda>s. storage_ok s u) (handle_raw_event env event u) (\<lambda>u' s. storage_ok s u')"
proof (cases event)
  case (MSC_DEVICE_CONNECTED a)
  then show ?thesis by (auto simp: runs_def handle_raw_event_def storage_ok_def)
next
  case (MSC_DEVICE_DISCONNECTED p)
  show ?thesis
  proof (rule runsI)
    fix s assume ok: "storage_ok s u"
    then have vfs: "unmount_vfs env u = return u" by (simp add: unmount_vfs_def storage_ok_def)
    from runs_at [OF close_device_runs ok, of env] obtain t where
      t: "close_device env u s = Ret (u\<lparr>ums_handle := NULL\<rparr>) t" "storage_ok t (u\<lparr>ums_handle := NULL\<rparr>)"
      by (cases "close_device env u s") auto
    then show "case handle_raw_event env event u s of Ret u' t \<Rightarrow> storage_ok t u' | Fault f \<Rightarrow> f \<in> {}"
      using MSC_DEVICE_DISCONNECTED vfs by (auto simp: handle_raw_event_def storage_ok_def)
  qed
qed

lemma open_device_cases:
  assumes "parser_advances env" and "host_ok env" and ok: "unused_above s" and drv: "driver_ok s drv"
  shows "case msc_host_install_device depth env a s of
      Ret (e, hdl) t \<Rightarrow> unused_above t \<and>
        (if e = ESP_OK then hdl = Some (next_ptr s) \<and> driver_ok t (drv\<lparr>devices_tailq := devices_tailq drv @ [next_ptr s]\<rparr>) \<and>
           handle_ok t (drv\<lparr>devices_tailq := devices_tailq drv @ [next_ptr s]\<rparr>) (next_ptr s)
         else driver_ok t drv)
    | Fault f \<Rightarrow> f \<in> setup_faults"
proof -
  let ?p = "next_ptr s"
  have fresh: "?p \<noteq> NULL" "?p \<notin> set (devices_tailq drv)" "devs s ?p = None"
    and drv': "s_msc_driver s = Some drv" "client_handle drv \<noteq> NULL"
    using ok drv by (auto simp: unused_above_def driver_ok_def)
  note cases = install_device_cases [OF assms(1,2) drv' fresh, of depth a]
  show ?thesis
  proof (cases "msc_host_install_device depth env a s")
    case (Fault f)
    with cases show ?thesis by simp
  next
    case (Ret r t)
    obtain e hdl where r: "r = (e, hdl)" by fastforce
    have same: "\<And>q. q \<noteq> ?p \<Longrightarrow> devs t q = None \<longleftrightarrow> devs s q = None" and grows: "?p \<le> next_ptr t"
      using cases same_device_None by (auto simp: Ret r)
    have old: "q \<noteq> NULL \<and> q < next_ptr t \<and> devs t q \<noteq> None" if "q \<in> set (devices_tailq drv)" for q
    proof -
      from that drv have q: "q \<noteq> NULL" "q < ?p" "devs s q \<noteq> None" by (simp_all add: driver_ok_def)
      then have "devs t q \<noteq> None" using same [of q] by simp
      with q grows show ?thesis by simp
    qed
    have unused: "devs t q = None" if "next_ptr t \<le> q" "q \<noteq> ?p" for q
      using that same grows ok by (auto simp: unused_above_def)
    show ?thesis
    proof (cases "e = ESP_OK")
      case True
      with cases have new: "hdl = Some ?p" "attached_at ?p drv t" "?p < next_ptr t" by (auto simp: Ret r)
      then have "devs t ?p \<noteq> None" by (auto simp: attached_at_def transfer_at_def elim!: dev_okE)
      with True new drv fresh old unused show ?thesis
        by (auto simp: Ret r driver_ok_def handle_ok_def attached_at_def unused_above_def)
    next
      case False
      with cases have "s_msc_driver t = Some drv" "devs t ?p = None" by (auto simp: Ret r)
      with False drv old unused grows fresh show ?thesis by (auto simp: Ret r driver_ok_def unused_above_def)
    qed
  qed
qed

lemma try_open_runs:
  assumes "parser_advances env" and "host_ok env"
  shows "runs setup_faults (\<lambda>s. storage_ok s u) (try_open_and_mount depth env u) (\<lambda>u' s. storage_ok s u')"
proof (rule runsI)
  fix s assume ok: "storage_ok s u"
  then obtain drv where drv: "driver_ok s drv" "unused_above s" by (auto simp: storage_ok_def unused_above_def)
  show "case try_open_and_mount depth env u s of Ret u' t \<Rightarrow> storage_ok t u' | Fault f \<Rightarrow> f \<in> setup_faults"
  proof (cases "pending_addr u < 0 \<or> retries_left u \<le> 0")
    case False
    then have idle: "ums_handle u = NULL" using ok by (simp add: storage_ok_def)
    let ?a = "of_int (pending_addr u) :: u8"
    note cases = open_device_cases [OF assms drv(2,1), of depth ?a]
    show ?thesis
    proof (cases "msc_host_install_device depth env ?a s")
      case (Ret r t)
      obtain e hdl where r: "r = (e, hdl)" by fastforce
      show ?thesis
      proof (cases "e = ESP_OK")
        case True
        let ?u = "u\<lparr>pending_addr := - 1, retries_left := 0, ums_handle := next_ptr s\<rparr>"
        from True cases ok have "storage_ok t ?u" "hdl = Some (next_ptr s)"
          by (auto simp: Ret r storage_ok_def unused_above_def)
        with runs_at [OF bd_refresh_runs [OF assms(2)] this(1), of depth] Ret r True False show ?thesis
          by (cases "bd_refresh_capacity depth env ?u t") (auto simp: try_open_and_mount_def bind_run)
      next
        case failed: False
        then have "storage_ok t (u\<lparr>pending_addr := a, retries_left := k\<rparr>)" "storage_ok t (u\<lparr>retries_left := k\<rparr>)" for a k
          using cases ok idle by (auto simp: Ret r storage_ok_def unused_above_def)
        with Ret r failed False show ?thesis by (simp add: try_open_and_mount_def)
      qed
    qed (use cases False in \<open>simp add: try_open_and_mount_def\<close>)
  qed (use ok in \<open>auto simp: try_open_and_mount_def\<close>)
qed

lemma raw_events_run: "runs {} (\<lambda>s. storage_ok s u) (raw_events env es u) (\<lambda>u' s. storage_ok s u')"
proof (induction es arbitrary: u)
  case Nil
  then show ?case by (simp add: runs_def)
next
  case (Cons e es)
  show ?case unfolding raw_events.simps by (rule runs_bind [OF handle_raw_event_runs Cons.IH])
qed

lemma deliver_event_runs:
  assumes "parser_advances env"
  shows "runs {} (\<lambda>s. storage_ok s u) (deliver_event env ev u) (\<lambda>u' s. storage_ok s u')"
proof (rule runsI)
  fix s assume ok: "storage_ok s u"
  then obtain drv where "s_msc_driver s = Some drv" by (auto simp: storage_ok_def driver_ok_def)
  from client_event_adds [OF assms this storage_ok_live [OF ok], of ev] obtain es where
    run: "client_event_cb env ev s = Ret () (s\<lparr>hist := hist s @ es\<rparr>)" by blast
  have "storage_ok (s\<lparr>hist := hist s @ es\<rparr>) u" using ok by simp
  from runs_at [OF raw_events_run this, of env "callbacks es"]
  show "case deliver_event env ev u s of Ret u' t \<Rightarrow> storage_ok t u' | Fault f \<Rightarrow> f \<in> {}"
    by (simp add: deliver_event_def run)
qed

lemma deliver_runs:
  assumes "parser_advances env"
  shows "runs {} (\<lambda>s. storage_ok s u) (deliver env evs u) (\<lambda>u' s. storage_ok s u')"
proof (induction evs arbitrary: u)
  case Nil
  then show ?case by (simp add: runs_def)
next
  case (Cons ev evs)
  show ?case unfolding deliver.simps by (rule runs_bind [OF deliver_event_runs [OF assms] Cons.IH])
qed

lemma storage_ok_started:
  "storage_ok s u \<Longrightarrow> s_msc_driver s = Some drv \<Longrightarrow>
     storage_ok (s\<lparr>s_msc_driver := Some (drv\<lparr>event_handling_started := b\<rparr>)\<rparr>) u"
  by (fastforce simp: storage_ok_def driver_ok_def handle_ok_def dev_ok_def transfer_at_def)

lemma handle_events_cb_runs:
  assumes "parser_advances env"
  shows "runs {} (\<lambda>s. storage_ok s u) (handle_events_cb env timeout u) (\<lambda>u' s. storage_ok s u')"
proof (rule runsI)
  fix s assume ok: "storage_ok s u"
  then obtain drv where drv: "s_msc_driver s = Some drv" by (auto simp: storage_ok_def driver_ok_def)
  let ?s = "s\<lparr>s_msc_driver := Some (drv\<lparr>event_handling_started := True\<rparr>)\<rparr>"
  obtain evs e where evs: "r_handle_events env (hist s) (client_handle drv) timeout = (evs, e)" by fastforce
  let ?s1 = "?s\<lparr>hist := hist s @ [Host (EvHandleEvents (client_handle drv) timeout e)]\<rparr>"
  have "storage_ok ?s1 u" using storage_ok_started [OF ok drv] by simp
  from runs_at [OF deliver_runs [OF assms] this, of evs] obtain u' t where
    t: "deliver env evs u ?s1 = Ret u' t" "storage_ok t u'" by (cases "deliver env evs u ?s1") auto
  then obtain drv' where "s_msc_driver t = Some drv'" by (auto simp: storage_ok_def driver_ok_def)
  with t drv evs show "case handle_events_cb env timeout u s of Ret u' t \<Rightarrow> storage_ok t u' | Fault f \<Rightarrow> f \<in> {}"
    by (simp add: handle_events_cb_def put_driver_def)
qed

lemma watchdog_runs: "runs {} (\<lambda>s. storage_ok s u) (watchdog clock tps u) (\<lambda>u' s. storage_ok s u')"
  by (rule runsI) (simp add: watchdog_def power_cycle_usb_def then_do_def bind_run split: option.split)

lemma poll_runs:
  assumes "parser_advances env" and "host_ok env"
  shows "runs setup_faults (\<lambda>s. storage_ok s u) (poll depth env clock tps u) (\<lambda>u' s. storage_ok s u')"
proof -
  have start: "runs setup_faults (\<lambda>s. storage_ok s u) (emit (Host (EvLibHandleEvents 10))) (\<lambda>_ s. storage_ok s u)"
    by (rule runsI) simp
  have events: "runs setup_faults (\<lambda>s. storage_ok s u) (handle_events_cb env 10 u) (\<lambda>u' s. storage_ok s u')"
    by (rule runs_weaken [OF handle_events_cb_runs [OF assms(1)]]) auto
  have watch: "runs setup_faults (\<lambda>s. storage_ok s u) (watchdog clock tps u) (\<lambda>u' s. storage_ok s u')" for u
    by (rule runs_weaken [OF watchdog_runs]) auto
  show ?thesis unfolding poll_def
    by (rule runs_then_do [OF start runs_bind [OF events runs_bind [OF try_open_runs [OF assms] watch]]])
qed

section \<open>Every order of calls\<close>

text \<open>
  The tasks of the firmware: the main loop polls, the background task of the C driver delivers events,
  and the SPI task asks for the status, the capacity and the blocks. A step is one whole call.
\<close>

inductive firmware_step :: "env \<Rightarrow> nat \<Rightarrow> (event list \<Rightarrow> nat) \<Rightarrow> build \<Rightarrow> sys \<times> usb_mass_storage \<Rightarrow> sys \<times> usb_mass_storage \<Rightarrow> bool"
  for env depth clock build where
  fs_poll: "poll depth env clock tps u s = Ret u' t \<Longrightarrow> firmware_step env depth clock build (s, u) (t, u')"
| fs_event: "deliver_event env ev u s = Ret u' t \<Longrightarrow> firmware_step env depth clock build (s, u) (t, u')"
| fs_status: "bd_status depth env u s = Ret r t \<Longrightarrow> firmware_step env depth clock build (s, u) (t, u)"
| fs_refresh: "bd_refresh_capacity depth env u s = Ret (r, u') t \<Longrightarrow> firmware_step env depth clock build (s, u) (t, u')"
| fs_read: "bd_read_blocks build depth env u lba n out s = Ret r t \<Longrightarrow> firmware_step env depth clock build (s, u) (t, u)"
| fs_write: "bd_write_blocks build depth env u lba n data s = Ret w t \<Longrightarrow> firmware_step env depth clock build (s, u) (t, u)"

lemma storage_ok_step:
  assumes "firmware_step env depth clock build x y" and "parser_advances env" and "host_ok env"
  shows "storage_ok (fst x) (snd x) \<Longrightarrow> storage_ok (fst y) (snd y)"
  using assms(1)
proof cases
  case (fs_poll tps u s u' t)
  then show "storage_ok (fst x) (snd x) \<Longrightarrow> ?thesis" using runs_RetD [OF poll_runs [OF assms(2,3)]] by simp
next
  case (fs_event ev u s u' t)
  then show "storage_ok (fst x) (snd x) \<Longrightarrow> ?thesis" using runs_RetD [OF deliver_event_runs [OF assms(2)]] by simp
next
  case (fs_status u s r t)
  then show "storage_ok (fst x) (snd x) \<Longrightarrow> ?thesis" using runs_RetD [OF bd_status_runs [OF assms(3)]] by simp
next
  case (fs_refresh u s r u' t)
  then show "storage_ok (fst x) (snd x) \<Longrightarrow> ?thesis" using runs_RetD [OF bd_refresh_runs [OF assms(3)]] by fastforce
next
  case (fs_read u lba n out s r t)
  then show "storage_ok (fst x) (snd x) \<Longrightarrow> ?thesis" using runs_RetD [OF bd_read_runs [OF assms(3)]] by simp
next
  case (fs_write u lba n data s w t)
  then show "storage_ok (fst x) (snd x) \<Longrightarrow> ?thesis" using runs_RetD [OF bd_write_runs [OF assms(3)]] by simp
qed

text \<open>After the start of the firmware: the driver is installed and has no device.\<close>

definition booted :: "sys \<Rightarrow> bool" where
  "booted s \<longleftrightarrow> next_ptr s \<noteq> NULL \<and> (\<forall>q\<ge>next_ptr s. devs s q = None) \<and>
     (\<exists>drv. s_msc_driver s = Some drv \<and> client_handle drv \<noteq> NULL \<and> devices_tailq drv = [])"

lemma storage_ok_booted: "booted s \<Longrightarrow> storage_ok s ums_new"
  by (auto simp: booted_def storage_ok_def ums_new_def driver_ok_def)

lemma storage_ok_reachable:
  assumes "(firmware_step env depth clock build)\<^sup>*\<^sup>* (s0, ums_new) y" and "booted s0" and "parser_advances env" and "host_ok env"
  shows "storage_ok (fst y) (snd y)"
  using assms(1)
proof (induction rule: rtranclp_induct)
  case base
  then show ?case using assms(2) by (simp add: storage_ok_booted)
next
  case (step y z)
  then show ?case using storage_ok_step assms(3,4) by blast
qed

definition faults_in :: "fault set \<Rightarrow> ('a, 's) outcome \<Rightarrow> bool" where
  "faults_in F r \<longleftrightarrow> (case r of Ret _ _ \<Rightarrow> True | Fault f \<Rightarrow> f \<in> F)"

lemma faults_in_runs: "runs F P m Q \<Longrightarrow> P s \<Longrightarrow> faults_in F (m s)"
  by (cases "m s") (auto simp: faults_in_def dest: runs_at)

section \<open>Between the test of the handle and its use\<close>

text \<open>
  The SPI task runs on another core. If the drive is disconnected after \<open>bd_check\<close> has found a handle, the
  command that follows uses the device that the event has freed.
\<close>

lemma freed_device_command:
  assumes "devs s p = None" and "p \<noteq> NULL"
  shows "scsi_cmd_read10 recover env p out lba n z s = Fault UseAfterFree"
    and "scsi_cmd_write10 recover env p data lba n z s = Fault UseAfterFree"
  using assms
  by (simp_all add: scsi_cmd_read10_def scsi_cmd_write10_def next_tag_def bot_execute_command_def msc_bulk_transfer_def
      Let_def bind_run deref_dev_None then_do_def)

lemma disconnected_handle_freed:
  assumes ok: "storage_ok s u" and h: "ums_handle u \<noteq> NULL"
    and "\<And>h c q i. r_interface_release env h c q i = ESP_OK" and "\<And>h c q. r_device_close env h c q = ESP_OK"
    and "\<And>h q. r_transfer_free env h q = ESP_OK"
  shows "\<exists>u' t. handle_raw_event env (MSC_DEVICE_DISCONNECTED q) u s = Ret u' t \<and> devs t (ums_handle u) = None"
proof -
  from ok h obtain drv where drv: "driver_ok s drv" "ums_handle u \<in> set (devices_tailq drv)" "dev_ok (ums_handle u) s"
    by (auto simp: storage_ok_def handle_ok_def)
  then obtain d x where at: "transfer_at s (ums_handle u) d x" by (auto elim: dev_okE)
  have "s_msc_driver s = Some drv" using drv(1) by (simp add: driver_ok_def)
  from uninstall_device_ok [where env = env, OF at this drv(2) assms(3-5)] h ok show ?thesis
    by (simp add: handle_raw_event_def unmount_vfs_def close_device_def storage_ok_def)
qed

section \<open>Attempts to open the drive\<close>

definition attempts :: "usb_mass_storage \<Rightarrow> nat" where
  "attempts u = (if pending_addr u < 0 then 0 else nat (retries_left u))"

lemma no_attempt_left: "attempts u = 0 \<Longrightarrow> try_open_and_mount depth env u s = Ret u s"
  by (auto simp: attempts_def try_open_and_mount_def split: if_splits)

lemma refresh_keeps_attempts:
  "bd_refresh_capacity depth env u s = Ret (r, u') t \<Longrightarrow> attempts u' = attempts u"
  by (auto simp: bd_refresh_capacity_def attempts_def prog_Ret split: if_splits)

lemma attempt_counts:
  assumes "0 < attempts u" and "try_open_and_mount depth env u s = Ret u' t"
  shows "attempts u' < attempts u"
  using assms
  by (auto simp: try_open_and_mount_def prog_Ret attempts_def dest!: refresh_keeps_attempts split: if_splits)

text \<open>Polls in a row, as far as they open the drive.\<close>

primrec open_tries :: "nat \<Rightarrow> nat \<Rightarrow> env \<Rightarrow> usb_mass_storage \<Rightarrow> (sys, usb_mass_storage) prog" where
  "open_tries 0 depth env u = return u"
| "open_tries (Suc n) depth env u = bind (try_open_and_mount depth env u) (open_tries n depth env)"

lemma open_tries_count: "open_tries n depth env u s = Ret u' t \<Longrightarrow> attempts u' \<le> attempts u - n"
proof (induction n arbitrary: u s)
  case 0
  then show ?case by simp
next
  case (Suc n)
  then obtain v w where v: "try_open_and_mount depth env u s = Ret v w" "attempts u' \<le> attempts v - n"
    by (fastforce simp: bind_eq_Ret)
  show ?case
  proof (cases "attempts u = 0")
    case True
    then show ?thesis using v no_attempt_left [of u depth env s] by simp
  next
    case False
    then show ?thesis using v attempt_counts [of u depth env s v w] by simp
  qed
qed

text \<open>A drive given up keeps its address: then nothing opens it again, and the watchdog never fires.\<close>

definition given_up :: "usb_mass_storage \<Rightarrow> bool" where
  "given_up u \<longleftrightarrow> 0 \<le> pending_addr u \<and> retries_left u \<le> 0"

lemma given_up_poll:
  assumes "given_up u" and "s_msc_driver s = Some drv" and "\<not> end_client_event_handling drv"
    and "\<And>h c. fst (r_handle_events env h c 10) = []"
  shows "\<exists>es t. poll depth env clock tps u s = Ret (u\<lparr>no_device_since := None\<rparr>) t \<and> hist t = hist s @
      [Host (EvLibHandleEvents 10), Host (EvHandleEvents (client_handle drv) 10 es)] \<and>
    s_msc_driver t = Some (drv\<lparr>event_handling_started := True\<rparr>)"
proof -
  obtain e where "r_handle_events env (hist s @ [Host (EvLibHandleEvents 10)]) (client_handle drv) 10 = ([], e)"
    using assms(4) by (metis prod.collapse)
  then show ?thesis using assms(1-3) no_attempt_left [of u]
    by (simp add: poll_def handle_events_cb_def put_driver_def then_do_def bind_run watchdog_def given_up_def attempts_def)
qed

end
