(* ===== verification/Spi_Link.thy ===== *)
theory Spi_Link imports Spi_Protocol Usb_Lifecycle begin

text \<open>
  The SPI slave of the firmware (\<open>src/spi_link/transport.rs\<close>): the buffers of the link, the responses it
  stages, the transfers it makes with the master, and one round of its loop for every command.

  The master is a parameter: from the history of the link and the bytes the slave puts on the line it gives
  the code of \<open>spi_slave_transmit\<close> and the bytes it sends. The profiling counters and the log are left out.
  A slice that is out of range panics; \<open>usize\<close> has 32 bits.
\<close>

section \<open>The state of the link\<close>

definition RX_LEN :: nat where [simp]: "RX_LEN = HDR_LEN + MAX_PAYLOAD + CRC_LEN"

record spi_bus_config =
  mosi_io_num :: int
  miso_io_num :: int
  sclk_io_num :: int
  max_transfer_sz :: nat

record spi_slave_config =
  spics_io_num :: int
  queue_size :: nat
  spi_mode :: nat

datatype spi_event =
    Spi_Gpio os_event
  | Spi_Init spi_bus_config spi_slave_config esp_err_t
  | Spi_Transfer "u8 list" "u8 list" esp_err_t

type_synonym master = "spi_event list \<Rightarrow> u8 list \<Rightarrow> esp_err_t \<times> u8 list"

record spi_link =
  link_sys :: sys
  link_usb :: "usb_mass_storage option"
  inited :: bool
  resp_len :: nat
  resp_buf :: "u8 list"
  block_buf :: "u8 list"
  rx_dma :: "u8 list"
  tx_dma :: "u8 list"
  wires :: "spi_event list"

text \<open>\<open>SpiLink::new\<close>, in the state the firmware is in, and \<open>DmaBuf::new\<close>, where \<open>heap\<close> says what can be allocated.\<close>

definition spi_new :: "sys \<Rightarrow> usb_mass_storage option \<Rightarrow> spi_link" where
  "spi_new s u = \<lparr>link_sys = s, link_usb = u, inited = False, resp_len = 0, resp_buf = replicate RX_LEN 0,
     block_buf = replicate MAX_PAYLOAD 0, rx_dma = [], tx_dma = [], wires = []\<rparr>"

definition dma_new :: "(nat \<Rightarrow> bool) \<Rightarrow> nat \<Rightarrow> (spi_link, u8 list) prog" where
  "dma_new heap n = then_do (guard Panicked (heap n)) (return (replicate n 0))"

definition wire :: "spi_event \<Rightarrow> (spi_link, unit) prog" where
  "wire e = modify (\<lambda>l. l\<lparr>wires := wires l @ [e]\<rparr>)"

text \<open>A program of the storage object, run by the SPI task.\<close>

definition with_sys :: "(sys, 'a) prog \<Rightarrow> (spi_link, 'a) prog" where
  "with_sys m = (\<lambda>l. case m (link_sys l) of Ret a s \<Rightarrow> Ret a (l\<lparr>link_sys := s\<rparr>) | Fault f \<Rightarrow> Fault f)"

definition put_usb :: "usb_mass_storage \<Rightarrow> (spi_link, unit) prog" where
  "put_usb u = modify (\<lambda>l. l\<lparr>link_usb := Some u\<rparr>)"

definition put_slice :: "nat \<Rightarrow> 'a list \<Rightarrow> 'a list \<Rightarrow> 'a list" where
  "put_slice i xs buf = take i buf @ xs @ drop (i + length xs) buf"

definition in_bounds :: "nat \<Rightarrow> u8 list \<Rightarrow> (spi_link, unit) prog" where
  "in_bounds n buf = guard Panicked (n \<le> length buf)"

section \<open>Start\<close>

definition PIN_MOSI :: int where [simp]: "PIN_MOSI = 12"
definition PIN_MISO :: int where [simp]: "PIN_MISO = 13"
definition PIN_SCLK :: int where [simp]: "PIN_SCLK = 14"
definition PIN_CS :: int where [simp]: "PIN_CS = 21"
definition PIN_READY :: nat where [simp]: "PIN_READY = 47"

definition spi_init :: "(spi_event list \<Rightarrow> esp_err_t) \<Rightarrow> (spi_link, unit rust_result) prog" where
  "spi_init initialize =
     then_do (wire (Spi_Gpio (EvGpioReset PIN_READY)))
    (then_do (wire (Spi_Gpio (EvGpioOutput PIN_READY)))
    (then_do (wire (Spi_Gpio (EvGpioLevel PIN_READY 0)))
    (bind (gets (\<lambda>l. initialize (wires l))) (\<lambda>err.
      then_do (wire (Spi_Init
        \<lparr>mosi_io_num = PIN_MOSI, miso_io_num = PIN_MISO, sclk_io_num = PIN_SCLK, max_transfer_sz = RX_LEN\<rparr>
        \<lparr>spics_io_num = PIN_CS, queue_size = 1, spi_mode = 0\<rparr> err))
      (if err \<noteq> ESP_OK then return (Inl err)
       else then_do (modify (\<lambda>l. l\<lparr>inited := True\<rparr>)) (return (Inr ())))))))"

section \<open>Responses\<close>

definition response_header :: "header \<Rightarrow> esp_err_t \<Rightarrow> u32 \<Rightarrow> header" where
  "response_header req e a1 = (response_for req e)\<lparr>hdr_reserved := hdr_reserved req, hdr_arg1 := a1\<rparr>"

definition arm_response_with_arg1 :: "header \<Rightarrow> esp_err_t \<Rightarrow> u32 \<Rightarrow> u8 list \<Rightarrow> (spi_link, unit) prog" where
  "arm_response_with_arg1 req e a1 payload =
     (let hdr = bytes_header (response_header req e a1); max_pay = RX_LEN - HDR_LEN; pay_len = min (length payload) max_pay in
      then_do (modify (\<lambda>l. l\<lparr>resp_buf := put_slice 0 hdr (resp_buf l)\<rparr>))
      (if 0 < pay_len
       then modify (\<lambda>l. l\<lparr>resp_buf := put_slice HDR_LEN (take pay_len payload) (resp_buf l), resp_len := HDR_LEN + pay_len\<rparr>)
       else modify (\<lambda>l. l\<lparr>resp_len := HDR_LEN\<rparr>)))"

definition arm_response :: "header \<Rightarrow> esp_err_t \<Rightarrow> u8 list \<Rightarrow> (spi_link, unit) prog" where
  "arm_response req e payload = arm_response_with_arg1 req e 0 payload"

definition arm_response_from_block_buf :: "header \<Rightarrow> esp_err_t \<Rightarrow> u32 \<Rightarrow> nat \<Rightarrow> (spi_link, unit) prog" where
  "arm_response_from_block_buf req e a1 n =
     (let hdr = bytes_header (response_header req e a1); pay_len = min n MAX_PAYLOAD in
      then_do (modify (\<lambda>l. l\<lparr>resp_buf := put_slice 0 hdr (resp_buf l)\<rparr>))
      (if 0 < pay_len
       then modify (\<lambda>l. let data = take pay_len (block_buf l) in
         l\<lparr>resp_buf := put_slice (HDR_LEN + pay_len) (le32 (spi_crc32 data)) (put_slice HDR_LEN data (resp_buf l)),
           resp_len := HDR_LEN + pay_len + CRC_LEN\<rparr>)
       else modify (\<lambda>l. l\<lparr>resp_len := HDR_LEN\<rparr>)))"

section \<open>Transfers\<close>

definition ready_high :: "(spi_link, unit) prog" where
  "ready_high = wire (Spi_Gpio (EvGpioLevel PIN_READY 1))"

definition ready_low :: "(spi_link, unit) prog" where
  "ready_low = wire (Spi_Gpio (EvGpioLevel PIN_READY 0))"

text \<open>The DMA of a transfer longer than a buffer would run past it.\<close>

definition spi_slave_xfer :: "master \<Rightarrow> nat \<Rightarrow> (spi_link, bool) prog" where
  "spi_slave_xfer master nbytes = (\<lambda>l.
     if length (rx_dma l) < nbytes \<or> length (tx_dma l) < nbytes then Fault DmaOverrun
     else let sent = take nbytes (tx_dma l); (err, got) = master (wires l) sent; received = take nbytes got in
       Ret (err = ESP_OK) (l\<lparr>rx_dma := overwrite received (rx_dma l), wires := wires l @ [Spi_Transfer sent received err]\<rparr>))"

definition send_response :: "master \<Rightarrow> (spi_link, unit) prog" where
  "send_response master = bind (gets id) (\<lambda>l. let n = resp_len l in
     then_do (in_bounds n (tx_dma l)) (then_do (in_bounds n (resp_buf l))
    (then_do (modify (\<lambda>l. l\<lparr>tx_dma := put_slice 0 (take n (resp_buf l)) (tx_dma l)\<rparr>))
    (then_do ready_high (then_do (spi_slave_xfer master n) ready_low)))))"

definition answer :: "master \<Rightarrow> header \<Rightarrow> esp_err_t \<Rightarrow> (spi_link, unit) prog" where
  "answer master req e = then_do (arm_response req e []) (send_response master)"

section \<open>Chunks\<close>

definition checked_mul :: "nat \<Rightarrow> nat \<Rightarrow> nat option" where
  "checked_mul a b = (if a * b < 2 ^ 32 then Some (a * b) else None)"

definition compute_chunk ::
    "build \<Rightarrow> usb_mass_storage \<Rightarrow> u32 \<Rightarrow> u32 \<Rightarrow> u16 \<Rightarrow> ('s, (u32 \<times> u32 \<times> nat) rust_result) prog" where
  "compute_chunk build u lba_start nblocks_total chunk_idx = (let bs = unat (ums_block_size u) in
     if bs = 0 then return (Inl ESP_ERR_INVALID_STATE)
     else if MAX_PAYLOAD < bs then return (Inl ESP_ERR_INVALID_SIZE)
     else if MAX_PAYLOAD mod bs \<noteq> 0 then return (Inl ESP_ERR_INVALID_STATE)
     else case checked_mul (unat nblocks_total) bs of None \<Rightarrow> return (Inl ESP_ERR_INVALID_SIZE) | Some total_bytes \<Rightarrow>
       (case checked_mul (unat chunk_idx) MAX_PAYLOAD of None \<Rightarrow> return (Inl ESP_ERR_INVALID_SIZE) | Some offset_bytes \<Rightarrow>
         if total_bytes \<le> offset_bytes then return (Inl ESP_ERR_INVALID_ARG)
         else let chunk_len = min MAX_PAYLOAD (total_bytes - offset_bytes) in
         if chunk_len mod bs \<noteq> 0 then return (Inl ESP_ERR_INVALID_SIZE)
         else bind (add_u32 build lba_start (of_nat (offset_bytes div bs))) (\<lambda>lba_i.
           let nblocks_i = of_nat (chunk_len div bs); bc = ums_block_count u in
           if bc = 0 then return (Inl ESP_ERR_INVALID_STATE)
           else if 2 ^ 32 \<le> unat lba_i + unat nblocks_i \<or> bc < lba_i + nblocks_i then return (Inl ESP_ERR_INVALID_ARG)
           else return (Inr (lba_i, nblocks_i, chunk_len)))))"

definition refresh_capacity :: "nat \<Rightarrow> env \<Rightarrow> usb_mass_storage \<Rightarrow> (spi_link, (u32 \<times> u32) rust_result \<times> usb_mass_storage) prog" where
  "refresh_capacity depth env u = bind (with_sys (bd_refresh_capacity depth env u)) (\<lambda>(r, u). then_do (put_usb u) (return (r, u)))"

definition ensure_capacity_known :: "nat \<Rightarrow> env \<Rightarrow> usb_mass_storage \<Rightarrow> (spi_link, usb_mass_storage) prog" where
  "ensure_capacity_known depth env u =
     (if ums_block_size u = 0 \<or> ums_block_count u = 0
      then bind (refresh_capacity depth env u) (\<lambda>(_, u). return u) else return u)"

section \<open>The commands\<close>

definition status_byte :: "block_dev_status \<Rightarrow> u8" where
  "status_byte st = (case st of NotPresent \<Rightarrow> 0 | NotReady \<Rightarrow> 1 | Ready \<Rightarrow> 2)"

definition on_get_status :: "nat \<Rightarrow> env \<Rightarrow> master \<Rightarrow> header \<Rightarrow> (spi_link, unit) prog" where
  "on_get_status depth env master req = bind (gets link_usb) (\<lambda>usb.
     bind (case usb of None \<Rightarrow> return [0]
       | Some u \<Rightarrow> bind (with_sys (bd_status depth env u)) (\<lambda>st. return [status_byte st])) (\<lambda>payload.
     then_do (arm_response req ESP_OK payload) (send_response master)))"

definition on_get_capacity :: "nat \<Rightarrow> env \<Rightarrow> master \<Rightarrow> header \<Rightarrow> (spi_link, unit) prog" where
  "on_get_capacity depth env master req = bind (gets link_usb) (\<lambda>usb. case usb of
       None \<Rightarrow> answer master req ESP_ERR_INVALID_STATE
     | Some u \<Rightarrow> bind (refresh_capacity depth env u) (\<lambda>(r, _).
         then_do (case r of
             Inr (bs, bc) \<Rightarrow> (let capacity = encode_capacity bs bc in
               arm_response_with_arg1 req ESP_OK (of_nat (length capacity)) capacity)
           | Inl e \<Rightarrow> arm_response req e [])
         (send_response master)))"

definition on_read :: "build \<Rightarrow> nat \<Rightarrow> env \<Rightarrow> master \<Rightarrow> header \<Rightarrow> (spi_link, unit) prog" where
  "on_read build depth env master req = bind (gets link_usb) (\<lambda>usb. case usb of
       None \<Rightarrow> answer master req ESP_ERR_INVALID_STATE
     | Some u \<Rightarrow> bind (ensure_capacity_known depth env u) (\<lambda>u.
       bind (compute_chunk build u (hdr_arg0 req) (hdr_arg1 req) (hdr_reserved req)) (\<lambda>c. case c of
           Inl e \<Rightarrow> answer master req e
         | Inr (lba_i, nblocks_i, chunk_len) \<Rightarrow>
             bind (gets block_buf) (\<lambda>buf. then_do (in_bounds chunk_len buf)
            (bind (with_sys (bd_read_blocks build depth env u lba_i nblocks_i (take chunk_len buf))) (\<lambda>(res, out).
               then_do (modify (\<lambda>l. l\<lparr>block_buf := overwrite out (block_buf l)\<rparr>))
              (then_do (case res of
                  Inr _ \<Rightarrow> arm_response_from_block_buf req ESP_OK (of_nat chunk_len) chunk_len
                | Inl e \<Rightarrow> arm_response req e [])
               (send_response master))))))))"

text \<open>A write that is refused still takes the frame of a whole payload from the line.\<close>

definition receive_payload :: "master \<Rightarrow> nat \<Rightarrow> (spi_link, bool) prog" where
  "receive_payload master n =
     then_do (modify (\<lambda>l. l\<lparr>tx_dma := replicate (length (tx_dma l)) 0\<rparr>))
    (then_do ready_high (bind (spi_slave_xfer master (n + CRC_LEN)) (\<lambda>ok. then_do ready_low (return ok))))"

definition refuse_write :: "master \<Rightarrow> header \<Rightarrow> esp_err_t \<Rightarrow> (spi_link, unit) prog" where
  "refuse_write master req e = then_do (receive_payload master MAX_PAYLOAD) (answer master req e)"

definition received_crc :: "nat \<Rightarrow> u8 list \<Rightarrow> u32" where
  "received_crc n rx = of_le32 [rx ! n, rx ! (n + 1), rx ! (n + 2), rx ! (n + 3)]"

definition on_write :: "build \<Rightarrow> nat \<Rightarrow> env \<Rightarrow> master \<Rightarrow> header \<Rightarrow> (spi_link, unit) prog" where
  "on_write build depth env master req = bind (gets link_usb) (\<lambda>usb. case usb of
       None \<Rightarrow> refuse_write master req ESP_ERR_INVALID_STATE
     | Some u \<Rightarrow> bind (ensure_capacity_known depth env u) (\<lambda>u.
       bind (compute_chunk build u (hdr_arg0 req) (hdr_arg1 req) (hdr_reserved req)) (\<lambda>c. case c of
           Inl e \<Rightarrow> refuse_write master req e
         | Inr (lba_i, nblocks_i, chunk_len) \<Rightarrow>
             bind (receive_payload master chunk_len) (\<lambda>ok. if \<not> ok then return () else
             bind (gets rx_dma) (\<lambda>rx. then_do (in_bounds (chunk_len + CRC_LEN) rx)
            (if received_crc chunk_len rx \<noteq> spi_crc32 (take chunk_len rx) then answer master req ESP_ERR_INVALID_CRC else
             bind (with_sys (bd_write_blocks build depth env u lba_i nblocks_i (take chunk_len rx))) (\<lambda>res.
               then_do (case res of
                   Inr _ \<Rightarrow> arm_response_with_arg1 req ESP_OK (of_nat chunk_len) []
                 | Inl e \<Rightarrow> arm_response req e [])
               (send_response master))))))))"

definition on_flush :: "master \<Rightarrow> header \<Rightarrow> (spi_link, unit) prog" where
  "on_flush master req = answer master req ESP_OK"

definition dispatch :: "build \<Rightarrow> nat \<Rightarrow> env \<Rightarrow> master \<Rightarrow> header \<Rightarrow> cmd \<Rightarrow> (spi_link, unit) prog" where
  "dispatch build depth env master req c = (case c of
       GetStatus \<Rightarrow> on_get_status depth env master req
     | GetCapacity \<Rightarrow> on_get_capacity depth env master req
     | Read \<Rightarrow> on_read build depth env master req
     | Write \<Rightarrow> on_write build depth env master req
     | Flush \<Rightarrow> on_flush master req)"

section \<open>The loop\<close>

text \<open>One round of the loop of \<open>run\<close>, and \<open>n\<close> rounds of it; \<open>run\<close> itself never returns.\<close>

definition spi_round :: "build \<Rightarrow> nat \<Rightarrow> env \<Rightarrow> master \<Rightarrow> (spi_link, unit) prog" where
  "spi_round build depth env master = bind (spi_slave_xfer master HDR_LEN) (\<lambda>ok. if \<not> ok then return () else
     bind (gets rx_dma) (\<lambda>rx. let req = header_of_bytes (take HDR_LEN rx) in
       if \<not> is_valid req then return ()
       else (case cmd_enum req of
           None \<Rightarrow> answer master req ESP_ERR_INVALID_ARG
         | Some c \<Rightarrow> dispatch build depth env master req c)))"

primrec spi_rounds :: "nat \<Rightarrow> build \<Rightarrow> nat \<Rightarrow> env \<Rightarrow> master \<Rightarrow> (spi_link, unit) prog" where
  "spi_rounds 0 build depth env master = return ()"
| "spi_rounds (Suc n) build depth env master = then_do (spi_round build depth env master) (spi_rounds n build depth env master)"

definition spi_run_start :: "(nat \<Rightarrow> bool) \<Rightarrow> (spi_link, unit) prog" where
  "spi_run_start heap = bind (gets inited) (\<lambda>i. then_do (guard Panicked i)
     (bind (dma_new heap RX_LEN) (\<lambda>rx. bind (dma_new heap RX_LEN) (\<lambda>tx. modify (\<lambda>l. l\<lparr>rx_dma := rx, tx_dma := tx\<rparr>)))))"

section \<open>Buffers\<close>

lemma length_put_slice [simp]: "i + length xs \<le> length buf \<Longrightarrow> length (put_slice i xs buf) = length buf"
  by (simp add: put_slice_def)

lemma take_put_slice: "i + length xs \<le> length buf \<Longrightarrow> take (i + length xs) (put_slice i xs buf) = take i buf @ xs"
  by (simp add: put_slice_def)

lemma take_put_start [simp]: "length xs \<le> length buf \<Longrightarrow> take (length xs) (put_slice 0 xs buf) = xs"
  using take_put_slice [of 0 xs buf] by simp

lemma put_slices: "i + length xs + length ys \<le> length buf \<Longrightarrow>
    put_slice (i + length xs) ys (put_slice i xs buf) = put_slice i (xs @ ys) buf"
  by (simp add: put_slice_def add_ac)

lemma length_header [simp]: "length (bytes_header h) = 16"
  using header_format.enc_width [of h] by simp

text \<open>The buffers have the sizes of the source, and the staged response fits.\<close>

definition buffers_ok :: "spi_link \<Rightarrow> bool" where
  "buffers_ok l \<longleftrightarrow> length (resp_buf l) = RX_LEN \<and> length (block_buf l) = MAX_PAYLOAD \<and> length (rx_dma l) = RX_LEN \<and>
     length (tx_dma l) = RX_LEN \<and> resp_len l \<le> RX_LEN"

definition link_ok :: "spi_link \<Rightarrow> bool" where
  "link_ok l \<longleftrightarrow> buffers_ok l \<and> (\<forall>u. link_usb l = Some u \<longrightarrow> storage_ok (link_sys l) u)"

definition serving :: "usb_mass_storage \<Rightarrow> spi_link \<Rightarrow> bool" where
  "serving u l \<longleftrightarrow> link_ok l \<and> link_usb l = Some u"

lemma serving_ok: "serving u l \<Longrightarrow> link_ok l"
  by (simp add: serving_def)

text \<open>The operations on the buffers keep any property that does not look at them.\<close>

definition same_drive :: "spi_link \<Rightarrow> spi_link \<Rightarrow> bool" where
  "same_drive l m \<longleftrightarrow> link_sys m = link_sys l \<and> link_usb m = link_usb l \<and> (buffers_ok l \<longrightarrow> buffers_ok m)"

lemma same_drive_trans: "same_drive k l \<Longrightarrow> same_drive l m \<Longrightarrow> same_drive k m"
  by (simp add: same_drive_def)

lemma same_drive_keeps: "same_drive l m \<Longrightarrow> serving u l \<Longrightarrow> serving u m" "same_drive l m \<Longrightarrow> link_ok l \<Longrightarrow> link_ok m"
  by (auto simp: same_drive_def serving_def link_ok_def)

text \<open>\<open>stays m\<close>: on buffers of the right sizes, \<open>m\<close> returns and leaves the drive alone.\<close>

definition stays :: "(spi_link, 'a) prog \<Rightarrow> bool" where
  "stays m \<longleftrightarrow> (\<forall>l. buffers_ok l \<longrightarrow> (\<exists>a l'. m l = Ret a l' \<and> same_drive l l'))"

lemma staysD: "stays m \<Longrightarrow> buffers_ok l \<Longrightarrow> \<exists>a l'. m l = Ret a l' \<and> same_drive l l' \<and> buffers_ok l'"
  by (fastforce simp: stays_def same_drive_def)

lemma stays_bind: "stays m \<Longrightarrow> (\<And>a. stays (k a)) \<Longrightarrow> stays (bind m k)"
  unfolding stays_def bind_run by (metis (no_types, lifting) outcome.simps(5) same_drive_def same_drive_trans)

lemma stays_then_do: "stays m \<Longrightarrow> stays k \<Longrightarrow> stays (then_do m k)"
  by (simp add: then_do_def stays_bind)

lemma stays_simple [simp]: "stays (return a)" "stays (gets f)"
  by (simp_all add: stays_def same_drive_def)

lemma stays_if: "(b \<Longrightarrow> stays m) \<Longrightarrow> (\<not> b \<Longrightarrow> stays k) \<Longrightarrow> stays (if b then m else k)"
  by simp

lemma stays_wire [simp]: "stays (wire e)" "stays ready_high" "stays ready_low"
  by (simp_all add: stays_def wire_def same_drive_def buffers_ok_def ready_high_def ready_low_def)

lemma stays_xfer: "n \<le> RX_LEN \<Longrightarrow> stays (spi_slave_xfer master n)"
  by (auto simp: stays_def spi_slave_xfer_def same_drive_def buffers_ok_def Let_def split: prod.split)

lemma stays_arm [simp]: "stays (arm_response_with_arg1 req e a1 payload)" "stays (arm_response req e payload)"
  "stays (arm_response_from_block_buf req e a1 n)"
  by (simp_all add: stays_def arm_response_def arm_response_with_arg1_def arm_response_from_block_buf_def Let_def
      same_drive_def buffers_ok_def min_def)

lemma stays_send [simp]: "stays (send_response master)"
  unfolding stays_def
proof (intro allI impI)
  fix l assume ok: "buffers_ok l"
  let ?m = "l\<lparr>tx_dma := put_slice 0 (take (resp_len l) (resp_buf l)) (tx_dma l)\<rparr>"
  have m: "buffers_ok ?m" "same_drive l ?m" using ok by (auto simp: buffers_ok_def same_drive_def)
  have n: "resp_len l \<le> RX_LEN" using ok by (simp add: buffers_ok_def)
  have "stays (then_do ready_high (then_do (spi_slave_xfer master (resp_len l)) ready_low))"
    by (intro stays_then_do stays_xfer stays_wire n)
  from staysD [OF this m(1)] obtain a l' where
    "then_do ready_high (then_do (spi_slave_xfer master (resp_len l)) ready_low) ?m = Ret a l'" "same_drive ?m l'" by blast
  with ok m(2) n show "\<exists>a l'. send_response master l = Ret a l' \<and> same_drive l l'"
    using same_drive_trans by (auto simp: send_response_def in_bounds_def bind_run then_do_def buffers_ok_def Let_def)
qed

lemma stays_answer [simp]: "stays (answer master req e)"
  by (simp add: answer_def stays_then_do)

lemma stays_receive: "n \<le> MAX_PAYLOAD \<Longrightarrow> stays (receive_payload master n)"
proof -
  assume n: "n \<le> MAX_PAYLOAD"
  have "stays (modify (\<lambda>l. l\<lparr>tx_dma := replicate (length (tx_dma l)) 0\<rparr>))"
    by (simp add: stays_def same_drive_def buffers_ok_def)
  moreover have "stays (spi_slave_xfer master (n + CRC_LEN))" using n by (intro stays_xfer) simp
  ultimately show ?thesis unfolding receive_payload_def
    by (intro stays_then_do stays_bind stays_wire) simp_all
qed

lemma stays_refuse [simp]: "stays (refuse_write master req e)"
  by (simp add: refuse_write_def stays_then_do stays_receive)

lemma stays_runs:
  assumes "stays m"
  shows "runs F (serving u) m (\<lambda>_. serving u)" and "runs F link_ok m (\<lambda>_. link_ok)"
proof -
  have run: "\<exists>a l'. m l = Ret a l' \<and> same_drive l l'" if "link_ok l" for l
    using staysD [OF assms] that unfolding link_ok_def by blast
  show "runs F (serving u) m (\<lambda>_. serving u)"
    using run same_drive_keeps(1) by (intro runsI) (fastforce dest: serving_ok)
  show "runs F link_ok m (\<lambda>_. link_ok)"
    using run same_drive_keeps(2) by (intro runsI) fastforce
qed

section \<open>Every round keeps the link and the drive's object\<close>

lemma with_sys_runs:
  assumes "runs F (\<lambda>s. storage_ok s u) m Q"
  shows "runs F (serving u) (with_sys m) (\<lambda>a l. buffers_ok l \<and> link_usb l = Some u \<and> Q a (link_sys l))"
proof (rule runsI)
  fix l assume l: "serving u l"
  then have "storage_ok (link_sys l) u" by (simp add: serving_def link_ok_def)
  from runs_at [OF assms this] l
  show "case with_sys m l of Ret a l \<Rightarrow> buffers_ok l \<and> link_usb l = Some u \<and> Q a (link_sys l) | Fault f \<Rightarrow> f \<in> F"
    by (cases "m (link_sys l)") (auto simp: with_sys_def serving_def link_ok_def buffers_ok_def)
qed

lemma with_sys_serving:
  assumes "maintains F (\<lambda>s. storage_ok s u) m"
  shows "runs F (serving u) (with_sys m) (\<lambda>_. serving u)"
  by (rule runs_weaken [OF with_sys_runs [OF assms]]) (auto simp: serving_def link_ok_def)

lemma serving_stays: "stays m \<Longrightarrow> runs F (serving u) m (\<lambda>_. link_ok)"
  by (rule runs_weaken [OF stays_runs(1)]) (auto simp: serving_def)

lemma refresh_capacity_runs:
  assumes "host_ok env"
  shows "runs command_faults (serving u) (refresh_capacity depth env u) (\<lambda>(_, u') l. serving u' l)"
  unfolding refresh_capacity_def
proof (rule runs_bind [OF with_sys_runs [OF bd_refresh_runs [OF assms]]])
  fix a :: "(u32 \<times> u32) rust_result \<times> usb_mass_storage"
  show "runs command_faults (\<lambda>l. buffers_ok l \<and> link_usb l = Some u \<and> (case a of (r, u') \<Rightarrow> \<lambda>s. storage_ok s u') (link_sys l))
      (case a of (r, u) \<Rightarrow> then_do (put_usb u) (return (r, u))) (\<lambda>(_, u') l. serving u' l)"
    by (cases a) (auto simp: runs_def then_do_def bind_run put_usb_def serving_def link_ok_def buffers_ok_def)
qed

lemma ensure_capacity_runs:
  assumes "host_ok env"
  shows "runs command_faults (serving u) (ensure_capacity_known depth env u) serving"
  unfolding ensure_capacity_known_def
  by (intro runs_if runs_return runs_bind [OF refresh_capacity_runs [OF assms]])
    (auto simp: runs_def split: prod.split)

text \<open>What \<open>compute_chunk\<close> promises of a chunk it allows.\<close>

lemma compute_chunk_cases:
  "compute_chunk build u a n i s = Fault f \<Longrightarrow> f = Panicked \<and> build = Debug"
  "compute_chunk build u a n i s = Ret r t \<Longrightarrow> t = s"
  "compute_chunk build u a n i s = Ret (Inr (lba, k, m)) t \<Longrightarrow> m \<le> MAX_PAYLOAD"
  by (auto simp: compute_chunk_def Let_def add_u32_def bind_run split: if_splits option.splits)

lemma compute_chunk_runs:
  "runs (block_faults build) (serving u) (compute_chunk build u a n i)
     (\<lambda>r l. serving u l \<and> (\<forall>lba k m. r = Inr (lba, k, m) \<longrightarrow> m \<le> MAX_PAYLOAD))"
proof (rule runsI)
  fix l :: spi_link assume "serving u l"
  then show "case compute_chunk build u a n i l of
      Ret r l \<Rightarrow> serving u l \<and> (\<forall>lba k m. r = Inr (lba, k, m) \<longrightarrow> m \<le> MAX_PAYLOAD) | Fault f \<Rightarrow> f \<in> block_faults build"
    using compute_chunk_cases(1) [of build u a n i l] compute_chunk_cases(2) [of build u a n i l]
      compute_chunk_cases(3) [of build u a n i l]
    by (cases "compute_chunk build u a n i l") auto
qed

abbreviation returns_ok :: "build \<Rightarrow> (spi_link, unit) prog \<Rightarrow> bool" where
  "returns_ok build m \<equiv> runs (block_faults build) link_ok m (\<lambda>_. link_ok)"

lemma runs_usb:
  assumes "runs F link_ok (k None) Q" and "\<And>u. runs F (serving u) (k (Some u)) Q"
  shows "runs F link_ok (bind (gets link_usb) k) Q"
proof (rule runsI)
  fix l assume l: "link_ok l"
  show "case bind (gets link_usb) k l of Ret a t \<Rightarrow> Q a t | Fault f \<Rightarrow> f \<in> F"
  proof (cases "link_usb l")
    case None
    then show ?thesis using runs_at [OF assms(1) l] by (simp add: bind_run)
  next
    case (Some u)
    then have "serving u l" using l by (simp add: serving_def)
    from runs_at [OF assms(2) this] Some show ?thesis by (simp add: bind_run)
  qed
qed

lemma command_runs: "runs command_faults P m Q \<Longrightarrow> runs (block_faults build) P m Q"
  by (erule runs_weaken) auto

lemma get_status_runs:
  assumes "host_ok env"
  shows "returns_ok build (on_get_status depth env master req)"
  unfolding on_get_status_def
proof (rule runs_usb)
  show "returns_ok build (bind (case None of None \<Rightarrow> return [0] | Some u \<Rightarrow> bind (with_sys (bd_status depth env u)) (\<lambda>st. return [status_byte st]))
      (\<lambda>payload. then_do (arm_response req ESP_OK payload) (send_response master)))"
    by (intro stays_runs stays_bind stays_then_do) simp_all
next
  fix u
  have "runs (block_faults build) (serving u) (with_sys (bd_status depth env u)) (\<lambda>_. serving u)"
    by (rule command_runs [OF with_sys_serving [OF bd_status_runs [OF assms]]])
  then have "runs (block_faults build) (serving u) (bind (with_sys (bd_status depth env u)) (\<lambda>st. return [status_byte st])) (\<lambda>_. serving u)"
    by (rule runs_bind) simp
  then have "runs (block_faults build) (serving u) (bind (bind (with_sys (bd_status depth env u)) (\<lambda>st. return [status_byte st]))
      (\<lambda>payload. then_do (arm_response req ESP_OK payload) (send_response master))) (\<lambda>_. link_ok)"
    by (rule runs_bind) (intro serving_stays stays_then_do stays_arm stays_send)
  then show "runs (block_faults build) (serving u) (bind (case Some u of None \<Rightarrow> return [0]
      | Some u \<Rightarrow> bind (with_sys (bd_status depth env u)) (\<lambda>st. return [status_byte st]))
      (\<lambda>payload. then_do (arm_response req ESP_OK payload) (send_response master))) (\<lambda>_. link_ok)"
    by simp
qed

text \<open>An optional response, sent.\<close>

lemma stays_result: "(\<And>e. stays (f e)) \<Longrightarrow> (\<And>a. stays (g a)) \<Longrightarrow> stays (case r of Inl e \<Rightarrow> f e | Inr a \<Rightarrow> g a)"
  by (cases r) simp_all

lemma stays_case_prod: "(\<And>a b. stays (f a b)) \<Longrightarrow> stays (case x of (a, b) \<Rightarrow> f a b)"
  by (cases x) simp

lemma get_capacity_runs:
  assumes "host_ok env"
  shows "returns_ok build (on_get_capacity depth env master req)"
  unfolding on_get_capacity_def
  apply (rule runs_usb; simp only: option.case)
   apply (intro stays_runs stays_answer)
  apply (rule runs_bind [OF command_runs [OF refresh_capacity_runs [OF assms]]])
  apply (rule runs_prod)
  apply (simp only: prod.case)
  apply (intro serving_stays stays_then_do stays_result stays_case_prod stays_send stays_arm)
  apply (simp add: Let_def)
  done

text \<open>The commands that use a chunk: what follows \<open>compute_chunk\<close> may assume that it lies in the buffers.\<close>

lemma chunk_runs:
  assumes "host_ok env" and "\<And>e. stays (refused e)"
    and "\<And>u lba k m. m \<le> MAX_PAYLOAD \<Longrightarrow> runs (block_faults build) (serving u) (go u lba k m) (\<lambda>_. link_ok)"
  shows "runs (block_faults build) (serving u) (bind (ensure_capacity_known depth env u) (\<lambda>u.
      bind (compute_chunk build u a n i) (\<lambda>c. case c of Inl e \<Rightarrow> refused e | Inr (lba, k, m) \<Rightarrow> go u lba k m))) (\<lambda>_. link_ok)"
proof (rule runs_bind [OF command_runs [OF ensure_capacity_runs [OF assms(1)]]], rule runs_bind [OF compute_chunk_runs])
  fix u and c :: "(u32 \<times> u32 \<times> nat) rust_result"
  have go: "runs (block_faults build) (\<lambda>l. serving u l \<and> (\<forall>lba k m. c = Inr (lba, k, m) \<longrightarrow> m \<le> MAX_PAYLOAD))
      (go u lba k m) (\<lambda>_. link_ok)" if "c = Inr (lba, k, m)" for lba k m
    using assms(3) [of m u lba k] that unfolding runs_def by blast
  have "runs (block_faults build) (\<lambda>l. serving u l \<and> (\<forall>lba k m. c = Inr (lba, k, m) \<longrightarrow> m \<le> MAX_PAYLOAD)) (refused e) (\<lambda>_. link_ok)" for e
    by (rule runs_weaken [OF serving_stays [OF assms(2)]]) auto
  then show "runs (block_faults build) (\<lambda>l. serving u l \<and> (\<forall>lba k m. c = Inr (lba, k, m) \<longrightarrow> m \<le> MAX_PAYLOAD))
      (case c of Inl e \<Rightarrow> refused e | Inr (lba, k, m) \<Rightarrow> go u lba k m) (\<lambda>_. link_ok)"
    using go by (cases c) (auto split: prod.split)
qed

lemma in_bounds_runs: "n \<le> length buf \<Longrightarrow> runs F P (in_bounds n buf) (\<lambda>_. P)"
  by (simp add: runs_def in_bounds_def)

lemma read_runs:
  assumes "host_ok env"
  shows "returns_ok build (on_read build depth env master req)"
  unfolding on_read_def
proof (rule runs_usb; simp only: option.case)
  show "returns_ok build (answer master req ESP_ERR_INVALID_STATE)" by (intro stays_runs stays_answer)
next
  fix u
  show "runs (block_faults build) (serving u) (bind (ensure_capacity_known depth env u) (\<lambda>u.
      bind (compute_chunk build u (hdr_arg0 req) (hdr_arg1 req) (hdr_reserved req)) (\<lambda>c. case c of
        Inl e \<Rightarrow> answer master req e
      | Inr (lba_i, nblocks_i, chunk_len) \<Rightarrow>
          bind (gets block_buf) (\<lambda>buf. then_do (in_bounds chunk_len buf)
         (bind (with_sys (bd_read_blocks build depth env u lba_i nblocks_i (take chunk_len buf))) (\<lambda>(res, out).
            then_do (modify (\<lambda>l. l\<lparr>block_buf := overwrite out (block_buf l)\<rparr>))
           (then_do (case res of
               Inr _ \<Rightarrow> arm_response_from_block_buf req ESP_OK (of_nat chunk_len) chunk_len
             | Inl e \<Rightarrow> arm_response req e []) (send_response master)))))))) (\<lambda>_. link_ok)"
  proof (rule chunk_runs [OF assms])
    fix u lba k and m :: nat assume m: "m \<le> MAX_PAYLOAD"
    have tail: "stays (then_do (modify (\<lambda>l. l\<lparr>block_buf := overwrite out (block_buf l)\<rparr>))
        (then_do (case res of Inr _ \<Rightarrow> arm_response_from_block_buf req ESP_OK (of_nat m) m | Inl e \<Rightarrow> arm_response req e [])
          (send_response master)))" for out and res :: "unit rust_result"
      by (intro stays_then_do stays_result stays_arm stays_send) (simp add: stays_def same_drive_def buffers_ok_def)
    have rest: "runs (block_faults build) (serving u)
        (bind (with_sys (bd_read_blocks build depth env u lba k (take m buf))) (\<lambda>(res, out).
          then_do (modify (\<lambda>l. l\<lparr>block_buf := overwrite out (block_buf l)\<rparr>))
         (then_do (case res of Inr _ \<Rightarrow> arm_response_from_block_buf req ESP_OK (of_nat m) m | Inl e \<Rightarrow> arm_response req e [])
           (send_response master)))) (\<lambda>_. link_ok)" for buf
      by (rule runs_bind [OF with_sys_serving [OF bd_read_runs [OF assms]]], rule runs_prod, rule serving_stays [OF tail])
    have start: "runs (block_faults build) (serving u) (gets block_buf) (\<lambda>buf l. m \<le> length buf \<and> serving u l)"
      using m by (auto simp: runs_def serving_def link_ok_def buffers_ok_def)
    show "runs (block_faults build) (serving u) (bind (gets block_buf) (\<lambda>buf. then_do (in_bounds m buf)
        (bind (with_sys (bd_read_blocks build depth env u lba k (take m buf))) (\<lambda>(res, out).
          then_do (modify (\<lambda>l. l\<lparr>block_buf := overwrite out (block_buf l)\<rparr>))
         (then_do (case res of Inr _ \<Rightarrow> arm_response_from_block_buf req ESP_OK (of_nat m) m | Inl e \<Rightarrow> arm_response req e [])
           (send_response master)))))) (\<lambda>_. link_ok)"
      by (rule runs_bind [OF start], rule runs_conj_pre, rule runs_then_do [OF in_bounds_runs rest])
  qed simp
qed

lemma write_runs:
  assumes "host_ok env"
  shows "returns_ok build (on_write build depth env master req)"
  unfolding on_write_def
proof (rule runs_usb; simp only: option.case)
  show "returns_ok build (refuse_write master req ESP_ERR_INVALID_STATE)" by (intro stays_runs stays_refuse)
next
  fix u
  show "runs (block_faults build) (serving u) (bind (ensure_capacity_known depth env u) (\<lambda>u.
      bind (compute_chunk build u (hdr_arg0 req) (hdr_arg1 req) (hdr_reserved req)) (\<lambda>c. case c of
        Inl e \<Rightarrow> refuse_write master req e
      | Inr (lba_i, nblocks_i, chunk_len) \<Rightarrow>
          bind (receive_payload master chunk_len) (\<lambda>ok. if \<not> ok then return () else
          bind (gets rx_dma) (\<lambda>rx. then_do (in_bounds (chunk_len + CRC_LEN) rx)
         (if received_crc chunk_len rx \<noteq> spi_crc32 (take chunk_len rx) then answer master req ESP_ERR_INVALID_CRC else
          bind (with_sys (bd_write_blocks build depth env u lba_i nblocks_i (take chunk_len rx))) (\<lambda>res.
            then_do (case res of Inr _ \<Rightarrow> arm_response_with_arg1 req ESP_OK (of_nat chunk_len) [] | Inl e \<Rightarrow> arm_response req e [])
              (send_response master)))))))) (\<lambda>_. link_ok)"
  proof (rule chunk_runs [OF assms])
    fix u lba k and m :: nat assume m: "m \<le> MAX_PAYLOAD"
    have stored: "runs (block_faults build) (serving u) (bind (with_sys (bd_write_blocks build depth env u lba k (take m rx)))
        (\<lambda>res. then_do (case res of Inr _ \<Rightarrow> arm_response_with_arg1 req ESP_OK (of_nat m) [] | Inl e \<Rightarrow> arm_response req e [])
          (send_response master))) (\<lambda>_. link_ok)" for rx
      by (rule runs_bind [OF with_sys_serving [OF bd_write_runs [OF assms]]])
        (intro serving_stays stays_then_do stays_result stays_arm stays_send)
    have refuse: "runs (block_faults build) (serving u) (answer master req ESP_ERR_INVALID_CRC) (\<lambda>_. link_ok)"
      by (intro serving_stays stays_answer)
    have framed: "runs (block_faults build) (serving u) (gets rx_dma) (\<lambda>rx l. m + CRC_LEN \<le> length rx \<and> serving u l)"
      using m by (auto simp: runs_def serving_def link_ok_def buffers_ok_def)
    show "runs (block_faults build) (serving u) (bind (receive_payload master m) (\<lambda>ok. if \<not> ok then return () else
          bind (gets rx_dma) (\<lambda>rx. then_do (in_bounds (m + CRC_LEN) rx)
         (if received_crc m rx \<noteq> spi_crc32 (take m rx) then answer master req ESP_ERR_INVALID_CRC else
          bind (with_sys (bd_write_blocks build depth env u lba k (take m rx))) (\<lambda>res.
            then_do (case res of Inr _ \<Rightarrow> arm_response_with_arg1 req ESP_OK (of_nat m) [] | Inl e \<Rightarrow> arm_response req e [])
              (send_response master)))))) (\<lambda>_. link_ok)"
      by (rule runs_bind [OF stays_runs(1) [OF stays_receive [OF m]]], rule runs_if, rule runs_return, erule serving_ok,
          rule runs_bind [OF framed], rule runs_conj_pre, rule runs_then_do [OF in_bounds_runs runs_if [OF refuse stored]])
  qed simp
qed

lemma spi_round_runs:
  assumes "host_ok env"
  shows "returns_ok build (spi_round build depth env master)"
proof -
  have go: "returns_ok build (dispatch build depth env master req c)" for req c
    by (cases c) (simp_all only: dispatch_def cmd.case get_status_runs [OF assms] get_capacity_runs [OF assms]
      read_runs [OF assms] write_runs [OF assms] on_flush_def stays_runs stays_answer)
  have served: "returns_ok build (let req = header_of_bytes (take HDR_LEN rx) in
      if \<not> is_valid req then return ()
      else (case cmd_enum req of None \<Rightarrow> answer master req ESP_ERR_INVALID_ARG
        | Some c \<Rightarrow> dispatch build depth env master req c))" for rx
    unfolding Let_def by (rule runs_if, rule runs_return) (auto simp only: go stays_runs stays_answer split: option.split)
  have header: "stays (spi_slave_xfer master HDR_LEN)" by (rule stays_xfer) simp
  show ?thesis unfolding spi_round_def
    by (rule runs_bind [OF stays_runs(2) [OF header]], rule runs_if, rule runs_return, assumption,
        rule runs_bind [OF maintains_gets served])
qed

lemma spi_rounds_run:
  assumes "host_ok env"
  shows "returns_ok build (spi_rounds n build depth env master)"
proof (induction n)
  case 0
  show ?case unfolding spi_rounds.simps by (rule runs_return)
next
  case (Suc n)
  show ?case unfolding spi_rounds.simps by (rule runs_then_do [OF spi_round_runs [OF assms] Suc])
qed

end
