(* ===== verification/Spi_Store.thy ===== *)
theory Spi_Store imports Ram_Disk Spi_Link begin

text \<open>
  What the SPI link makes of a drive: the chunks of a request are exactly its blocks, and a master that
  reads or writes a request chunk by chunk reads and writes the blocks of the drive's store.
\<close>

section \<open>The chunks of a request\<close>

text \<open>
  With blocks of \<open>z\<close> bytes a chunk has at most \<open>per_chunk z\<close> blocks; chunk \<open>i\<close> of a request for \<open>n\<close> blocks
  begins \<open>i * per_chunk z\<close> blocks after its start.
\<close>

definition per_chunk :: "nat \<Rightarrow> nat" where
  "per_chunk z = MAX_PAYLOAD div z"

definition chunk_blocks :: "nat \<Rightarrow> nat \<Rightarrow> nat \<Rightarrow> nat" where
  "chunk_blocks z n i = min (per_chunk z) (n - i * per_chunk z)"

definition sizes_ok :: "nat \<Rightarrow> bool" where
  "sizes_ok z \<longleftrightarrow> 0 < z \<and> z dvd MAX_PAYLOAD"

lemma sizes_okD: "sizes_ok z \<Longrightarrow> 0 < z" "sizes_ok z \<Longrightarrow> z \<le> 8192" "sizes_ok z \<Longrightarrow> per_chunk z * z = 8192"
    "sizes_ok z \<Longrightarrow> 0 < per_chunk z" "sizes_ok z \<Longrightarrow> per_chunk z \<le> 8192"
proof -
  assume "sizes_ok z"
  then have z: "0 < z" "z dvd 8192" by (simp_all add: sizes_ok_def)
  then show "0 < z" "z \<le> 8192" "per_chunk z * z = 8192" "per_chunk z \<le> 8192" by (auto simp: per_chunk_def intro: dvd_imp_le)
  then show "0 < per_chunk z" by (cases "per_chunk z") simp_all
qed

lemma chunk_arith:
  assumes "sizes_ok z"
  shows "i * MAX_PAYLOAD div z = i * per_chunk z" and "i * MAX_PAYLOAD < n * z \<longleftrightarrow> i * per_chunk z < n"
    and "min MAX_PAYLOAD (n * z - i * MAX_PAYLOAD) = chunk_blocks z n i * z"
proof -
  have eq: "MAX_PAYLOAD = per_chunk z * z" and z: "0 < z" using sizes_okD [OF assms] by simp_all
  then have scale: "i * MAX_PAYLOAD = (i * per_chunk z) * z" by (simp only: mult.assoc)
  show "i * MAX_PAYLOAD div z = i * per_chunk z" unfolding scale using z by simp
  show "i * MAX_PAYLOAD < n * z \<longleftrightarrow> i * per_chunk z < n" unfolding scale using z by simp
  show "min MAX_PAYLOAD (n * z - i * MAX_PAYLOAD) = chunk_blocks z n i * z"
    unfolding scale chunk_blocks_def using eq by (metis diff_mult_distrib nat_mult_min_left)
qed

lemma chunk_blocks_le: "chunk_blocks z n i \<le> per_chunk z" "chunk_blocks z n i \<le> n"
  by (simp_all add: chunk_blocks_def)

text \<open>
  \<open>compute_chunk\<close> in closed form, for a drive whose block size divides the payload: in a request that does
  not overflow, a chunk past its end is refused, and so is one that is not below the block count.
\<close>

definition request_fits :: "usb_mass_storage \<Rightarrow> u32 \<Rightarrow> u32 \<Rightarrow> bool" where
  "request_fits u a n \<longleftrightarrow> sizes_ok (unat (ums_block_size u)) \<and> unat a + unat n \<le> unat (ums_block_count u) \<and>
     unat n * unat (ums_block_size u) < 2 ^ 32"

lemma unat_of_nat_small: "m < 2 ^ 32 \<Longrightarrow> unat (of_nat m :: u32) = m"
  by (simp add: unat_of_nat)

lemma unat_add_small: "unat a + m < 2 ^ 32 \<Longrightarrow> unat (a + of_nat m :: u32) = unat a + m"
proof -
  assume a: "unat a + m < 2 ^ 32"
  then have "m < 2 ^ 32" by simp
  with a show ?thesis by (simp add: unat_word_ariths unat_of_nat_small)
qed

lemma compute_chunk_at:
  assumes z: "sizes_ok (unat (ums_block_size u))" and bytes: "unat n * unat (ums_block_size u) < 2 ^ 32"
    and i: "unat i * per_chunk (unat (ums_block_size u)) < unat n"
  shows "compute_chunk build u a n i =
    bind (add_u32 build a (of_nat (unat i * per_chunk (unat (ums_block_size u))))) (\<lambda>lba.
      let k = chunk_blocks (unat (ums_block_size u)) (unat n) (unat i) in
      if ums_block_count u = 0 then return (Inl ESP_ERR_INVALID_STATE)
      else if 2 ^ 32 \<le> unat lba + unat (of_nat k :: u32) \<or> ums_block_count u < lba + of_nat k then return (Inl ESP_ERR_INVALID_ARG)
      else return (Inr (lba, of_nat k, k * unat (ums_block_size u))))"
proof -
  let ?z = "unat (ums_block_size u)"
  note zs = sizes_okD [OF z] and ar = chunk_arith [OF z]
  have "unat i < 2 ^ LENGTH(16)" by (rule unsigned_less)
  then have "unat i * MAX_PAYLOAD < 2 ^ 32" by simp
  moreover have "\<not> unat n * ?z \<le> unat i * MAX_PAYLOAD" using ar(2) i by (meson not_less)
  moreover have "MAX_PAYLOAD mod ?z = 0" "\<not> MAX_PAYLOAD < ?z" "?z \<noteq> 0" using z zs by (auto simp: sizes_ok_def)
  moreover have "k * ?z mod ?z = 0" "k * ?z div ?z = k" for k using zs(1) by simp_all
  ultimately show ?thesis using bytes ar
    unfolding compute_chunk_def checked_mul_def Let_def
    by (simp only: if_False if_True option.case refl simp_thms)
qed

lemma chunk_bounds:
  assumes "sizes_ok (unat (ums_block_size u))" and "unat i * per_chunk (unat (ums_block_size u)) < unat (n :: u32)"
  shows "unat i * per_chunk (unat (ums_block_size u)) + chunk_blocks (unat (ums_block_size u)) (unat n) (unat i) \<le> unat n"
    and "0 < chunk_blocks (unat (ums_block_size u)) (unat n) (unat i)"
    and "unat (of_nat (chunk_blocks (unat (ums_block_size u)) (unat n) (unat i)) :: u32) =
      chunk_blocks (unat (ums_block_size u)) (unat n) (unat i)"
    and "unat (of_nat (unat i * per_chunk (unat (ums_block_size u))) :: u32) = unat i * per_chunk (unat (ums_block_size u))"
proof -
  have n: "unat n < 2 ^ 32" using unsigned_less [of n] by simp
  show k: "unat i * per_chunk (unat (ums_block_size u)) + chunk_blocks (unat (ums_block_size u)) (unat n) (unat i) \<le> unat n"
    "0 < chunk_blocks (unat (ums_block_size u)) (unat n) (unat i)"
    using assms(2) sizes_okD(4) [OF assms(1)] by (auto simp: chunk_blocks_def)
  show "unat (of_nat (chunk_blocks (unat (ums_block_size u)) (unat n) (unat i)) :: u32) =
      chunk_blocks (unat (ums_block_size u)) (unat n) (unat i)"
    "unat (of_nat (unat i * per_chunk (unat (ums_block_size u))) :: u32) = unat i * per_chunk (unat (ums_block_size u))"
    by (rule unat_of_nat_small, use k n in linarith)+
qed

lemma compute_chunk_fits:
  assumes fits: "request_fits u a n" and i: "unat i * per_chunk (unat (ums_block_size u)) < unat n"
  shows "compute_chunk build u a n i s = Ret (Inr (a + of_nat (unat i * per_chunk (unat (ums_block_size u))),
      of_nat (chunk_blocks (unat (ums_block_size u)) (unat n) (unat i)),
      chunk_blocks (unat (ums_block_size u)) (unat n) (unat i) * unat (ums_block_size u))) s"
proof -
  let ?z = "unat (ums_block_size u)"
  let ?o = "unat i * per_chunk ?z"
  let ?k = "chunk_blocks ?z (unat n) (unat i)"
  have z: "sizes_ok ?z" and range: "unat a + unat n \<le> unat (ums_block_count u)" and bytes: "unat n * ?z < 2 ^ 32"
    using fits by (simp_all add: request_fits_def)
  have bc: "unat (ums_block_count u) < 2 ^ 32" using unsigned_less [of "ums_block_count u"] by simp
  note k = chunk_bounds [OF z i]
  have lba: "unat (a + of_nat ?o) = unat a + ?o" using range bc i by (intro unat_add_small) simp
  have sum: "unat (a + of_nat ?o + of_nat ?k) = unat a + ?o + ?k"
    using range bc k(1) lba by (subst unat_add_small) simp_all
  have "ums_block_count u \<noteq> 0" using range i by auto
  moreover have "\<not> ums_block_count u < a + of_nat ?o + of_nat ?k"
    using sum k(1) range by (simp add: word_less_nat_alt)
  moreover have "\<not> 2 ^ 32 \<le> unat (a + of_nat ?o) + unat (of_nat ?k :: u32)" using lba k range bc by simp
  moreover have "add_u32 build a (of_nat ?o) s = Ret (a + of_nat ?o) s"
    using k(4) lba range bc i by (simp add: add_u32_def)
  ultimately show ?thesis unfolding compute_chunk_at [OF z bytes i] by (simp add: bind_run Let_def)
qed

text \<open>Whatever the request, an allowed chunk lies in it and below the block count.\<close>

lemma compute_chunk_allowed:
  assumes "compute_chunk build u a n i s = Ret (Inr (lba, k, m)) t"
  shows "sizes_ok (unat (ums_block_size u))" and "m = unat k * unat (ums_block_size u)" and "0 < unat k" and "m \<le> MAX_PAYLOAD"
    and "unat lba + unat k \<le> unat (ums_block_count u)" and "lba = a + of_nat (unat i * per_chunk (unat (ums_block_size u)))"
    and "unat i * per_chunk (unat (ums_block_size u)) + unat k \<le> unat n"
    and "build = Debug \<Longrightarrow> unat lba = unat a + unat i * per_chunk (unat (ums_block_size u))"
proof -
  let ?z = "unat (ums_block_size u)"
  let ?o = "unat i * per_chunk ?z"
  let ?k = "chunk_blocks ?z (unat n) (unat i)"
  have z: "sizes_ok ?z" and bytes: "unat n * ?z < 2 ^ 32" and off: "\<not> unat n * ?z \<le> unat i * MAX_PAYLOAD"
    using assms by (auto simp: compute_chunk_def Let_def checked_mul_def sizes_ok_def split: if_splits)
  then have i: "?o < unat n" using chunk_arith(2) [OF z] by (meson not_less)
  note k = chunk_bounds [OF z i]
  have run: "add_u32 build a (of_nat ?o) s = Ret lba s" "k = of_nat ?k" "m = ?k * ?z"
    "unat lba + ?k < 2 ^ 32" "\<not> ums_block_count u < lba + of_nat ?k"
    using assms k(3) unfolding compute_chunk_at [OF z bytes i]
    by (auto simp: bind_eq_Ret Let_def add_u32_def split: if_splits)
  then have sum: "unat (lba + of_nat ?k) = unat lba + ?k" by (intro unat_add_small)
  show "sizes_ok ?z" by (rule z)
  show "m = unat k * ?z" "0 < unat k" "?o + unat k \<le> unat n" using run(2,3) k by simp_all
  show "m \<le> MAX_PAYLOAD" by (rule compute_chunk_cases(3) [OF assms])
  show "unat lba + unat k \<le> unat (ums_block_count u)" using run(2,5) k(3) sum by (simp add: word_less_nat_alt)
  show lba: "lba = a + of_nat ?o" using run(1) by (auto simp: add_u32_def split: if_splits)
  show "unat lba = unat a + ?o" if "build = Debug"
    using run(1) that lba k(4) by (auto simp: add_u32_def unat_word_ariths split: if_splits)
qed

section \<open>Block stores, block by block\<close>

lemma read_blocks_append: "read_blocks (j + k) a bl = read_blocks j a bl @ read_blocks k (a + of_nat j) bl"
  by (induction j arbitrary: a) (simp_all add: add.assoc)

text \<open>What a write leaves at block \<open>b\<close>.\<close>

lemma write_blocks_at:
  assumes "k \<le> 2 ^ 32"
  shows "write_blocks z k a data bl b = (if unat (b - a) < k then take z (drop (unat (b - a) * z) data) else bl b)"
  using assms
proof (induction k arbitrary: a data)
  case (Suc k)
  show ?case
  proof (cases "b = a")
    case False
    then have "unat (b - a) = Suc (unat (b - (a + 1)))"
      using unat_minus_one [of "b - a"] unat_gt_0 [of "b - a"] by (simp add: diff_diff_eq)
    with False Suc show ?thesis by (simp add: add.commute)
  qed simp
qed simp

lemma write_blocks_append:
  assumes "length xs = j * z" and "j + k \<le> 2 ^ 32"
  shows "write_blocks z k (a + of_nat j) ys (write_blocks z j a xs bl) = write_blocks z (j + k) a (xs @ ys) bl"
proof (cases "k = 0")
  case True
  have "write_blocks z j a xs bl b = write_blocks z j a (xs @ ys) bl b" for b
  proof -
    have "Suc (unat (b - a)) * z \<le> length xs" if "unat (b - a) < j" using that assms(1) by (simp del: mult_Suc add: mult_le_mono)
    then show ?thesis using assms(2) by (auto simp: write_blocks_at)
  qed
  with True show ?thesis by auto
next
  case False
  show ?thesis
  proof
    fix b
    let ?o = "unat (b - a)"
    have far: "unat (b - (a + of_nat j)) = (if j \<le> ?o then ?o - j else ?o + 2 ^ 32 - j)"
    proof -
      have "unat (of_nat j :: u32) = j" using assms(2) False by (intro unat_of_nat_small) simp
      then have "unat (x - of_nat j) = (if j \<le> unat x then unat x - j else unat x + 2 ^ 32 - j)" for x :: u32
        by (simp add: unat_sub_if')
      then show ?thesis by (simp only: diff_diff_eq [symmetric])
    qed
    have near: "Suc ?o * z \<le> length xs" if "?o < j" using that assms(1) by (simp del: mult_Suc add: mult_le_mono)
    have rest: "(?o - j) * z = ?o * z - length xs" if "j \<le> ?o" using assms(1) that by (simp add: diff_mult_distrib)
    show "write_blocks z k (a + of_nat j) ys (write_blocks z j a xs bl) b = write_blocks z (j + k) a (xs @ ys) bl b"
    proof (cases "?o < j")
      case True
      then have "\<not> unat (b - (a + of_nat j)) < k" using far assms(2) by auto
      then show ?thesis using True near assms(2) by (simp add: write_blocks_at)
    next
      case far_off: False
      have "length xs \<le> ?o * z" using far_off assms(1) by simp
      then show ?thesis using far_off far rest assms(2) by (auto simp: write_blocks_at)
    qed
  qed
qed

section \<open>The block device of the firmware is a block store\<close>

definition storage_holds :: "env \<Rightarrow> nat \<Rightarrow> ptr \<Rightarrow> msc_device \<Rightarrow> ram \<Rightarrow> usb_mass_storage \<Rightarrow> sys \<Rightarrow> blocks \<Rightarrow> bool" where
  "storage_holds env z p d r0 u s bl \<longleftrightarrow> ums_handle u = p \<and> unat (ums_block_size u) = z \<and> sizes_ok z \<and>
     carries env (config d) z (handle d) r0 \<and> two_endpoints (config d) \<and>
     (\<exists>r. on_ram env z p d r0 s r \<and> idle z r \<and> ram_blocks r = bl)"

lemma storage_sizes: "storage_holds env z p d r0 u s bl \<Longrightarrow> blocks_of z bl"
  by (auto simp: storage_holds_def idle_def)

definition in_storage :: "usb_mass_storage \<Rightarrow> u32 \<Rightarrow> u32 \<Rightarrow> bool" where
  "in_storage u a k \<longleftrightarrow> 0 < k \<and> k < 2 ^ 16 \<and> unat a + unat k \<le> unat (ums_block_count u)"

lemma checked_in_storage:
  assumes "storage_holds env z p d r0 u s bl" and "in_storage u a k" and "n = unat k * z"
  shows "bd_check build u a k n s = Ret (Inr ()) s"
proof (rule bd_check_ok)
  from assms(1) obtain r where "on_ram env z p d r0 s r" and u: "ums_handle u = p" by (auto simp: storage_holds_def)
  then show "ums_handle u \<noteq> NULL" using on_ram_device by blast
  have z: "sizes_ok z" "unat (ums_block_size u) = z" using assms(1) by (simp_all add: storage_holds_def)
  then show "ums_block_size u \<noteq> 0" using sizes_okD(1) by fastforce
  show "n = unat k * unat (ums_block_size u)" using assms(3) z by simp
  have "unat k < 2 ^ 16" using assms(2) by (simp add: in_storage_def word_less_nat_alt)
  then have "unat k * z < 2 ^ 16 * 2 ^ 16" using sizes_okD(1,2) [OF z(1)] by (intro mult_strict_mono) simp_all
  then show "n < 2 ^ 32" using assms(3) by simp
qed (use assms(2) in \<open>simp_all add: in_storage_def\<close>)

interpretation storage: block_device z "in_storage u" "Inr ()" "storage_holds env z p d r0 u"
    "\<lambda>buff a k. bd_read_blocks build depth env u a k buff" "\<lambda>data a k. bd_write_blocks build depth env u a k data"
    for z u env p d r0 build depth
proof unfold_locales
  fix s bl and a k :: u32 and buff :: "u8 list"
  assume st: "storage_holds env z p d r0 u s bl" and k: "in_storage u a k" and len: "length buff = unat k * z"
  from st obtain r where r: "on_ram env z p d r0 s r" "idle z r" "ram_blocks r = bl" "unat (ums_block_size u) = z"
    "ums_handle u = p" "sizes_ok z" "carries env (config d) z (handle d) r0" "two_endpoints (config d)"
    by (auto simp: storage_holds_def)
  have z: "0 < z" "z \<le> 2 ^ 15" using sizes_okD(1,2) [OF r(6)] by simp_all
  have kk: "0 < k" "k < 2 ^ 16" using k by (simp_all add: in_storage_def)
  obtain t r' where run: "scsi_cmd_read10 (recovery_at depth env) env p buff a k (ums_block_size u) s =
      Ret (ESP_OK, overwrite (read_blocks (unat k) a bl) buff) t"
    and t: "on_ram env z p d r0 t r'" "idle z r'" "ram_blocks r' = bl"
    using ram_reads [OF r(7,1,8,2) kk r(4) z, where a = a and data = buff and recover = "recovery_at depth env"] len r(3) by auto
  have "storage_holds env z p d r0 u t bl" using st t unfolding storage_holds_def by blast
  moreover have "overwrite (read_blocks (unat k) a bl) buff = read_blocks (unat k) a bl"
    using len storage_sizes [OF st] by (intro overwrite_full) simp
  ultimately show "\<exists>t. bd_read_blocks build depth env u a k buff s = Ret (Inr (), read_blocks (unat k) a bl) t \<and>
      storage_holds env z p d r0 u t bl"
    using checked_in_storage [OF st k len] run r(5) by (simp add: bd_read_blocks_def bind_run)
next
  fix s bl and a k :: u32 and data :: "u8 list"
  assume st: "storage_holds env z p d r0 u s bl" and k: "in_storage u a k" and len: "length data = unat k * z"
  from st obtain r where r: "on_ram env z p d r0 s r" "idle z r" "ram_blocks r = bl" "unat (ums_block_size u) = z"
    "ums_handle u = p" "sizes_ok z" "carries env (config d) z (handle d) r0" "two_endpoints (config d)"
    by (auto simp: storage_holds_def)
  have z: "z \<le> 2 ^ 15" using sizes_okD(2) [OF r(6)] by simp
  have kk: "k < 2 ^ 16" using k by (simp add: in_storage_def)
  obtain t r' where run: "scsi_cmd_write10 (recovery_at depth env) env p data a k (ums_block_size u) s = Ret ESP_OK t"
    and t: "on_ram env z p d r0 t r'" "idle z r'" "ram_blocks r' = write_blocks z (unat k) a data bl"
    using ram_writes [OF r(7,1,8,2) kk r(4) z len, where a = a and recover = "recovery_at depth env"] r(3) by auto
  have "storage_holds env z p d r0 u t (write_blocks z (unat k) a data bl)" using st t unfolding storage_holds_def by blast
  then show "\<exists>t. bd_write_blocks build depth env u a k data s = Ret (Inr ()) t \<and>
      storage_holds env z p d r0 u t (write_blocks z (unat k) a data bl)"
    using checked_in_storage [OF st k len] run r(5) by (simp add: bd_write_blocks_def bind_run)
qed

section \<open>A master that follows the protocol\<close>

text \<open>
  The master is not part of the repository; this one is a specification. It sends the header of its request
  while READY is low, and the payload with its CRC while READY is high. What it reads is the last frame.
\<close>

definition frame :: "u8 list \<Rightarrow> u8 list" where
  "frame data = data @ le32 (spi_crc32 data)"

definition line_high :: "spi_event list \<Rightarrow> bool" where
  "line_high es \<longleftrightarrow> es \<noteq> [] \<and> last es = Spi_Gpio (EvGpioLevel PIN_READY 1)"

definition asks :: "header \<Rightarrow> u8 list \<Rightarrow> master" where
  "asks req raw es sent = (ESP_OK, if line_high es then raw else bytes_header req)"

definition sent_frames :: "spi_event list \<Rightarrow> u8 list list" where
  "sent_frames es = concat (map (\<lambda>e. case e of Spi_Transfer sent _ _ \<Rightarrow> [sent] | _ \<Rightarrow> []) es)"

definition ask_slave :: "build \<Rightarrow> nat \<Rightarrow> env \<Rightarrow> header \<Rightarrow> u8 list \<Rightarrow> (spi_link, header \<times> u8 list) prog" where
  "ask_slave build depth env req raw = then_do (spi_round build depth env (asks req raw))
     (gets (\<lambda>l. let b = last (sent_frames (wires l)) in (header_of_bytes (take HDR_LEN b), drop HDR_LEN b)))"

definition chunk_request :: "cmd \<Rightarrow> u16 \<Rightarrow> u32 \<Rightarrow> u32 \<Rightarrow> nat \<Rightarrow> header" where
  "chunk_request c n a k i = (header_new c n a k)\<lparr>hdr_reserved := of_nat i\<rparr>"

definition chunk_data :: "header \<times> u8 list \<Rightarrow> esp_err_t \<times> u8 list" where
  "chunk_data = (\<lambda>(h, payload). let data = take (unat (hdr_arg1 h)) payload in
     if hdr_arg0 h \<noteq> ESP_OK then (hdr_arg0 h, [])
     else if payload \<noteq> frame data then (ESP_ERR_INVALID_CRC, []) else (ESP_OK, data))"

text \<open>The chunks from \<open>i\<close> on, \<open>c\<close> of them, until one fails.\<close>

primrec read_chunks :: "build \<Rightarrow> nat \<Rightarrow> env \<Rightarrow> u16 \<Rightarrow> u32 \<Rightarrow> u32 \<Rightarrow> nat \<Rightarrow> nat \<Rightarrow> (spi_link, esp_err_t \<times> u8 list) prog" where
  "read_chunks build depth env n a k i 0 = return (ESP_OK, [])"
| "read_chunks build depth env n a k i (Suc c) = bind (ask_slave build depth env (chunk_request Read n a k i) []) (\<lambda>r.
     let (e, data) = chunk_data r in if e \<noteq> ESP_OK then return (e, [])
     else bind (read_chunks build depth env n a k (Suc i) c) (\<lambda>(e, rest). return (e, data @ rest)))"

primrec write_chunks :: "build \<Rightarrow> nat \<Rightarrow> env \<Rightarrow> u16 \<Rightarrow> u32 \<Rightarrow> u32 \<Rightarrow> u8 list \<Rightarrow> nat \<Rightarrow> nat \<Rightarrow> (spi_link, esp_err_t) prog" where
  "write_chunks build depth env n a k data i 0 = return ESP_OK"
| "write_chunks build depth env n a k data i (Suc c) =
     bind (ask_slave build depth env (chunk_request Write n a k i) (frame (take MAX_PAYLOAD data))) (\<lambda>(h, _).
       if hdr_arg0 h \<noteq> ESP_OK then return (hdr_arg0 h)
       else write_chunks build depth env n a k (drop MAX_PAYLOAD data) (Suc i) c)"

definition chunk_count :: "nat \<Rightarrow> nat" where
  "chunk_count bytes = (bytes + MAX_PAYLOAD - 1) div MAX_PAYLOAD"

definition spi_read :: "build \<Rightarrow> nat \<Rightarrow> env \<Rightarrow> u8 list \<Rightarrow> u32 \<Rightarrow> u32 \<Rightarrow> (spi_link, esp_err_t \<times> u8 list) prog" where
  "spi_read build depth env buff a k = read_chunks build depth env 0 a k 0 (chunk_count (length buff))"

definition spi_write :: "build \<Rightarrow> nat \<Rightarrow> env \<Rightarrow> u8 list \<Rightarrow> u32 \<Rightarrow> u32 \<Rightarrow> (spi_link, esp_err_t) prog" where
  "spi_write build depth env data a k = write_chunks build depth env 0 a k data 0 (chunk_count (length data))"

section \<open>A round, seen by the master\<close>

lemma length_frame [simp]: "length (frame data) = length data + 4"
  by (simp add: frame_def)

lemma chunk_request_fields [simp]:
  "is_valid (chunk_request c n a k i)" "cmd_enum (chunk_request c n a k i) = Some c" "hdr_arg0 (chunk_request c n a k i) = a"
  "hdr_arg1 (chunk_request c n a k i) = k" "hdr_reserved (chunk_request c n a k i) = of_nat i"
  using header_new_fields [of c n a k]
  by (simp_all add: chunk_request_def is_valid_def cmd_enum_def cmd_base_def header_new_def)

lemma response_header_fields [simp]:
  "hdr_arg0 (response_header req e b) = e" "hdr_arg1 (response_header req e b) = b" "hdr_seq (response_header req e b) = hdr_seq req"
  by (simp_all add: response_header_def)

lemma sent_frames_append [simp]:
  "sent_frames (es @ fs) = sent_frames es @ sent_frames fs" "sent_frames [] = []"
  "sent_frames (Spi_Transfer b c e # es) = b # sent_frames es" "sent_frames (Spi_Gpio g # es) = sent_frames es"
  by (simp_all add: sent_frames_def)

text \<open>\<open>idle_link u s l\<close>: the link waits for a header; its drive is \<open>u\<close> on the state \<open>s\<close>.\<close>

definition idle_link :: "usb_mass_storage \<Rightarrow> sys \<Rightarrow> spi_link \<Rightarrow> bool" where
  "idle_link u s l \<longleftrightarrow> buffers_ok l \<and> \<not> line_high (wires l) \<and> link_usb l = Some u \<and> link_sys l = s"

lemma answered:
  assumes "buffers_ok l" and "resp_len l = n" and "take n (resp_buf l) = b"
  shows "\<exists>l'. send_response master l = Ret () l' \<and> buffers_ok l' \<and> \<not> line_high (wires l') \<and> last (sent_frames (wires l')) = b \<and>
    link_usb l' = link_usb l \<and> link_sys l' = link_sys l"
proof -
  have len: "n \<le> RX_LEN" "length b = n" "length (tx_dma l) = RX_LEN" "length (rx_dma l) = RX_LEN" "length (resp_buf l) = RX_LEN"
    using assms by (auto simp: buffers_ok_def)
  have sent: "take n (put_slice 0 b (tx_dma l)) = b" using len take_put_start [of b "tx_dma l"] by simp
  let ?h = "wires l @ [Spi_Gpio (EvGpioLevel PIN_READY 1)]"
  obtain e got where m: "master ?h b = (e, got)" by fastforce
  have "send_response master l = Ret () (l\<lparr>tx_dma := put_slice 0 b (tx_dma l), rx_dma := overwrite (take n got) (rx_dma l),
      wires := wires l @ [Spi_Gpio (EvGpioLevel PIN_READY 1), Spi_Transfer b (take n got) e, Spi_Gpio (EvGpioLevel PIN_READY 0)]\<rparr>)"
    using assms len sent m
    by (simp add: send_response_def Let_def in_bounds_def then_do_def bind_run ready_high_def ready_low_def wire_def spi_slave_xfer_def)
  then show ?thesis using assms(1) len by (auto simp: buffers_ok_def line_high_def)
qed

text \<open>The header of a round arrives.\<close>

lemma round_dispatches:
  assumes "idle_link u s l" and "is_valid req" and "cmd_enum req = Some c"
  shows "\<exists>l'. spi_round build depth env (asks req data) l = dispatch build depth env (asks req data) req c l' \<and> idle_link u s l'"
proof -
  have len: "length (rx_dma l) = RX_LEN" "length (tx_dma l) = RX_LEN" and low: "\<not> line_high (wires l)"
    using assms(1) by (simp_all add: idle_link_def buffers_ok_def)
  let ?b = "bytes_header req"
  let ?l = "l\<lparr>rx_dma := overwrite ?b (rx_dma l), wires := wires l @ [Spi_Transfer (take HDR_LEN (tx_dma l)) ?b ESP_OK]\<rparr>"
  have xfer: "spi_slave_xfer (asks req data) HDR_LEN l = Ret True ?l"
    using len low by (simp add: spi_slave_xfer_def asks_def Let_def)
  have "take HDR_LEN (overwrite ?b (rx_dma l)) = ?b" using len by (simp add: overwrite_def)
  then have "header_of_bytes (take HDR_LEN (overwrite ?b (rx_dma l))) = req" by (simp only: header_format.dec_enc)
  with xfer assms(2,3) have "spi_round build depth env (asks req data) l = dispatch build depth env (asks req data) req c ?l"
    by (simp add: spi_round_def bind_run Let_def)
  moreover have "idle_link u s ?l" using assms(1) len by (simp add: idle_link_def buffers_ok_def line_high_def)
  ultimately show ?thesis by blast
qed

text \<open>What the two ways to stage a response leave in the buffer.\<close>

lemma armed_frame:
  assumes "idle_link u s l" and "take n (block_buf l) = data" and "0 < n" "n \<le> MAX_PAYLOAD"
  shows "\<exists>l'. arm_response_from_block_buf req e a n l = Ret () l' \<and> idle_link u s l' \<and> resp_len l' = HDR_LEN + n + CRC_LEN \<and>
    take (HDR_LEN + n + CRC_LEN) (resp_buf l') = bytes_header (response_header req e a) @ frame data"
proof -
  let ?h = "bytes_header (response_header req e a)"
  have len: "length (resp_buf l) = RX_LEN" "length data = n" using assms by (auto simp: idle_link_def buffers_ok_def)
  have buf: "put_slice (HDR_LEN + n) (le32 (spi_crc32 data)) (put_slice HDR_LEN data (put_slice 0 ?h (resp_buf l))) =
      put_slice 0 (?h @ frame data) (resp_buf l)"
    using put_slices [of 0 ?h data "resp_buf l"] put_slices [of 0 "?h @ data" "le32 (spi_crc32 data)" "resp_buf l"] len assms(4)
    by (simp add: frame_def)
  have "take (HDR_LEN + n + CRC_LEN) (put_slice 0 (?h @ frame data) (resp_buf l)) = ?h @ frame data"
    using take_put_start [of "?h @ frame data" "resp_buf l"] len assms(4) by simp
  with buf assms len show ?thesis
    by (simp add: arm_response_from_block_buf_def Let_def idle_link_def buffers_ok_def min_def)
qed

lemma armed_header:
  assumes "idle_link u s l"
  shows "\<exists>l'. arm_response_with_arg1 req e a [] l = Ret () l' \<and> idle_link u s l' \<and> resp_len l' = HDR_LEN \<and>
    take HDR_LEN (resp_buf l') = bytes_header (response_header req e a)"
  using assms take_put_start [of "bytes_header (response_header req e a)" "resp_buf l"]
  by (simp add: arm_response_with_arg1_def Let_def idle_link_def buffers_ok_def)

section \<open>One chunk read, and one chunk written\<close>

definition capacity_known :: "usb_mass_storage \<Rightarrow> bool" where
  "capacity_known u \<longleftrightarrow> ums_block_size u \<noteq> 0 \<and> ums_block_count u \<noteq> 0"

lemma capacity_not_fetched [simp]: "capacity_known u \<Longrightarrow> ensure_capacity_known depth env u l = Ret u l"
  by (simp add: capacity_known_def ensure_capacity_known_def)

lemma asked:
  assumes "spi_round build depth env (asks req data) l = send_response master l1" and "idle_link u t l1"
    and "resp_len l1 = n" and "take n (resp_buf l1) = bytes_header h @ payload"
  shows "\<exists>l'. ask_slave build depth env req data l = Ret (h, payload) l' \<and> idle_link u t l'"
proof -
  have "header_of_bytes (take HDR_LEN (bytes_header h)) = h" using header_format.dec_enc [of h] by simp
  with answered [OF _ assms(3,4), of master] assms(1,2) show ?thesis
    by (auto simp: ask_slave_def then_do_def bind_run idle_link_def Let_def)
qed

lemma chunk_read:
  fixes n :: nat
  assumes l: "idle_link u s l" and u: "capacity_known u" and n: "0 < n" "n \<le> MAX_PAYLOAD"
    and chunk: "\<And>l :: spi_link. compute_chunk build u a k (of_nat i) l = Ret (Inr (lba, m, n)) l"
    and rd: "\<And>buff. length buff = n \<Longrightarrow> \<exists>t. bd_read_blocks build depth env u lba m buff s = Ret (Inr (), out) t \<and> R t"
    and out: "length out = n"
  shows "\<exists>l' t. ask_slave build depth env (chunk_request Read q a k i) [] l =
      Ret (response_header (chunk_request Read q a k i) ESP_OK (of_nat n), frame out) l' \<and> idle_link u t l' \<and> R t"
proof -
  let ?req = "chunk_request Read q a k i"
  obtain l1 where l1: "spi_round build depth env (asks ?req []) l = on_read build depth env (asks ?req []) ?req l1" "idle_link u s l1"
    using round_dispatches [OF l, of ?req Read build depth env "[]"] by (auto simp: dispatch_def)
  have buf: "length (block_buf l1) = MAX_PAYLOAD" using l1(2) by (simp add: idle_link_def buffers_ok_def)
  then obtain t where t: "bd_read_blocks build depth env u lba m (take n (block_buf l1)) s = Ret (Inr (), out) t" "R t"
    using rd [of "take n (block_buf l1)"] n(2) by auto
  let ?l2 = "l1\<lparr>link_sys := t, block_buf := overwrite out (block_buf l1)\<rparr>"
  have l2: "idle_link u t ?l2" using l1(2) by (simp add: idle_link_def buffers_ok_def)
  have taken: "take n (block_buf ?l2) = out" using out buf n by (simp add: overwrite_def)
  obtain l3 where l3: "arm_response_from_block_buf ?req ESP_OK (of_nat n) n ?l2 = Ret () l3" "idle_link u t l3"
    "resp_len l3 = HDR_LEN + n + CRC_LEN"
    "take (HDR_LEN + n + CRC_LEN) (resp_buf l3) = bytes_header (response_header ?req ESP_OK (of_nat n)) @ frame out"
    using armed_frame [OF l2 taken n] by blast
  have "on_read build depth env (asks ?req []) ?req l1 = send_response (asks ?req []) l3"
    using l1(2) u chunk t(1) l3(1) buf n(2)
    by (simp add: on_read_def idle_link_def bind_run then_do_def in_bounds_def with_sys_def)
  with l1(1) have "spi_round build depth env (asks ?req []) l = send_response (asks ?req []) l3" by simp
  from asked [OF this l3(2-4)] t(2) show ?thesis by blast
qed

lemma payload_received:
  fixes n :: nat
  assumes l: "idle_link u s l" and n: "n \<le> MAX_PAYLOAD" "length data = n"
  shows "\<exists>l'. receive_payload (asks req (data @ le32 c)) n l = Ret True l' \<and> idle_link u s l' \<and> n + CRC_LEN \<le> length (rx_dma l') \<and>
    received_crc n (rx_dma l') = c \<and> take n (rx_dma l') = data"
proof -
  have len: "length (rx_dma l) = RX_LEN" "length (tx_dma l) = RX_LEN" using l by (simp_all add: idle_link_def buffers_ok_def)
  let ?rx = "overwrite (data @ le32 c) (rx_dma l)"
  define l' where "l' = l\<lparr>tx_dma := replicate RX_LEN 0, rx_dma := ?rx, wires := wires l @ [Spi_Gpio (EvGpioLevel PIN_READY 1),
      Spi_Transfer (replicate (n + CRC_LEN) 0) (data @ le32 c) ESP_OK, Spi_Gpio (EvGpioLevel PIN_READY 0)]\<rparr>"
  have run: "receive_payload (asks req (data @ le32 c)) n l = Ret True l'"
    using len n by (simp add: receive_payload_def then_do_def bind_run ready_high_def ready_low_def wire_def spi_slave_xfer_def
        asks_def line_high_def Let_def l'_def)
  have rx: "?rx = (data @ le32 c) @ drop (n + 4) (rx_dma l)"
    using len n by (simp add: overwrite_def)
  have "[?rx ! n, ?rx ! (n + 1), ?rx ! (n + 2), ?rx ! (n + 3)] = le32 c"
    unfolding rx using n(2) by (simp add: le32_def nth_append)
  then have crc: "received_crc n ?rx = c" by (simp only: received_crc_def of_le32_le32)
  have took: "take n ?rx = data" unfolding rx using n(2) by simp
  have "rx_dma l' = ?rx" "idle_link u s l'" using l len by (simp_all add: idle_link_def buffers_ok_def l'_def line_high_def)
  with run crc took len n(1) show ?thesis by (intro exI [of _ l']) simp
qed

lemma chunk_write:
  fixes n :: nat
  assumes l: "idle_link u s l" and u: "capacity_known u" and n: "n \<le> MAX_PAYLOAD" "length data = n"
    and chunk: "\<And>l :: spi_link. compute_chunk build u a k (of_nat i) l = Ret (Inr (lba, m, n)) l"
    and wr: "bd_write_blocks build depth env u lba m data s = Ret (Inr ()) t"
  shows "\<exists>l'. ask_slave build depth env (chunk_request Write q a k i) (frame data) l =
      Ret (response_header (chunk_request Write q a k i) ESP_OK (of_nat n), []) l' \<and> idle_link u t l'"
proof -
  let ?req = "chunk_request Write q a k i"
  let ?m = "asks ?req (frame data)"
  obtain l1 where l1: "spi_round build depth env ?m l = on_write build depth env ?m ?req l1" "idle_link u s l1"
    using round_dispatches [OF l, of ?req Write build depth env "frame data"] by (auto simp: dispatch_def)
  obtain l2 where l2: "receive_payload ?m n l1 = Ret True l2" "idle_link u s l2" "n + CRC_LEN \<le> length (rx_dma l2)"
    "received_crc n (rx_dma l2) = spi_crc32 data" "take n (rx_dma l2) = data"
    using payload_received [OF l1(2) n, of ?req "spi_crc32 data"] unfolding frame_def by blast
  have l3: "idle_link u t (l2\<lparr>link_sys := t\<rparr>)" and l2s: "link_sys l2 = s"
    using l2(2) by (simp_all add: idle_link_def buffers_ok_def)
  obtain l4 where l4: "arm_response_with_arg1 ?req ESP_OK (of_nat n) [] (l2\<lparr>link_sys := t\<rparr>) = Ret () l4" "idle_link u t l4"
    "resp_len l4 = HDR_LEN" "take HDR_LEN (resp_buf l4) = bytes_header (response_header ?req ESP_OK (of_nat n)) @ []"
    using armed_header [OF l3] by fastforce
  have "on_write build depth env ?m ?req l1 = send_response ?m l4"
    using l1(2) u chunk wr l4(1) l2 l2s
    by (simp add: on_write_def idle_link_def bind_run then_do_def in_bounds_def with_sys_def)
  with l1(1) have "spi_round build depth env ?m l = send_response ?m l4" by simp
  from asked [OF this l4(2-4)] show ?thesis by blast
qed

text \<open>A payload whose CRC does not match is answered without a command to the drive.\<close>

lemma bad_write_refused:
  fixes n :: nat
  assumes l: "idle_link u s l" and u: "capacity_known u" and n: "n \<le> MAX_PAYLOAD" "length data = n"
    and chunk: "\<And>l :: spi_link. compute_chunk build u a k (of_nat i) l = Ret (Inr (lba, m, n)) l"
    and crc: "c \<noteq> spi_crc32 data"
  shows "\<exists>l'. ask_slave build depth env (chunk_request Write q a k i) (data @ le32 c) l =
      Ret (response_header (chunk_request Write q a k i) ESP_ERR_INVALID_CRC 0, []) l' \<and> idle_link u s l'"
proof -
  let ?req = "chunk_request Write q a k i"
  let ?m = "asks ?req (data @ le32 c)"
  obtain l1 where l1: "spi_round build depth env ?m l = on_write build depth env ?m ?req l1" "idle_link u s l1"
    using round_dispatches [OF l, of ?req Write build depth env "data @ le32 c"] by (auto simp: dispatch_def)
  obtain l2 where l2: "receive_payload ?m n l1 = Ret True l2" "idle_link u s l2" "n + CRC_LEN \<le> length (rx_dma l2)"
    "received_crc n (rx_dma l2) = c" "take n (rx_dma l2) = data"
    using payload_received [OF l1(2) n, of ?req c] by blast
  obtain l3 where l3: "arm_response_with_arg1 ?req ESP_ERR_INVALID_CRC 0 [] l2 = Ret () l3" "idle_link u s l3"
    "resp_len l3 = HDR_LEN" "take HDR_LEN (resp_buf l3) = bytes_header (response_header ?req ESP_ERR_INVALID_CRC 0) @ []"
    using armed_header [OF l2(2)] by fastforce
  have "on_write build depth env ?m ?req l1 = send_response ?m l3"
    using l1(2) u chunk l3(1) l2 crc
    by (simp add: on_write_def idle_link_def bind_run then_do_def in_bounds_def answer_def arm_response_def)
  with l1(1) have "spi_round build depth env ?m l = send_response ?m l3" by simp
  from asked [OF this l3(2-4)] show ?thesis by blast
qed

section \<open>Requests\<close>

text \<open>A request of at most 65536 chunks, all below the block count.\<close>

definition in_link :: "nat \<Rightarrow> usb_mass_storage \<Rightarrow> u32 \<Rightarrow> u32 \<Rightarrow> bool" where
  "in_link z u a k \<longleftrightarrow> 0 < k \<and> unat a + unat k \<le> unat (ums_block_count u) \<and> unat k * z \<le> 2 ^ 16 * MAX_PAYLOAD"

definition link_holds :: "env \<Rightarrow> nat \<Rightarrow> ptr \<Rightarrow> msc_device \<Rightarrow> ram \<Rightarrow> usb_mass_storage \<Rightarrow> spi_link \<Rightarrow> blocks \<Rightarrow> bool" where
  "link_holds env z p d r0 u l bl \<longleftrightarrow> (\<exists>s. idle_link u s l \<and> storage_holds env z p d r0 u s bl)"

lemma chunk_count_iff: "i < chunk_count b \<longleftrightarrow> i * MAX_PAYLOAD < b"
  by (auto simp: chunk_count_def less_eq_div_iff_mult_less_eq Suc_le_eq [symmetric])

lemma link_request:
  assumes "link_holds env z p d r0 u l bl" and "in_link z u a k" and "i < chunk_count (unat k * z)"
  shows "unat (ums_block_size u) = z" "sizes_ok z" "capacity_known u" "i * per_chunk z < unat k"
    "0 < chunk_blocks z (unat k) i" "chunk_blocks z (unat k) i * z \<le> MAX_PAYLOAD"
    "unat (of_nat (chunk_blocks z (unat k) i) :: u32) = chunk_blocks z (unat k) i"
    "in_storage u (a + of_nat (i * per_chunk z)) (of_nat (chunk_blocks z (unat k) i))"
    "\<And>m :: spi_link. compute_chunk build u a k (of_nat i) m = Ret (Inr (a + of_nat (i * per_chunk z), of_nat (chunk_blocks z (unat k) i),
       chunk_blocks z (unat k) i * z)) m"
proof -
  let ?k = "chunk_blocks z (unat k) i"
  from assms(1) show z: "unat (ums_block_size u) = z" "sizes_ok z" by (auto simp: link_holds_def storage_holds_def)
  have zs: "0 < z" "z \<le> 8192" "per_chunk z * z = 8192" "0 < per_chunk z" "per_chunk z \<le> 8192"
    using sizes_okD [OF z(2)] by simp_all
  have k: "0 < unat k" "unat a + unat k \<le> unat (ums_block_count u)" "unat k * z \<le> 2 ^ 16 * MAX_PAYLOAD"
    using assms(2) by (simp_all add: in_link_def word_less_nat_alt)
  show cap: "capacity_known u" using z zs k by (auto simp: capacity_known_def)
  have i: "i * MAX_PAYLOAD < unat k * z" using assms(3) chunk_count_iff by blast
  show at: "i * per_chunk z < unat k" using i chunk_arith(2) [OF z(2)] by blast
  then show pos: "0 < ?k" using zs by (simp add: chunk_blocks_def)
  have le: "?k \<le> per_chunk z" "i * per_chunk z + ?k \<le> unat k" using at by (auto simp: chunk_blocks_def)
  then have "?k * z \<le> per_chunk z * z" by (intro mult_right_mono) simp_all
  then show "?k * z \<le> MAX_PAYLOAD" using zs by simp
  have bc: "unat (ums_block_count u) < 2 ^ 32" using unsigned_less [of "ums_block_count u"] by simp
  show uk: "unat (of_nat ?k :: u32) = ?k" using le k bc by (intro unat_of_nat_small) simp
  have lba: "unat (a + of_nat (i * per_chunk z)) = unat a + i * per_chunk z" using at k bc by (intro unat_add_small) simp
  show "in_storage u (a + of_nat (i * per_chunk z)) (of_nat ?k)"
    unfolding in_storage_def word_less_nat_alt uk lba using pos le k zs by simp
  have "i < 2 ^ 16" using i k(3) by simp
  then have idx: "unat (of_nat i :: u16) = i" by (simp add: unat_of_nat)
  have "request_fits u a k" using z k by (simp add: request_fits_def)
  from compute_chunk_fits [OF this, of "of_nat i" build] at idx z
  show "compute_chunk build u a k (of_nat i) m = Ret (Inr (a + of_nat (i * per_chunk z), of_nat ?k, ?k * z)) m" for m :: spi_link
    by simp
qed

lemma request_chunk_read:
  assumes l: "link_holds env z p d r0 u l bl" and a: "in_link z u a k" and i: "i < chunk_count (unat k * z)"
  shows "\<exists>r l'. ask_slave build depth env (chunk_request Read q a k i) [] l = Ret r l' \<and>
    chunk_data r = (ESP_OK, read_blocks (chunk_blocks z (unat k) i) (a + of_nat (i * per_chunk z)) bl) \<and>
    link_holds env z p d r0 u l' bl"
proof -
  let ?k = "chunk_blocks z (unat k) i"
  let ?out = "read_blocks ?k (a + of_nat (i * per_chunk z)) bl"
  note req = link_request [OF l a i]
  from l obtain s where s: "idle_link u s l" "storage_holds env z p d r0 u s bl" by (auto simp: link_holds_def)
  have len: "length ?out = ?k * z" using storage_sizes [OF s(2)] by simp
  have n: "0 < ?k * z" "?k * z \<le> MAX_PAYLOAD" using req(5,6) sizes_okD(1) [OF req(2)] by simp_all
  have rd: "\<exists>t. bd_read_blocks build depth env u (a + of_nat (i * per_chunk z)) (of_nat ?k) buff s = Ret (Inr (), ?out) t \<and>
      storage_holds env z p d r0 u t bl" if "length buff = ?k * z" for buff
    using storage.rd_ok [OF s(2) req(8), of buff build depth] that req(7) by simp
  obtain l' t where run: "ask_slave build depth env (chunk_request Read q a k i) [] l =
      Ret (response_header (chunk_request Read q a k i) ESP_OK (of_nat (?k * z)), frame ?out) l'" "idle_link u t l'"
    "storage_holds env z p d r0 u t bl"
    using chunk_read [OF s(1) req(3) n req(9) rd len, of q] by blast
  have "unat (of_nat (?k * z) :: u32) = ?k * z" using n(2) by (intro unat_of_nat_small) simp
  then have "chunk_data (response_header (chunk_request Read q a k i) ESP_OK (of_nat (?k * z)), frame ?out) = (ESP_OK, ?out)"
    using len by (simp add: chunk_data_def Let_def frame_def)
  with run show ?thesis by (auto simp: link_holds_def)
qed

lemma request_chunk_write:
  assumes l: "link_holds env z p d r0 u l bl" and a: "in_link z u a k" and i: "i < chunk_count (unat k * z)"
    and data: "length data = chunk_blocks z (unat k) i * z"
  shows "\<exists>h x l'. ask_slave build depth env (chunk_request Write q a k i) (frame data) l = Ret (h, x) l' \<and> hdr_arg0 h = ESP_OK \<and>
    link_holds env z p d r0 u l' (write_blocks z (chunk_blocks z (unat k) i) (a + of_nat (i * per_chunk z)) data bl)"
proof -
  let ?k = "chunk_blocks z (unat k) i"
  note req = link_request [OF l a i]
  from l obtain s where s: "idle_link u s l" "storage_holds env z p d r0 u s bl" by (auto simp: link_holds_def)
  obtain t where t: "bd_write_blocks build depth env u (a + of_nat (i * per_chunk z)) (of_nat ?k) data s = Ret (Inr ()) t"
    "storage_holds env z p d r0 u t (write_blocks z ?k (a + of_nat (i * per_chunk z)) data bl)"
    using storage.wr_ok [OF s(2) req(8), of data build depth] data req(7) by auto
  from chunk_write [OF s(1) req(3,6) data req(9) t(1), of q] t(2) show ?thesis by (fastforce simp: link_holds_def)
qed

text \<open>All chunks from chunk \<open>i\<close> on.\<close>

lemma chunk_step:
  assumes "sizes_ok z" and "i * per_chunk z < n"
  shows "n - i * per_chunk z = chunk_blocks z n i + (n - Suc i * per_chunk z)"
    and "n - Suc i * per_chunk z \<noteq> 0 \<Longrightarrow> chunk_blocks z n i = per_chunk z"
  using assms by (auto simp: chunk_blocks_def min_def)

lemma read_chunks_ok:
  assumes "link_holds env z p d r0 u l bl" and "in_link z u a k" and "i + c = chunk_count (unat k * z)"
  shows "\<exists>l'. read_chunks build depth env q a k i c l =
    Ret (ESP_OK, read_blocks (unat k - i * per_chunk z) (a + of_nat (i * per_chunk z)) bl) l' \<and> link_holds env z p d r0 u l' bl"
  using assms
proof (induction c arbitrary: i l)
  case 0
  from 0(1) have z: "sizes_ok z" by (auto simp: link_holds_def storage_holds_def)
  have "\<not> i < chunk_count (unat k * z)" using 0(3) by simp
  then have "unat k \<le> i * per_chunk z" using chunk_count_iff chunk_arith(2) [OF z] by (metis not_less)
  then show ?case using 0(1) by simp
next
  case (Suc c)
  let ?p = "per_chunk z"
  have i: "i < chunk_count (unat k * z)" using Suc.prems(3) by simp
  note req = link_request(2,4) [OF Suc.prems(1,2) i] and step = chunk_step [OF req]
  obtain r l1 where r: "ask_slave build depth env (chunk_request Read q a k i) [] l = Ret r l1"
    "chunk_data r = (ESP_OK, read_blocks (chunk_blocks z (unat k) i) (a + of_nat (i * ?p)) bl)" "link_holds env z p d r0 u l1 bl"
    using request_chunk_read [OF Suc.prems(1,2) i, of build depth q] by blast
  obtain l2 where l2: "read_chunks build depth env q a k (Suc i) c l1 =
      Ret (ESP_OK, read_blocks (unat k - Suc i * ?p) (a + of_nat (Suc i * ?p)) bl) l2" "link_holds env z p d r0 u l2 bl"
    using Suc.IH [OF r(3) Suc.prems(2), of "Suc i"] Suc.prems(3) by auto
  have "read_blocks (unat k - i * ?p) (a + of_nat (i * ?p)) bl = read_blocks (chunk_blocks z (unat k) i) (a + of_nat (i * ?p)) bl @
      read_blocks (unat k - Suc i * ?p) (a + of_nat (Suc i * ?p)) bl"
  proof (cases "unat k - Suc i * ?p = 0")
    case True
    then have "unat k - i * ?p = chunk_blocks z (unat k) i" using step(1) by simp
    with True show ?thesis by simp
  next
    case False
    then have "chunk_blocks z (unat k) i = ?p" by (rule step(2))
    then show ?thesis unfolding step(1) read_blocks_append by (simp add: algebra_simps)
  qed
  with r l2 show ?case by (simp add: bind_run)
qed

lemma write_chunks_ok:
  assumes "link_holds env z p d r0 u l bl" and "in_link z u a k" and "i + c = chunk_count (unat k * z)"
    and "length data = (unat k - i * per_chunk z) * z"
  shows "\<exists>l'. write_chunks build depth env q a k data i c l = Ret ESP_OK l' \<and>
    link_holds env z p d r0 u l' (write_blocks z (unat k - i * per_chunk z) (a + of_nat (i * per_chunk z)) data bl)"
  using assms
proof (induction c arbitrary: i l bl data)
  case 0
  from 0(1) have z: "sizes_ok z" by (auto simp: link_holds_def storage_holds_def)
  have "\<not> i < chunk_count (unat k * z)" using 0(3) by simp
  then have "unat k \<le> i * per_chunk z" using chunk_count_iff chunk_arith(2) [OF z] by (metis not_less)
  then show ?case using 0(1) by simp
next
  case (Suc c)
  let ?p = "per_chunk z"
  let ?k = "chunk_blocks z (unat k) i"
  have i: "i < chunk_count (unat k * z)" using Suc.prems(3) by simp
  note req = link_request(2,4) [OF Suc.prems(1,2) i] and step = chunk_step [OF req]
  have zs: "?p * z = MAX_PAYLOAD" using sizes_okD(3) [OF req(1)] by simp
  have len: "length data = ?k * z + (unat k - Suc i * ?p) * z" using Suc.prems(4) unfolding step(1) by (simp only: add_mult_distrib)
  have parts: "take MAX_PAYLOAD data = take (?k * z) data" "drop MAX_PAYLOAD data = drop (?k * z) data"
  proof -
    have "?k * z = MAX_PAYLOAD \<or> length data = ?k * z \<and> ?k * z \<le> MAX_PAYLOAD"
      using step(2) zs len chunk_blocks_le(1) [of z "unat k" i] by (metis add.right_neutral mult_is_0 mult_le_mono1)
    then show "take MAX_PAYLOAD data = take (?k * z) data" "drop MAX_PAYLOAD data = drop (?k * z) data" by auto
  qed
  let ?bl = "write_blocks z ?k (a + of_nat (i * ?p)) (take (?k * z) data) bl"
  obtain h x l1 where r: "ask_slave build depth env (chunk_request Write q a k i) (frame (take (?k * z) data)) l = Ret (h, x) l1"
    "hdr_arg0 h = ESP_OK" "link_holds env z p d r0 u l1 ?bl"
    using request_chunk_write [OF Suc.prems(1,2) i, of "take (?k * z) data" build depth q] len by auto
  obtain l2 where l2: "write_chunks build depth env q a k (drop (?k * z) data) (Suc i) c l1 = Ret ESP_OK l2"
    "link_holds env z p d r0 u l2 (write_blocks z (unat k - Suc i * ?p) (a + of_nat (Suc i * ?p)) (drop (?k * z) data) ?bl)"
    using Suc.IH [OF r(3) Suc.prems(2), of "Suc i" "drop (?k * z) data"] Suc.prems(3) len by auto
  have "write_blocks z (unat k - Suc i * ?p) (a + of_nat (Suc i * ?p)) (drop (?k * z) data) ?bl =
      write_blocks z (unat k - i * ?p) (a + of_nat (i * ?p)) data bl"
  proof (cases "unat k - Suc i * ?p = 0")
    case True
    then have "unat k - i * ?p = ?k" "length data = ?k * z" using step(1) len by simp_all
    with True show ?thesis by simp
  next
    case False
    then have k: "?k = ?p" by (rule step(2))
    have "unat k < 2 ^ LENGTH(32)" by (rule unsigned_less)
    then have "?p + (unat k - Suc i * ?p) \<le> 2 ^ 32" using step(1) k by simp
    with write_blocks_append [of "take (?k * z) data" ?k z "unat k - Suc i * ?p" "a + of_nat (i * ?p)" "drop (?k * z) data" bl] len k
    show ?thesis unfolding step(1) by (simp add: algebra_simps)
  qed
  with r l2 show ?case by (simp add: bind_run parts del: MAX_PAYLOAD_def)
qed

interpretation spi_device: block_device z "in_link z u" "ESP_OK" "link_holds env z p d r0 u"
    "spi_read build depth env" "spi_write build depth env" for z u env p d r0 build depth
proof unfold_locales
  fix l bl and a k :: u32 and buff :: "u8 list"
  assume "link_holds env z p d r0 u l bl" "in_link z u a k" "length buff = unat k * z"
  then show "\<exists>t. spi_read build depth env buff a k l = Ret (ESP_OK, read_blocks (unat k) a bl) t \<and> link_holds env z p d r0 u t bl"
    using read_chunks_ok [of env z p d r0 u l bl a k 0 "chunk_count (unat k * z)" build depth 0] by (simp add: spi_read_def)
next
  fix l bl and a k :: u32 and data :: "u8 list"
  assume "link_holds env z p d r0 u l bl" "in_link z u a k" "length data = unat k * z"
  then show "\<exists>t. spi_write build depth env data a k l = Ret ESP_OK t \<and> link_holds env z p d r0 u t (write_blocks z (unat k) a data bl)"
    using write_chunks_ok [of env z p d r0 u l bl a k 0 "chunk_count (unat k * z)" data build depth 0] by (simp add: spi_write_def)
qed

section \<open>Addresses at the ends\<close>

text \<open>The sum \<open>lba_start + offset\<close> is not checked: past \<open>2\<^sup>3\<^sup>2\<close> a debug build panics, and a release build wraps.\<close>

lemma add_u32_wraps:
  assumes "2 ^ 32 \<le> unat a + unat b"
  shows "add_u32 Debug a b s = Fault Panicked" and "add_u32 Release a b s = Ret (a + b) s"
    and "unat (a + b) = unat a + unat b - 2 ^ 32"
proof -
  have "unat a < 2 ^ LENGTH(32)" "unat b < 2 ^ LENGTH(32)" by (rule unsigned_less)+
  then have "(unat a + unat b) mod 2 ^ 32 = unat a + unat b - 2 ^ 32" using assms by (simp add: mod_if)
  then show "unat (a + b) = unat a + unat b - 2 ^ 32" by (simp add: unat_word_ariths)
qed (use assms in \<open>simp_all add: add_u32_def\<close>)

lemma compute_chunk_wraps:
  assumes z: "sizes_ok (unat (ums_block_size u))" and bytes: "unat n * unat (ums_block_size u) < 2 ^ 32"
    and i: "unat i * per_chunk (unat (ums_block_size u)) < unat n"
    and wraps: "2 ^ 32 \<le> unat a + unat i * per_chunk (unat (ums_block_size u))"
    and room: "unat a + unat n \<le> unat (ums_block_count u) + 2 ^ 32"
  shows "compute_chunk Debug u a n i s = Fault Panicked"
    and "\<exists>k m. compute_chunk Release u a n i s = Ret (Inr (of_nat (unat a + unat i * per_chunk (unat (ums_block_size u)) - 2 ^ 32), k, m)) s"
proof -
  let ?z = "unat (ums_block_size u)"
  let ?o = "unat i * per_chunk ?z"
  let ?k = "chunk_blocks ?z (unat n) (unat i)"
  have bounds: "unat n < 2 ^ 32" "unat a < 2 ^ 32" "unat (ums_block_count u) < 2 ^ 32"
    using unsigned_less [of n] unsigned_less [of a] unsigned_less [of "ums_block_count u"] by simp_all
  note k = chunk_bounds [OF z i]
  note add = add_u32_wraps [of a "of_nat ?o", unfolded k(4), OF wraps]
  have lba: "a + of_nat ?o = of_nat (unat a + ?o - 2 ^ 32)"
    by (rule word_unat_eq_iff [THEN iffD2]) (use add(3) bounds i in \<open>simp add: unat_of_nat_small\<close>)
  have sum: "unat (a + of_nat ?o + of_nat ?k) = unat a + ?o - 2 ^ 32 + ?k"
    using add(3) k(1) room bounds by (subst unat_add_small) simp_all
  have "ums_block_count u \<noteq> 0" using wraps i room by auto
  moreover have "\<not> ums_block_count u < a + of_nat ?o + of_nat ?k"
    using sum k(1) room wraps by (simp add: word_less_nat_alt)
  moreover have "\<not> 2 ^ 32 \<le> unat (a + of_nat ?o) + unat (of_nat ?k :: u32)" using add(3) k bounds room by simp
  moreover have "add_u32 Release a (of_nat ?o) s = Ret (a + of_nat ?o) s" by (rule add(2))
  ultimately have "compute_chunk Release u a n i s = Ret (Inr (a + of_nat ?o, of_nat ?k, ?k * ?z)) s"
    unfolding compute_chunk_at [OF z bytes i] by (simp add: bind_run Let_def)
  then show "\<exists>k m. compute_chunk Release u a n i s = Ret (Inr (of_nat (unat a + ?o - 2 ^ 32), k, m)) s"
    using lba by metis
  show "compute_chunk Debug u a n i s = Fault Panicked"
    unfolding compute_chunk_at [OF z bytes i] by (rule bind_Fault) (rule add(1))
qed

text \<open>READ CAPACITY answers with the last block address, so the last block is not below the block count.\<close>

lemma last_block_excluded:
  assumes "ums_handle u \<noteq> NULL" and "ums_block_size u \<noteq> 0" and "ums_block_count u = b" and "0 < b" and "b \<noteq> 0xFFFFFFFF"
  shows "bd_check build u b 1 n s = Ret (Inl ESP_ERR_INVALID_ARG) s"
proof -
  have "unat b \<noteq> unat (0xFFFFFFFF :: u32)" using assms(5) by (metis word_unat_eq_iff)
  moreover have "unat b < 2 ^ LENGTH(32)" by (rule unsigned_less)
  ultimately have "\<not> range_ok u b 1" using assms(3) by (simp add: range_ok_def)
  then show ?thesis using assms range_ok_iff [of u b 1] by (auto simp: bd_check_def)
qed

end
