(* ===== verification/Firmware.thy ===== *)
theory Firmware imports Spi_Store begin

text \<open>
  The start of the firmware (\<open>src/main.rs\<close> with \<open>init_host\<close>, \<open>src/spi_link/task.rs\<close> and \<open>src/led/led.rs\<close>)
  and the running system: the main loop, the event task of the C driver and the SPI task, in every order
  of their calls.
\<close>

section \<open>Start\<close>

definition LED_GPIO :: nat where [simp]: "LED_GPIO = 8"

definition led_new :: "(sys, unit) prog" where
  "led_new = then_do (emit (Os (EvGpioReset LED_GPIO))) (then_do (emit (Os (EvGpioOutput LED_GPIO)))
     (emit (Os (EvGpioLevel LED_GPIO 1))))"

definition led_drop :: "(sys, unit) prog" where
  "led_drop = emit (Os (EvGpioLevel LED_GPIO 0))"

text \<open>\<open>msc_event_cb\<close> is the address of the callback, and \<open>install\<close> answers \<open>usb_host_install\<close>.\<close>

definition msc_cfg :: "ptr \<Rightarrow> msc_host_driver_config" where
  "msc_cfg msc_event_cb = \<lparr>create_backround_task = True, task_priority = 5, stack_size = 4096, core_id = 0,
     cb_callback = msc_event_cb, cb_callback_arg = NULL\<rparr>"

definition init_host :: "env \<Rightarrow> (event list \<Rightarrow> esp_err_t) \<Rightarrow> ptr \<Rightarrow> (sys, unit rust_result) prog" where
  "init_host env install msc_event_cb =
     then_do (emit (Os (EvDelay 500)))
    (bind (ask install (\<lambda>e. Host (EvLibInstall e))) (\<lambda>err. if err \<noteq> ESP_OK then return (Inl err) else
     then_do (emit (Os (EvDelay 200)))
    (then_do (emit (Os (EvDelay 100)))
    (bind (msc_host_install env (Some (msc_cfg msc_event_cb))) (\<lambda>ret. if ret \<noteq> ESP_OK then return (Inl ret) else return (Inr ()))))))"

definition start_spi_task :: "env \<Rightarrow> (sys, unit rust_result) prog" where
  "start_spi_task env = bind (xTaskCreatePinnedToCore env 4096 10 1) (\<lambda>ok. if ok then return (Inr ()) else return (Inl ESP_FAIL))"

text \<open>
  \<open>main\<close> up to its loop: whether it reaches the loop. When it returns instead, the guard of the LED is
  dropped.
\<close>

definition main_start :: "env \<Rightarrow> (event list \<Rightarrow> esp_err_t) \<Rightarrow> (spi_event list \<Rightarrow> esp_err_t) \<Rightarrow> ptr \<Rightarrow> (spi_link, bool) prog" where
  "main_start env install initialize msc_event_cb = (let give_up = then_do (with_sys led_drop) (return False) in
     then_do (with_sys led_new) (then_do (with_sys tps_new) (then_do (put_usb ums_new)
    (bind (with_sys (init_host env install msc_event_cb)) (\<lambda>r. case r of Inl _ \<Rightarrow> give_up | Inr _ \<Rightarrow>
     then_do (modify (\<lambda>l. spi_new (link_sys l) (link_usb l)))
    (bind (spi_init initialize) (\<lambda>r. case r of Inl _ \<Rightarrow> give_up | Inr _ \<Rightarrow>
     bind (with_sys (start_spi_task env)) (\<lambda>r. case r of Inl _ \<Rightarrow> give_up | Inr _ \<Rightarrow> return True))))))))"

text \<open>The loop of \<open>main\<close>: \<open>poll\<close> on the global object, then 5 ms of sleep.\<close>

definition main_round :: "nat \<Rightarrow> env \<Rightarrow> (event list \<Rightarrow> nat) \<Rightarrow> (spi_link, unit) prog" where
  "main_round depth env clock = bind (gets link_usb) (\<lambda>usb. case usb of None \<Rightarrow> fault NullDeref | Some u \<Rightarrow>
     bind (with_sys (poll depth env clock True u)) (\<lambda>u. then_do (put_usb u) (with_sys (emit (Os (EvDelay 5))))))"

definition event_round :: "env \<Rightarrow> usb_host_client_event \<Rightarrow> (spi_link, unit) prog" where
  "event_round env ev = bind (gets link_usb) (\<lambda>usb. case usb of None \<Rightarrow> fault NullDeref | Some u \<Rightarrow>
     bind (with_sys (deliver_event env ev u)) put_usb)"

lemma with_sys_run [simp]:
  "m (link_sys l) = Ret a s \<Longrightarrow> with_sys m l = Ret a (l\<lparr>link_sys := s\<rparr>)"
  "m (link_sys l) = Fault f \<Longrightarrow> with_sys m l = Fault f"
  by (simp_all add: with_sys_def)

section \<open>After the start\<close>

text \<open>The state the firmware starts in: no driver, and no device.\<close>

definition powered_on :: "sys \<Rightarrow> bool" where
  "powered_on s \<longleftrightarrow> s_msc_driver s = None \<and> next_ptr s \<noteq> NULL \<and> (\<forall>q\<ge>next_ptr s. devs s q = None)"

lemma powered_on_hist [simp]: "powered_on (s\<lparr>hist := h\<rparr>) = powered_on s"
  by (simp add: powered_on_def)

lemma init_host_cases:
  assumes "powered_on s" and "cb \<noteq> NULL" and "\<And>h. snd (r_client_register env h) \<noteq> NULL"
  shows "\<exists>r t. init_host env install cb s = Ret r t \<and> (r = Inr () \<longrightarrow> booted t)"
proof (cases "install (hist s @ [Os (EvDelay 500)]) = ESP_OK")
  case True
  let ?s = "s\<lparr>hist := hist s @ [Os (EvDelay 500), Host (EvLibInstall ESP_OK), Os (EvDelay 200), Os (EvDelay 100)]\<rparr>"
  have "config_ok (Some (msc_cfg cb))" using assms(2) by (simp add: config_ok_def msc_cfg_def)
  then obtain e t es where t: "msc_host_install env (Some (msc_cfg cb)) ?s = Ret e t" "devs t = devs s" "next_ptr s \<le> next_ptr t"
    "e = ESP_OK \<and> (\<exists>client sem h. s_msc_driver t = Some (fresh_driver (msc_cfg cb) client sem) \<and> r_client_register env h = (ESP_OK, client)) \<or>
      e \<noteq> ESP_OK"
    using install_cases [of "msc_cfg cb" ?s env] assms(1) by (auto simp: powered_on_def)
  have "booted t" if "e = ESP_OK"
  proof -
    from t(4) that obtain client sem h where d: "s_msc_driver t = Some (fresh_driver (msc_cfg cb) client sem)"
      "r_client_register env h = (ESP_OK, client)" by blast
    have "client \<noteq> NULL" using assms(3) [of h] d(2) by simp
    then show ?thesis using assms(1) d(1) t(2,3) by (auto simp: booted_def powered_on_def fresh_driver_def)
  qed
  with t(1) True show ?thesis by (auto simp: init_host_def then_do_def bind_run)
qed (auto simp: init_host_def then_do_def bind_run)

lemma spi_init_run:
  "\<exists>err w. spi_init initialize l = Ret (if err = ESP_OK then Inr () else Inl err) (l\<lparr>wires := w, inited := (inited l \<or> err = ESP_OK)\<rparr>)"
proof -
  let ?w = "wires l @ [Spi_Gpio (EvGpioReset PIN_READY), Spi_Gpio (EvGpioOutput PIN_READY), Spi_Gpio (EvGpioLevel PIN_READY 0)]"
  show ?thesis
    by (rule exI [of _ "initialize ?w"]) (cases "initialize ?w = ESP_OK"; fastforce simp: spi_init_def wire_def then_do_def bind_run)
qed

lemma booted_hist [simp]: "booted (s\<lparr>hist := h\<rparr>) = booted s"
  by (simp add: booted_def)

lemma run_start_ok:
  assumes "inited l" and "link_usb l = Some ums_new" and "booted (link_sys l)" and "length (resp_buf l) = RX_LEN"
    and "length (block_buf l) = MAX_PAYLOAD" and "resp_len l \<le> RX_LEN" and "heap RX_LEN"
  shows "\<exists>m. spi_run_start heap l = Ret () m \<and> link_ok m \<and> link_usb m = Some ums_new"
  using assms storage_ok_booted
  by (simp add: spi_run_start_def then_do_def bind_run link_ok_def buffers_ok_def dma_new_def)

lemma run_start_heap: "spi_run_start heap l = Ret () m \<Longrightarrow> heap RX_LEN"
  by (auto simp: spi_run_start_def dma_new_def prog_Ret split: if_splits)

lemma main_start_cases:
  assumes "powered_on (link_sys l)" and "cb \<noteq> NULL" and "\<And>h. snd (r_client_register env h) \<noteq> NULL"
  shows "\<exists>ok m. main_start env install initialize cb l = Ret ok m \<and>
    (if ok then heap RX_LEN \<longrightarrow> (\<exists>n. spi_run_start heap m = Ret () n \<and> link_ok n \<and> link_usb n = Some ums_new)
     else last (hist (link_sys m)) = Os (EvGpioLevel LED_GPIO 0))"
proof -
  let ?s = "link_sys l\<lparr>hist := hist (link_sys l) @ [Os (EvGpioReset 8), Os (EvGpioOutput 8), Os (EvGpioLevel 8 1),
      Os (EvGpioReset 1), Os (EvGpioOutput 1), Os (EvGpioLevel 1 0)]\<rparr>"
  let ?give_up = "then_do (with_sys led_drop) (return False)"
  have stop: "\<exists>m. ?give_up k = Ret False m \<and> last (hist (link_sys m)) = Os (EvGpioLevel LED_GPIO 0)" for k
    by (simp add: led_drop_def then_do_def)
  have "powered_on ?s" using assms(1) by simp
  from init_host_cases [OF this assms(2,3), of install] obtain r t where
    r: "init_host env install cb ?s = Ret r t" "r = Inr () \<longrightarrow> booted t" by blast
  let ?l = "l\<lparr>link_usb := Some ums_new, link_sys := t\<rparr>"
  let ?k = "spi_new t (Some ums_new)"
  obtain err w where i: "spi_init initialize ?k = Ret (if err = ESP_OK then Inr () else Inl err) (?k\<lparr>inited := (err = ESP_OK), wires := w\<rparr>)"
    using spi_init_run [of initialize ?k] by (auto simp: spi_new_def)
  have start: "main_start env install initialize cb l = (case r of Inl _ \<Rightarrow> ?give_up ?l
      | Inr _ \<Rightarrow> (if err \<noteq> ESP_OK then ?give_up (?k\<lparr>inited := False, wires := w\<rparr>)
          else bind (with_sys (start_spi_task env)) (\<lambda>r. case r of Inl _ \<Rightarrow> ?give_up | Inr _ \<Rightarrow> return True) (?k\<lparr>inited := True, wires := w\<rparr>)))"
    using r(1) i by (cases r) (simp_all add: main_start_def led_new_def tps_new_def put_usb_def then_do_def bind_run Let_def)
  show ?thesis
  proof (cases "r = Inr () \<and> err = ESP_OK")
    case True
    define task where "task = r_task_create env (hist t) 4096 10 1"
    let ?t = "t\<lparr>hist := hist t @ [Os (EvTaskCreate 4096 10 1 task)]\<rparr>"
    let ?m = "?k\<lparr>inited := True, wires := w, link_sys := ?t\<rparr>"
    have "with_sys (start_spi_task env) (?k\<lparr>inited := True, wires := w\<rparr>) = Ret (if task then Inr () else Inl ESP_FAIL) ?m"
      by (simp add: with_sys_def start_spi_task_def xTaskCreatePinnedToCore_def spi_new_def task_def [symmetric] bind_run)
    with start True have "main_start env install initialize cb l = (if task then Ret True ?m else ?give_up ?m)"
      by (simp add: bind_run)
    moreover have "heap RX_LEN \<longrightarrow> (\<exists>n. spi_run_start heap ?m = Ret () n \<and> link_ok n \<and> link_usb n = Some ums_new)"
      using r(2) True by (intro impI run_start_ok) (simp_all add: spi_new_def)
    ultimately show ?thesis using stop [of ?m] by (cases task) auto
  next
    case False
    then consider "\<exists>e. r = Inl e" | "r = Inr ()" "err \<noteq> ESP_OK" by (cases r) auto
    then show ?thesis
    proof cases
      case 1
      then show ?thesis using start stop [of ?l] by auto
    next
      case 2
      then show ?thesis using start stop [of "?k\<lparr>inited := False, wires := w\<rparr>"] by auto
    qed
  qed
qed

text \<open>When every call answers, \<open>main\<close> reaches its loop.\<close>

lemma init_host_ok:
  assumes "start_answers env" and "powered_on s" and "cb \<noteq> NULL"
  shows "\<exists>t. init_host env (\<lambda>_. ESP_OK) cb s = Ret (Inr ()) t"
proof -
  let ?s = "s\<lparr>hist := hist s @ [Os (EvDelay 500), Host (EvLibInstall ESP_OK), Os (EvDelay 200), Os (EvDelay 100)]\<rparr>"
  have "config_ok (Some (msc_cfg cb))" using assms(3) by (simp add: config_ok_def msc_cfg_def)
  from install_ok [OF assms(1) this, of ?s] assms(2) show ?thesis
    by (auto simp: init_host_def then_do_def bind_run powered_on_def)
qed

lemma main_start_ok:
  assumes "start_answers env" and "powered_on (link_sys l)" and "cb \<noteq> NULL"
  shows "\<exists>m. main_start env (\<lambda>_. ESP_OK) (\<lambda>_. ESP_OK) cb l = Ret True m"
proof -
  let ?s = "link_sys l\<lparr>hist := hist (link_sys l) @ [Os (EvGpioReset 8), Os (EvGpioOutput 8), Os (EvGpioLevel 8 1),
      Os (EvGpioReset 1), Os (EvGpioOutput 1), Os (EvGpioLevel 1 0)]\<rparr>"
  have "powered_on ?s" using assms(2) by simp
  from init_host_ok [OF assms(1) this assms(3)] obtain t where t: "init_host env (\<lambda>_. ESP_OK) cb ?s = Ret (Inr ()) t" by blast
  have task: "\<exists>u. with_sys (start_spi_task env) k = Ret (Inr ()) u" for k
    using assms(1) by (simp add: with_sys_def start_spi_task_def xTaskCreatePinnedToCore_def start_answers_def bind_run)
  have spi: "\<exists>w. spi_init (\<lambda>_. ESP_OK) k = Ret (Inr ()) w" for k
    by (simp add: spi_init_def wire_def then_do_def bind_run)
  obtain w where w: "spi_init (\<lambda>_. ESP_OK) (spi_new t (Some ums_new)) = Ret (Inr ()) w" using spi by blast
  obtain v where v: "with_sys (start_spi_task env) w = Ret (Inr ()) v" using task by blast
  show ?thesis using t w v
    by (simp add: main_start_def led_new_def tps_new_def put_usb_def then_do_def bind_run Let_def)
qed

section \<open>Every order of the tasks\<close>

inductive system_step :: "env \<Rightarrow> nat \<Rightarrow> (event list \<Rightarrow> nat) \<Rightarrow> build \<Rightarrow> spi_link \<Rightarrow> spi_link \<Rightarrow> bool"
  for env depth clock build where
  ss_main: "main_round depth env clock l = Ret () m \<Longrightarrow> system_step env depth clock build l m"
| ss_event: "event_round env ev l = Ret () m \<Longrightarrow> system_step env depth clock build l m"
| ss_spi: "spi_round build depth env master l = Ret () m \<Longrightarrow> system_step env depth clock build l m"

definition running :: "spi_link \<Rightarrow> bool" where
  "running l \<longleftrightarrow> link_ok l \<and> link_usb l \<noteq> None"

lemma put_usb_runs:
  "runs F (\<lambda>l. buffers_ok l \<and> link_usb l = Some u \<and> storage_ok (link_sys l) u') (put_usb u') (\<lambda>_. serving u')"
  by (auto simp: runs_def put_usb_def serving_def link_ok_def buffers_ok_def)

lemma main_round_runs:
  assumes "parser_advances env" and "host_ok env"
  shows "runs setup_faults running (main_round depth env clock) (\<lambda>_. running)"
proof (rule runsI)
  fix l assume "running l"
  then obtain u where u: "serving u l" "link_usb l = Some u" by (auto simp: running_def serving_def)
  have sleep: "runs setup_faults (serving u') (with_sys (emit (Os (EvDelay 5)))) (\<lambda>_. running)" for u'
    by (auto simp: runs_def with_sys_def serving_def link_ok_def buffers_ok_def running_def)
  have "runs setup_faults (serving u) (bind (with_sys (poll depth env clock True u))
      (\<lambda>u. then_do (put_usb u) (with_sys (emit (Os (EvDelay 5)))))) (\<lambda>_. running)"
    by (rule runs_bind [OF with_sys_runs [OF poll_runs [OF assms]] runs_then_do [OF put_usb_runs sleep]])
  from runs_at [OF this u(1)] u(2) show "case main_round depth env clock l of Ret a t \<Rightarrow> running t | Fault f \<Rightarrow> f \<in> setup_faults"
    by (simp add: main_round_def bind_run)
qed

lemma event_round_runs:
  assumes "parser_advances env"
  shows "runs {} running (event_round env ev) (\<lambda>_. running)"
proof (rule runsI)
  fix l assume "running l"
  then obtain u where u: "serving u l" "link_usb l = Some u" by (auto simp: running_def serving_def)
  have put: "runs {} (\<lambda>l. buffers_ok l \<and> link_usb l = Some u \<and> storage_ok (link_sys l) u') (put_usb u') (\<lambda>_. running)" for u'
    by (rule runs_weaken [OF put_usb_runs]) (auto simp: running_def serving_def)
  have "runs {} (serving u) (bind (with_sys (deliver_event env ev u)) put_usb) (\<lambda>_. running)"
    by (rule runs_bind [OF with_sys_runs [OF deliver_event_runs [OF assms]] put])
  from runs_at [OF this u(1)] u(2) show "case event_round env ev l of Ret a t \<Rightarrow> running t | Fault f \<Rightarrow> f \<in> {}"
    by (simp add: event_round_def bind_run)
qed

text \<open>No program of the SPI task takes the object away.\<close>

definition keeps_usb :: "spi_link \<Rightarrow> spi_link \<Rightarrow> bool" where
  "keeps_usb l m \<longleftrightarrow> (link_usb l \<noteq> None \<longrightarrow> link_usb m \<noteq> None)"

interpretation usb: frame_relation keeps_usb
  by unfold_locales (auto simp: keeps_usb_def)

lemma keeps_usb_sys: "keeps keeps_usb (with_sys m)"
  by (auto simp: keeps_def with_sys_def keeps_usb_def split: outcome.splits)

lemma keeps_usb_modify: "(\<And>l. link_usb (f l) = link_usb l) \<Longrightarrow> keeps keeps_usb (modify f)"
  by (simp add: keeps_def keeps_usb_def)

lemma keeps_usb_buffers:
  "keeps keeps_usb (put_usb u)" "keeps keeps_usb (wire e)" "keeps keeps_usb (spi_slave_xfer master n)" "keeps keeps_usb (in_bounds k buf)"
  by (auto simp: keeps_def keeps_usb_def put_usb_def wire_def spi_slave_xfer_def in_bounds_def Let_def split: if_splits prod.splits)

lemma keeps_usb_arm: "keeps keeps_usb (arm_response_with_arg1 req e a payload)" "keeps keeps_usb (arm_response req e payload)"
  "keeps keeps_usb (arm_response_from_block_buf req e a n)"
  by (simp_all add: arm_response_def arm_response_with_arg1_def arm_response_from_block_buf_def Let_def
      usb.keeps_then_do keeps_usb_modify)

lemma keeps_usb_send: "keeps keeps_usb (send_response master)"
  unfolding send_response_def Let_def ready_high_def ready_low_def
  by (intro usb.keeps_rules keeps_usb_buffers keeps_usb_modify) simp_all

lemma keeps_usb_answer: "keeps keeps_usb (answer master req e)"
  unfolding answer_def by (intro usb.keeps_rules keeps_usb_arm keeps_usb_send)

lemma keeps_usb_receive: "keeps keeps_usb (receive_payload master n)"
  unfolding receive_payload_def ready_high_def ready_low_def
  by (intro usb.keeps_rules keeps_usb_buffers keeps_usb_modify) simp_all

lemma keeps_usb_result: "(\<And>e. keeps keeps_usb (f e)) \<Longrightarrow> (\<And>a. keeps keeps_usb (g a)) \<Longrightarrow>
    keeps keeps_usb (case r of Inl e \<Rightarrow> f e | Inr a \<Rightarrow> g a)"
  by (cases r) simp_all

lemma keeps_usb_refresh: "keeps keeps_usb (refresh_capacity depth env u)" "keeps keeps_usb (ensure_capacity_known depth env u)"
proof -
  show r: "keeps keeps_usb (refresh_capacity depth env u)" for u
    unfolding refresh_capacity_def by (intro usb.keeps_rules keeps_usb_sys keeps_usb_buffers)
  show "keeps keeps_usb (ensure_capacity_known depth env u)"
    unfolding ensure_capacity_known_def by (intro usb.keeps_rules r)
qed

lemma keeps_usb_chunk: "keeps keeps_usb (compute_chunk build u a n i)"
  by (auto simp: keeps_def keeps_usb_def dest: compute_chunk_cases(2))

lemmas keeps_usb_rules = usb.keeps_rules keeps_usb_sys keeps_usb_buffers keeps_usb_arm keeps_usb_send keeps_usb_answer
  keeps_usb_receive keeps_usb_result keeps_usb_refresh keeps_usb_chunk keeps_usb_modify

lemma keeps_usb_round: "keeps keeps_usb (spi_round build depth env master)"
proof -
  have "keeps keeps_usb (dispatch build depth env master req c)" for req c
    by (cases c; simp only: dispatch_def cmd.case on_get_status_def on_get_capacity_def on_read_def on_write_def on_flush_def
      refuse_write_def Let_def; intro keeps_usb_rules; simp)
  then show ?thesis unfolding spi_round_def Let_def by (intro keeps_usb_rules)
qed

lemma spi_round_running:
  assumes "host_ok env"
  shows "runs (block_faults build) running (spi_round build depth env master) (\<lambda>_. running)"
proof (rule runsI)
  fix l assume l: "running l"
  from runs_at [OF spi_round_runs [OF assms], of l build depth master] l keepsD [OF keeps_usb_round, of build depth env master l]
  show "case spi_round build depth env master l of Ret a t \<Rightarrow> running t | Fault f \<Rightarrow> f \<in> block_faults build"
    by (cases "spi_round build depth env master l") (auto simp: running_def keeps_usb_def)
qed

lemma system_running:
  assumes "(system_step env depth clock build)\<^sup>*\<^sup>* l m" and "running l" and "parser_advances env" and "host_ok env"
  shows "running m"
  using assms(1)
proof (induction rule: rtranclp_induct)
  case base
  show ?case by (rule assms(2))
next
  case (step m n)
  from step(2) show ?case
  proof cases
    case ss_main
    with runs_RetD [OF main_round_runs [OF assms(3,4)] step.IH] show ?thesis by blast
  next
    case (ss_event ev)
    with runs_RetD [OF event_round_runs [OF assms(3)] step.IH] show ?thesis by blast
  next
    case (ss_spi master)
    with runs_RetD [OF spi_round_running [OF assms(4)] step.IH] show ?thesis by blast
  qed
qed

end
