(* ===== verification/Sample_Link.thy ===== *)
theory Sample_Link imports Firmware begin

text \<open>
  A running link for the witnesses: the drive of \<open>Ram_Disk\<close> with blocks of 16 bytes, opened by the firmware
  as device 10, and a link that waits for its first header.
\<close>

definition sample_usb :: usb_mass_storage where
  "sample_usb = ums_new\<lparr>ums_handle := 10, ums_block_size := 16, ums_block_count := 2000\<rparr>"

definition sample_link :: spi_link where
  "sample_link = \<lparr>link_sys = sample_sys, link_usb = Some sample_usb, inited = True, resp_len = 0,
     resp_buf = replicate RX_LEN 0, block_buf = replicate MAX_PAYLOAD 0, rx_dma = replicate RX_LEN 0, tx_dma = replicate RX_LEN 0, wires = []\<rparr>"

definition ram_host :: env where
  "ram_host = sample_host (ram_device sample_config 16 7 (empty_ram 16))"

lemma ram_host_ok: "host_ok ram_host" "parser_advances ram_host"
  by (simp_all add: ram_host_def sample_parser)

lemma ram_host_starts: "start_answers ram_host"
  by (simp add: start_answers_def ram_host_def sample_host_def)

lemma sample_powered_on: "powered_on (link_sys (spi_new (sample_sys\<lparr>s_msc_driver := None\<rparr>) None))"
  by (auto simp: powered_on_def spi_new_def sample_sys_def)

lemma sample_on_ram: "on_ram ram_host 16 10 sample_device (empty_ram 16) sample_sys (empty_ram 16)"
  by (simp add: on_ram_def sample_dev sample_fields ram_after_def)

lemma empty_ram_idle: "idle 16 (empty_ram 16)"
  by (simp add: idle_def empty_ram_def blocks_of_def)

lemma sample_device_fields: "config sample_device = sample_config" "handle sample_device = 7"
  by (simp_all add: sample_device_def)

lemma sample_endpoints: "two_endpoints sample_config"
  by (simp add: two_endpoints_def sample_config_def)

lemma sample_usb_fields:
  "ums_handle sample_usb = 10" "ums_block_size sample_usb = 16" "ums_block_count sample_usb = 2000" "ums_vfs sample_usb = 0"
  "pending_addr sample_usb = - 1" "unat (ums_block_size sample_usb) = 16" "unat (ums_block_count sample_usb) = 2000"
  by (simp_all add: sample_usb_def ums_new_def)

lemma sample_sizes: "sizes_ok 16" "per_chunk 16 = 512"
  by (simp_all add: sizes_ok_def per_chunk_def)

lemma sample_storage_ok: "storage_ok sample_sys sample_usb"
proof -
  have "driver_ok sample_sys sample_driver"
    by (simp add: driver_ok_def sample_fields sample_dev) (simp add: sample_sys_def sample_driver_def)
  moreover have "handle_ok sample_sys sample_driver 10" by (simp add: handle_ok_def sample_fields)
  moreover have "next_ptr sample_sys \<noteq> NULL \<and> (\<forall>q\<ge>next_ptr sample_sys. devs sample_sys q = None)" by (simp add: sample_sys_def)
  ultimately show ?thesis by (auto simp: storage_ok_def sample_usb_fields)
qed

lemma sample_storage_holds: "storage_holds ram_host 16 10 sample_device (empty_ram 16) sample_usb sample_sys (\<lambda>_. replicate 16 0)"
  unfolding storage_holds_def sample_device_fields
  using sample_on_ram empty_ram_idle sample_sizes sample_endpoints sample_carries
  by (auto simp: sample_usb_fields ram_host_def empty_ram_def)

lemma sample_buffers_ok: "buffers_ok sample_link"
  by (simp add: buffers_ok_def sample_link_def)

lemma sample_link_ok: "link_ok sample_link"
  using sample_buffers_ok sample_storage_ok by (simp add: link_ok_def) (simp add: sample_link_def)

lemma sample_idle: "idle_link sample_usb sample_sys sample_link"
  using sample_buffers_ok by (simp add: idle_link_def) (simp add: sample_link_def line_high_def)

lemma sample_link_holds: "link_holds ram_host 16 10 sample_device (empty_ram 16) sample_usb sample_link (\<lambda>_. replicate 16 0)"
  using sample_idle sample_storage_holds by (auto simp: link_holds_def)

section \<open>A drive that does not open\<close>

definition shut_host :: env where
  "shut_host = ram_host\<lparr>r_device_open := \<lambda>_ _ _. (ESP_ERR_INVALID_STATE, 0)\<rparr>"

lemma shut_host_fields:
  "r_calloc shut_host h" "r_sem_create shut_host h" "r_device_open shut_host h c a = (ESP_ERR_INVALID_STATE, 0)"
  "fst (r_handle_events shut_host h c n) = []"
  by (simp_all add: shut_host_def ram_host_def sample_host_def)

lemma refused_open:
  assumes "s_msc_driver s = Some drv" and "client_handle drv \<noteq> NULL" and "next_ptr s \<noteq> NULL" and "next_ptr s \<notin> set (devices_tailq drv)"
  shows "\<exists>t. msc_host_install_device depth shut_host a s = Ret (ESP_ERR_INVALID_STATE, None) t \<and> s_msc_driver t = Some drv \<and>
    next_ptr t = Suc (Suc (next_ptr s))"
  using assms
  by (simp add: msc_host_install_device_def new_ptr_def bind_run then_do_def stailq_insert_tail_def put_driver_def Let_def
      open_device_def xSemaphoreCreateBinary_def update_dev_def usb_host_device_open_def shut_host_fields msc_deinit_device_def
      stailq_remove_def usb_host_interface_release_def usb_host_device_close_def usb_host_transfer_free_def free_device_def
      zero_device_def remove1_append on_error_def)

lemma refused_try:
  assumes "0 \<le> pending_addr u" and "0 < retries_left u" and "s_msc_driver s = Some sample_driver" and "11 \<le> next_ptr s"
  shows "\<exists>t. try_open_and_mount depth shut_host u s = Ret (u\<lparr>retries_left := retries_left u - 1\<rparr>) t \<and>
    s_msc_driver t = Some sample_driver \<and> 11 \<le> next_ptr t"
  using refused_open [OF assms(3), of depth "of_int (pending_addr u)"] assms
  by (auto simp: try_open_and_mount_def sample_fields bind_run)

lemma refused_tries:
  assumes "0 \<le> pending_addr u" and "retries_left u = 3" and "s_msc_driver s = Some sample_driver" and "11 \<le> next_ptr s"
  shows "\<exists>t. open_tries 3 depth shut_host u s = Ret (u\<lparr>retries_left := 0\<rparr>) t \<and> s_msc_driver t = Some sample_driver"
proof -
  obtain t1 where t1: "try_open_and_mount depth shut_host u s = Ret (u\<lparr>retries_left := 2\<rparr>) t1" "s_msc_driver t1 = Some sample_driver" "11 \<le> next_ptr t1"
    using refused_try [of u s depth] assms by auto
  obtain t2 where t2: "try_open_and_mount depth shut_host (u\<lparr>retries_left := 2\<rparr>) t1 = Ret (u\<lparr>retries_left := 1\<rparr>) t2"
    "s_msc_driver t2 = Some sample_driver" "11 \<le> next_ptr t2"
    using refused_try [of "u\<lparr>retries_left := 2\<rparr>" t1 depth] assms t1 by auto
  obtain t3 where t3: "try_open_and_mount depth shut_host (u\<lparr>retries_left := 1\<rparr>) t2 = Ret (u\<lparr>retries_left := 0\<rparr>) t3"
    "s_msc_driver t3 = Some sample_driver"
    using refused_try [of "u\<lparr>retries_left := 1\<rparr>" t2 depth] assms t2 by auto
  show ?thesis using t1 t2 t3 by (simp add: eval_nat_numeral bind_run)
qed

end
