(* ===== verification/Driver_Tasks.thy ===== *)
theory Driver_Tasks imports Msc_Host begin

text \<open>
  The driver of \<open>src/msc_host.c\<close> with several tasks. \<open>Msc_Host\<close> runs one call after the other;
  here the same lines are steps of tasks that interleave: concurrent calls of \<open>msc_host_install\<close>, and
  \<open>msc_host_uninstall\<close> beside the task that handles the events. A step is what happens between two
  accesses of memory the tasks share; a critical section is one step. The results of the calls to
  the host library are left open.
\<close>

section \<open>Concurrent installations\<close>

text \<open>
  Where a call of \<open>msc_host_install\<close> stands: before the test of line 408, the allocation (410), the
  semaphore and the client (422 to 425), the critical section (427 to 431), the background task
  (433 to 443), and the label \<open>fail\<close> before line 448 and before line 449.
\<close>

datatype install_pc =
    At_Test
  | At_Alloc
  | At_Prepare
  | At_Critical
  | At_Task
  | At_Fail esp_err_t
  | At_Release esp_err_t
  | Returned esp_err_t

text \<open>\<open>s_msc_driver\<close> as the pointer it is, the driver objects on the heap, and each call's position
  with its local \<open>driver\<close>.\<close>

record installs =
  s_driver :: ptr
  objects :: "ptr set"
  ipc :: "nat \<Rightarrow> install_pc"
  own :: "nat \<Rightarrow> ptr"

abbreviation goes_to :: "nat \<Rightarrow> install_pc \<Rightarrow> installs \<Rightarrow> installs" where
  "goes_to i pc s \<equiv> s\<lparr>ipc := (ipc s)(i := pc)\<rparr>"

inductive install_step :: "installs \<Rightarrow> installs \<Rightarrow> bool" where
  test_free: "ipc s i = At_Test \<Longrightarrow> s_driver s = NULL \<Longrightarrow> install_step s (goes_to i At_Alloc s)"
| test_taken: "ipc s i = At_Test \<Longrightarrow> s_driver s \<noteq> NULL \<Longrightarrow>
    install_step s (goes_to i (Returned ESP_ERR_INVALID_STATE) s)"
| alloc: "ipc s i = At_Alloc \<Longrightarrow> p \<noteq> NULL \<Longrightarrow> p \<notin> objects s \<Longrightarrow>
    install_step s (goes_to i At_Prepare (s\<lparr>objects := insert p (objects s), own := (own s)(i := p)\<rparr>))"
| alloc_fails: "ipc s i = At_Alloc \<Longrightarrow> install_step s (goes_to i (Returned ESP_ERR_NO_MEM) s)"
| prepare: "ipc s i = At_Prepare \<Longrightarrow> install_step s (goes_to i At_Critical s)"
| prepare_fails: "ipc s i = At_Prepare \<Longrightarrow> e \<noteq> ESP_OK \<Longrightarrow> install_step s (goes_to i (At_Fail e) s)"
| critical: "ipc s i = At_Critical \<Longrightarrow> s_driver s = NULL \<Longrightarrow>
    install_step s (goes_to i At_Task (s\<lparr>s_driver := own s i\<rparr>))"
| critical_taken: "ipc s i = At_Critical \<Longrightarrow> s_driver s \<noteq> NULL \<Longrightarrow>
    install_step s (goes_to i (At_Fail ESP_ERR_INVALID_STATE) s)"
| task: "ipc s i = At_Task \<Longrightarrow> install_step s (goes_to i (Returned ESP_OK) s)"
| task_fails: "ipc s i = At_Task \<Longrightarrow> install_step s (goes_to i (At_Fail ESP_ERR_NO_MEM) s)"
| fail: "ipc s i = At_Fail e \<Longrightarrow> install_step s (goes_to i (At_Release e) (s\<lparr>s_driver := NULL\<rparr>))"
| release: "ipc s i = At_Release e \<Longrightarrow>
    install_step s (goes_to i (Returned e) (s\<lparr>objects := objects s - {own s i}\<rparr>))"

definition no_driver :: installs where
  "no_driver = \<lparr>s_driver = NULL, objects = {}, ipc = (\<lambda>_. At_Test), own = (\<lambda>_. NULL)\<rparr>"

definition install_reachable :: "installs \<Rightarrow> bool" where
  "install_reachable s \<longleftrightarrow> install_step\<^sup>*\<^sup>* no_driver s"

text \<open>
  The invariant: a call holds its own object from its allocation to its release, no two calls hold
  the same one, and \<open>s_msc_driver\<close> is \<open>NULL\<close> or the object of a call that has stored it.
\<close>

primrec holds_object :: "install_pc \<Rightarrow> bool" where
  "holds_object At_Test = False"
| "holds_object At_Alloc = False"
| "holds_object At_Prepare = True"
| "holds_object At_Critical = True"
| "holds_object At_Task = True"
| "holds_object (At_Fail e) = True"
| "holds_object (At_Release e) = True"
| "holds_object (Returned e) = (e = ESP_OK)"

definition stored_by :: "install_pc \<Rightarrow> bool" where
  "stored_by pc \<longleftrightarrow> holds_object pc \<and> (\<forall>e. pc \<noteq> At_Release e)"

primrec fails_with_error :: "install_pc \<Rightarrow> bool" where
  "fails_with_error At_Test = True"
| "fails_with_error At_Alloc = True"
| "fails_with_error At_Prepare = True"
| "fails_with_error At_Critical = True"
| "fails_with_error At_Task = True"
| "fails_with_error (At_Fail e) = (e \<noteq> ESP_OK)"
| "fails_with_error (At_Release e) = (e \<noteq> ESP_OK)"
| "fails_with_error (Returned e) = True"

definition installs_inv :: "installs \<Rightarrow> bool" where
  "installs_inv s \<longleftrightarrow>
     (\<forall>i. holds_object (ipc s i) \<longrightarrow> own s i \<in> objects s \<and> own s i \<noteq> NULL) \<and>
     (\<forall>i j. i \<noteq> j \<longrightarrow> holds_object (ipc s i) \<longrightarrow> holds_object (ipc s j) \<longrightarrow> own s i \<noteq> own s j) \<and>
     (s_driver s \<noteq> NULL \<longrightarrow> (\<exists>i. stored_by (ipc s i) \<and> s_driver s = own s i)) \<and>
     (\<forall>i. fails_with_error (ipc s i))"

lemma installs_inv_start: "installs_inv no_driver"
  by (simp add: installs_inv_def no_driver_def)

lemma installs_inv_step: "install_step s t \<Longrightarrow> installs_inv s \<Longrightarrow> installs_inv t"
  by (induction rule: install_step.induct) (auto simp: installs_inv_def stored_by_def; metis holds_object.simps fails_with_error.simps)+

lemma installs_inv_reachable: "install_reachable s \<Longrightarrow> installs_inv s"
  unfolding install_reachable_def
  by (induction rule: rtranclp_induct) (auto intro: installs_inv_start installs_inv_step)

lemma install_reachable_start: "install_reachable no_driver"
  by (simp add: install_reachable_def)

lemma install_reachable_step: "install_reachable s \<Longrightarrow> install_step s t \<Longrightarrow> install_reachable t"
  by (auto simp: install_reachable_def)


text \<open>
  Two calls that both pass the first test: the one that loses the critical section resets
  \<open>s_msc_driver\<close> on its way out, although it stores the other call's driver.
\<close>

definition lost_driver :: installs where
  "lost_driver = \<lparr>s_driver = NULL, objects = {1},
     ipc = (\<lambda>_. At_Test)(0 := Returned ESP_OK, 1 := Returned ESP_ERR_INVALID_STATE),
     own = (\<lambda>_. NULL)(0 := 1, 1 := 2)\<rparr>"

text \<open>The states of two calls: the driver, the objects, both positions and both objects.\<close>

definition two_calls :: "ptr \<Rightarrow> ptr set \<Rightarrow> install_pc \<Rightarrow> install_pc \<Rightarrow> ptr \<Rightarrow> ptr \<Rightarrow> installs" where
  "two_calls d os pc0 pc1 p0 p1 = \<lparr>s_driver = d, objects = os, ipc = (\<lambda>_. At_Test)(0 := pc0, 1 := pc1),
     own = (\<lambda>_. NULL)(0 := p0, 1 := p1)\<rparr>"

lemma two_calls_eq:
  "goes_to 0 pc (two_calls d os pc0 pc1 p0 p1) = two_calls d os pc pc1 p0 p1"
  "goes_to (Suc 0) pc (two_calls d os pc0 pc1 p0 p1) = two_calls d os pc0 pc p0 p1"
  by (simp_all add: two_calls_def fun_upd_twist)

lemma two_calls_fields [simp]:
  "s_driver (two_calls d os pc0 pc1 p0 p1) = d" "objects (two_calls d os pc0 pc1 p0 p1) = os"
  "ipc (two_calls d os pc0 pc1 p0 p1) 0 = pc0" "ipc (two_calls d os pc0 pc1 p0 p1) (Suc 0) = pc1"
  "own (two_calls d os pc0 pc1 p0 p1) 0 = p0" "own (two_calls d os pc0 pc1 p0 p1) (Suc 0) = p1"
  "two_calls d os pc0 pc1 p0 p1\<lparr>s_driver := d'\<rparr> = two_calls d' os pc0 pc1 p0 p1"
  "two_calls d os pc0 pc1 p0 p1\<lparr>objects := os'\<rparr> = two_calls d os' pc0 pc1 p0 p1"
  "two_calls d os pc0 pc1 p0 p1\<lparr>objects := os', own := (own (two_calls d os pc0 pc1 p0 p1))(0 := q)\<rparr> =
     two_calls d os' pc0 pc1 q p1"
  "two_calls d os pc0 pc1 p0 p1\<lparr>objects := os', own := (own (two_calls d os pc0 pc1 p0 p1))(Suc 0 := q)\<rparr> =
     two_calls d os' pc0 pc1 p0 q"
  by (simp_all add: two_calls_def fun_upd_twist)

lemma two_calls_alloc:
  "q \<noteq> NULL \<Longrightarrow> q \<notin> os \<Longrightarrow> install_step (two_calls d os At_Alloc pc1 p0 p1) (two_calls d (insert q os) At_Prepare pc1 q p1)"
  "q \<noteq> NULL \<Longrightarrow> q \<notin> os \<Longrightarrow> install_step (two_calls d os pc0 At_Alloc p0 p1) (two_calls d (insert q os) pc0 At_Prepare p0 q)"
  using alloc [of "two_calls d os At_Alloc pc1 p0 p1" 0 q] alloc [of "two_calls d os pc0 At_Alloc p0 p1" "Suc 0" q]
  by (simp_all add: two_calls_def fun_upd_twist)

lemma lost_driver_reachable: "install_reachable lost_driver"
proof -
  let ?s = two_calls and ?no = "ESP_ERR_INVALID_STATE"
  note step = install_reachable_step
  have "no_driver = ?s 0 {} At_Test At_Test 0 0" by (simp add: no_driver_def two_calls_def fun_eq_iff)
  then have "install_reachable (?s 0 {} At_Test At_Test 0 0)" using install_reachable_start by simp
  then have "install_reachable (?s 0 {} At_Alloc At_Test 0 0)" 
    using step test_free [of "?s 0 {} At_Test At_Test 0 0" 0] by (simp add: two_calls_eq)
  then have "install_reachable (?s 0 {} At_Alloc At_Alloc 0 0)" 
    using step test_free [of "?s 0 {} At_Alloc At_Test 0 0" "Suc 0"] by (simp add: two_calls_eq)
  then have "install_reachable (?s 0 {1} At_Prepare At_Alloc 1 0)"
    by (rule step) (rule two_calls_alloc; simp)
  then have "install_reachable (?s 0 {2, 1} At_Prepare At_Prepare 1 2)"
    by (rule step) (rule two_calls_alloc; simp)
  then have "install_reachable (?s 0 {2, 1} At_Critical At_Prepare 1 2)"
    using step prepare [of "?s 0 {2, 1} At_Prepare At_Prepare 1 2" 0] by (simp add: two_calls_eq)
  then have "install_reachable (?s 0 {2, 1} At_Critical At_Critical 1 2)"
    using step prepare [of "?s 0 {2, 1} At_Critical At_Prepare 1 2" "Suc 0"] by (simp add: two_calls_eq)
  then have "install_reachable (?s 1 {2, 1} At_Task At_Critical 1 2)"
    using step critical [of "?s 0 {2, 1} At_Critical At_Critical 1 2" 0] by (simp add: two_calls_eq)
  then have "install_reachable (?s 1 {2, 1} (Returned ESP_OK) At_Critical 1 2)"
    using step task [of "?s 1 {2, 1} At_Task At_Critical 1 2" 0] by (simp add: two_calls_eq)
  then have "install_reachable (?s 1 {2, 1} (Returned ESP_OK) (At_Fail ?no) 1 2)"
    using step critical_taken [of "?s 1 {2, 1} (Returned ESP_OK) At_Critical 1 2" "Suc 0"] by (simp add: two_calls_eq)
  then have "install_reachable (?s 0 {2, 1} (Returned ESP_OK) (At_Release ?no) 1 2)"
    using step fail [of "?s 1 {2, 1} (Returned ESP_OK) (At_Fail ?no) 1 2" "Suc 0" ?no] by (simp add: two_calls_eq)
  then have "install_reachable (?s 0 {1} (Returned ESP_OK) (Returned ?no) 1 2)"
    using step release [of "?s 0 {2, 1} (Returned ESP_OK) (At_Release ?no) 1 2" "Suc 0" ?no] by (simp add: two_calls_eq insert_Diff_if)
  then show ?thesis by (simp add: lost_driver_def two_calls_def)
qed

section \<open>Uninstalling beside the event task\<close>

text \<open>
  \<open>msc_host_uninstall\<close> before its tests and critical section (462 to 467), the test of
  \<open>event_handling_started\<close> (469), the unblocking (470), the wait for the semaphore (472), and the
  statements after it; the event task in \<open>msc_host_handle_events\<close> before lines 331, 334, 335, 336 and
  337, after its loop because the driver is ending, and after its loop with another result. \<open>Crashed\<close>
  is an access through \<open>NULL\<close>, to the freed driver or to the deleted semaphore. A failing
  \<open>ESP_ERROR_CHECK\<close> stops the whole system, so that there is no step after it.
\<close>

datatype uninstall_pc =
    U_Critical
  | U_Refused
  | U_Started
  | U_Unblock
  | U_Take
  | U_Delete
  | U_Deregister
  | U_Free
  | U_Null
  | U_Done

datatype handler_pc = H_Test | H_Mark | H_Wait | H_Ending | H_Give | H_Stopped | H_Returned esp_err_t | Crashed

datatype driver_object = No_Driver | Live_Driver | Freed_Driver

record tasks =
  object :: driver_object
  devices :: bool
  started :: bool
  ending :: bool
  given :: bool
  semaphore :: bool
  upc :: uninstall_pc
  hpc :: handler_pc

inductive uninstall_step :: "tasks \<Rightarrow> tasks \<Rightarrow> bool" where
  u_critical: "upc s = U_Critical \<Longrightarrow> object s \<noteq> No_Driver \<Longrightarrow> \<not> ending s \<Longrightarrow> \<not> devices s \<Longrightarrow>
    uninstall_step s (s\<lparr>ending := True, upc := U_Started\<rparr>)"
| u_refused: "upc s = U_Critical \<Longrightarrow> object s = No_Driver \<or> ending s \<or> devices s \<Longrightarrow>
    uninstall_step s (s\<lparr>upc := U_Refused\<rparr>)"
| u_started: "upc s = U_Started \<Longrightarrow> uninstall_step s (s\<lparr>upc := if started s then U_Unblock else U_Delete\<rparr>)"
| u_unblock: "upc s = U_Unblock \<Longrightarrow> uninstall_step s (s\<lparr>upc := U_Take\<rparr>)"
| u_take: "upc s = U_Take \<Longrightarrow> given s \<Longrightarrow> uninstall_step s (s\<lparr>given := False, upc := U_Delete\<rparr>)"
| u_delete: "upc s = U_Delete \<Longrightarrow> uninstall_step s (s\<lparr>semaphore := False, upc := U_Deregister\<rparr>)"
| u_deregister: "upc s = U_Deregister \<Longrightarrow> uninstall_step s (s\<lparr>upc := U_Free\<rparr>)"
| u_free: "upc s = U_Free \<Longrightarrow> uninstall_step s (s\<lparr>object := Freed_Driver, upc := U_Null\<rparr>)"
| u_null: "upc s = U_Null \<Longrightarrow> uninstall_step s (s\<lparr>object := No_Driver, upc := U_Done\<rparr>)"

inductive handler_step :: "tasks \<Rightarrow> tasks \<Rightarrow> bool" where
  h_test: "hpc s = H_Test \<Longrightarrow> object s \<noteq> No_Driver \<Longrightarrow> handler_step s (s\<lparr>hpc := H_Mark\<rparr>)"
| h_none: "hpc s = H_Test \<Longrightarrow> object s = No_Driver \<Longrightarrow>
    handler_step s (s\<lparr>hpc := H_Returned ESP_ERR_INVALID_STATE\<rparr>)"
| h_mark: "hpc s = H_Mark \<Longrightarrow> object s = Live_Driver \<Longrightarrow> handler_step s (s\<lparr>started := True, hpc := H_Wait\<rparr>)"
| h_wait: "hpc s = H_Wait \<Longrightarrow> object s = Live_Driver \<Longrightarrow> handler_step s (s\<lparr>hpc := H_Ending\<rparr>)"
| h_again: "hpc s = H_Ending \<Longrightarrow> object s = Live_Driver \<Longrightarrow> \<not> ending s \<Longrightarrow> handler_step s (s\<lparr>hpc := H_Test\<rparr>)"
| h_error: "hpc s = H_Ending \<Longrightarrow> object s = Live_Driver \<Longrightarrow> \<not> ending s \<Longrightarrow> e \<noteq> ESP_OK \<Longrightarrow>
    handler_step s (s\<lparr>hpc := H_Returned e\<rparr>)"
| h_ending: "hpc s = H_Ending \<Longrightarrow> object s = Live_Driver \<Longrightarrow> ending s \<Longrightarrow> handler_step s (s\<lparr>hpc := H_Give\<rparr>)"
| h_give: "hpc s = H_Give \<Longrightarrow> object s = Live_Driver \<Longrightarrow> semaphore s \<Longrightarrow>
    handler_step s (s\<lparr>given := True, hpc := H_Stopped\<rparr>)"
| h_crash: "hpc s \<in> {H_Mark, H_Wait, H_Ending, H_Give} \<Longrightarrow> object s \<noteq> Live_Driver \<or> hpc s = H_Give \<and> \<not> semaphore s \<Longrightarrow>
    handler_step s (s\<lparr>hpc := Crashed\<rparr>)"

inductive_simps uninstall_done: "uninstall_step (s\<lparr>upc := U_Done, hpc := h\<rparr>) t"
inductive_simps handler_stopped: "handler_step (s\<lparr>upc := u, hpc := H_Stopped\<rparr>) t"

definition tasks_step :: "tasks \<Rightarrow> tasks \<Rightarrow> bool" where
  "tasks_step s t \<longleftrightarrow> uninstall_step s t \<or> handler_step s t"

lemma uninstall_moves: "uninstall_step s t \<Longrightarrow> tasks_step s t"
  and handler_moves: "handler_step s t \<Longrightarrow> tasks_step s t"
  by (simp_all add: tasks_step_def)

text \<open>The two tasks end: neither a finished uninstallation nor a stopped event task has a step left.\<close>

lemma both_end: "\<not> tasks_step (s\<lparr>upc := U_Done, hpc := H_Stopped\<rparr>) t"
  by (simp add: tasks_step_def uninstall_done handler_stopped)

text \<open>The start: the driver is installed, and the event task is at the head of its loop.\<close>

definition handling :: "bool \<Rightarrow> handler_pc \<Rightarrow> tasks" where
  "handling began pc = \<lparr>object = Live_Driver, devices = False, started = began, ending = False, given = False, semaphore = True,
     upc = U_Critical, hpc = pc\<rparr>"

definition tasks_reach :: "bool \<Rightarrow> handler_pc \<Rightarrow> tasks \<Rightarrow> bool" where
  "tasks_reach began pc s \<longleftrightarrow> tasks_step\<^sup>*\<^sup>* (handling began pc) s"

text \<open>
  Once the handling has begun, the semaphore is given exactly when the event task has stopped and
  the wait has not taken it, and nothing is deleted or freed before the wait.
\<close>

primrec waiting :: "uninstall_pc \<Rightarrow> bool" where
  "waiting U_Critical = True"
| "waiting U_Refused = True"
| "waiting U_Started = True"
| "waiting U_Unblock = True"
| "waiting U_Take = True"
| "waiting U_Delete = False"
| "waiting U_Deregister = False"
| "waiting U_Free = False"
| "waiting U_Null = False"
| "waiting U_Done = False"

primrec stops_well :: "handler_pc \<Rightarrow> bool" where
  "stops_well H_Test = True"
| "stops_well H_Mark = True"
| "stops_well H_Wait = True"
| "stops_well H_Ending = True"
| "stops_well H_Give = True"
| "stops_well H_Stopped = True"
| "stops_well (H_Returned e) = (e \<noteq> ESP_OK)"
| "stops_well Crashed = False"

definition tasks_inv :: "tasks \<Rightarrow> bool" where
  "tasks_inv s \<longleftrightarrow> started s \<and> \<not> devices s \<and> upc s \<noteq> U_Refused \<and> stops_well (hpc s) \<and> (ending s \<longleftrightarrow> upc s \<noteq> U_Critical) \<and>
     (if waiting (upc s) then object s = Live_Driver \<and> semaphore s else hpc s = H_Stopped) \<and>
     (given s \<longleftrightarrow> hpc s = H_Stopped \<and> waiting (upc s))"

lemma tasks_inv_start: "pc \<in> {H_Test, H_Mark, H_Wait, H_Ending} \<Longrightarrow> tasks_inv (handling True pc)"
  by (auto simp: tasks_inv_def handling_def)

lemma uninstall_keeps_inv: "uninstall_step s t \<Longrightarrow> tasks_inv s \<Longrightarrow> tasks_inv t"
  by (induction rule: uninstall_step.induct) (auto simp: tasks_inv_def split: if_splits)

lemma handler_keeps_inv: "handler_step s t \<Longrightarrow> tasks_inv s \<Longrightarrow> tasks_inv t"
  by (induction rule: handler_step.induct) (auto simp: tasks_inv_def split: if_splits)

lemma tasks_inv_step: "tasks_step s t \<Longrightarrow> tasks_inv s \<Longrightarrow> tasks_inv t"
  by (auto simp: tasks_step_def intro: uninstall_keeps_inv handler_keeps_inv)

lemma tasks_inv_reach:
  assumes "tasks_reach True pc s" and "pc \<in> {H_Test, H_Mark, H_Wait, H_Ending}"
  shows "tasks_inv s"
  using assms(1) unfolding tasks_reach_def
  by (induction rule: rtranclp_induct) (auto intro: tasks_inv_start [OF assms(2)] tasks_inv_step)


definition returned :: "handler_pc \<Rightarrow> bool" where
  "returned pc \<longleftrightarrow> (case pc of H_Returned e \<Rightarrow> True | _ \<Rightarrow> False)"

lemma returned_iff: "returned pc \<longleftrightarrow> (\<exists>e. pc = H_Returned e)"
  by (cases pc) (simp_all add: returned_def)

text \<open>An event task that an error of the host library has stopped never gives the semaphore.\<close>

lemma returned_step: "tasks_step s t \<Longrightarrow> returned (hpc s) \<Longrightarrow> returned (hpc t)"
  by (auto simp: tasks_step_def returned_iff elim!: uninstall_step.cases handler_step.cases)

lemma returned_blocks:
  assumes "tasks_step\<^sup>*\<^sup>* s t" and "tasks_inv s" and "returned (hpc s)"
  shows "tasks_inv t \<and> returned (hpc t) \<and> upc t \<noteq> U_Done"
proof -
  from assms(1) have "tasks_inv t \<and> returned (hpc t)"
    by (induction rule: rtranclp_induct) (use assms(2,3) tasks_inv_step returned_step in auto)
  then show ?thesis by (auto simp: tasks_inv_def returned_iff)
qed

text \<open>Every other state of an uninstallation has a step that brings it closer to its end.\<close>

primrec u_left :: "uninstall_pc \<Rightarrow> nat" where
  "u_left U_Critical = 8"
| "u_left U_Refused = 0"
| "u_left U_Started = 7"
| "u_left U_Unblock = 6"
| "u_left U_Take = 5"
| "u_left U_Delete = 4"
| "u_left U_Deregister = 3"
| "u_left U_Free = 2"
| "u_left U_Null = 1"
| "u_left U_Done = 0"

primrec h_left :: "handler_pc \<Rightarrow> nat" where
  "h_left H_Test = 5"
| "h_left H_Mark = 4"
| "h_left H_Wait = 3"
| "h_left H_Ending = 2"
| "h_left H_Give = 1"
| "h_left H_Stopped = 0"
| "h_left (H_Returned e) = 0"
| "h_left Crashed = 0"

definition steps_left :: "tasks \<Rightarrow> nat" where
  "steps_left s = 6 * u_left (upc s) + h_left (hpc s)"

lemma closer:
  "tasks_step s t \<Longrightarrow> steps_left t < steps_left s \<Longrightarrow> \<not> returned (hpc t) \<Longrightarrow>
    \<exists>t. tasks_step s t \<and> steps_left t < steps_left s \<and> \<not> returned (hpc t)"
  by blast

lemma uninstall_advances:
  assumes "tasks_inv s" and "upc s \<noteq> U_Done" and "\<not> returned (hpc s)"
  shows "\<exists>t. tasks_step s t \<and> steps_left t < steps_left s \<and> \<not> returned (hpc t)"
proof (cases "upc s = U_Take \<and> \<not> given s")
  case True
  with assms(1,3) show ?thesis
    using closer [OF handler_moves [OF h_test [of s]]]
      closer [OF handler_moves [OF h_mark [of s]]]
      closer [OF handler_moves [OF h_wait [of s]]]
      closer [OF handler_moves [OF h_ending [of s]]]
      closer [OF handler_moves [OF h_give [of s]]]
    by (cases "hpc s") (auto simp: tasks_inv_def steps_left_def returned_def)
next
  case False
  with assms show ?thesis
    using closer [OF uninstall_moves [OF u_critical [of s]]]
      closer [OF uninstall_moves [OF u_started [of s]]]
      closer [OF uninstall_moves [OF u_unblock [of s]]]
      closer [OF uninstall_moves [OF u_take [of s]]]
      closer [OF uninstall_moves [OF u_delete [of s]]]
      closer [OF uninstall_moves [OF u_deregister [of s]]]
      closer [OF uninstall_moves [OF u_free [of s]]]
      closer [OF uninstall_moves [OF u_null [of s]]]
    by (cases "upc s") (auto simp: tasks_inv_def steps_left_def returned_def)
qed

lemma uninstall_can_finish:
  "tasks_inv s \<Longrightarrow> \<not> returned (hpc s) \<Longrightarrow> \<exists>t. tasks_step\<^sup>*\<^sup>* s t \<and> upc t = U_Done \<and> tasks_inv t"
proof (induction "steps_left s" arbitrary: s rule: less_induct)
  case less
  show ?case
  proof (cases "upc s = U_Done")
    case False
    with less.prems uninstall_advances obtain t
      where t: "tasks_step s t" "steps_left t < steps_left s" "\<not> returned (hpc t)" by blast
    with less.hyps [OF t(2) tasks_inv_step [OF t(1) less.prems(1)]] show ?thesis
      by (meson converse_rtranclp_into_rtranclp)
  qed (use less.prems in blast)
qed

text \<open>
  If the event task has not begun when the driver is uninstalled, its test of \<open>s_msc_driver\<close> may come
  before and its first access after the driver is gone.
\<close>

definition gone :: "uninstall_pc \<Rightarrow> driver_object \<Rightarrow> bool \<Rightarrow> bool \<Rightarrow> handler_pc \<Rightarrow> tasks" where
  "gone u ob sem en h = \<lparr>object = ob, devices = False, started = False, ending = en, given = False, semaphore = sem, upc = u, hpc = h\<rparr>"

lemma tasks_reach_step: "tasks_reach began pc s \<Longrightarrow> tasks_step s t \<Longrightarrow> tasks_reach began pc t"
  by (auto simp: tasks_reach_def)

lemma late_task_crashes: "tasks_reach False H_Test (gone U_Done No_Driver False True Crashed)"
proof -
  let ?g = gone
  note step = tasks_reach_step
  have "handling False H_Test = ?g U_Critical Live_Driver True False H_Test" by (simp add: handling_def gone_def)
  then have "tasks_reach False H_Test (?g U_Critical Live_Driver True False H_Test)"
    by (metis rtranclp.rtrancl_refl tasks_reach_def)
  then have "tasks_reach False H_Test (?g U_Critical Live_Driver True False H_Mark)"
    using step handler_moves [OF h_test [of "?g U_Critical Live_Driver True False H_Test"]] by (simp add: gone_def)
  then have "tasks_reach False H_Test (?g U_Started Live_Driver True True H_Mark)"
    using step uninstall_moves [OF u_critical [of "?g U_Critical Live_Driver True False H_Mark"]] by (simp add: gone_def)
  then have "tasks_reach False H_Test (?g U_Delete Live_Driver True True H_Mark)"
    using step uninstall_moves [OF u_started [of "?g U_Started Live_Driver True True H_Mark"]] by (simp add: gone_def)
  then have "tasks_reach False H_Test (?g U_Deregister Live_Driver False True H_Mark)"
    using step uninstall_moves [OF u_delete [of "?g U_Delete Live_Driver True True H_Mark"]] by (simp add: gone_def)
  then have "tasks_reach False H_Test (?g U_Free Live_Driver False True H_Mark)"
    using step uninstall_moves [OF u_deregister [of "?g U_Deregister Live_Driver False True H_Mark"]] by (simp add: gone_def)
  then have "tasks_reach False H_Test (?g U_Null Freed_Driver False True H_Mark)"
    using step uninstall_moves [OF u_free [of "?g U_Free Live_Driver False True H_Mark"]] by (simp add: gone_def)
  then have "tasks_reach False H_Test (?g U_Done No_Driver False True H_Mark)"
    using step uninstall_moves [OF u_null [of "?g U_Null Freed_Driver False True H_Mark"]] by (simp add: gone_def)
  then have "tasks_reach False H_Test (?g U_Done No_Driver False True Crashed)"
    using step handler_moves [OF h_crash [of "?g U_Done No_Driver False True H_Mark"]] by (simp add: gone_def)
  then show ?thesis .
qed

end
