(* ===== verification/Ram_Attach.thy ===== *)
theory Ram_Attach imports Ram_Disk Msc_Host begin

text \<open>
  Attaching the device of \<open>Ram_Disk\<close>: the commands \<open>msc_host_install_device\<close> sends on such a device, and
  the attachment as a whole on a host stack that answers every call.
\<close>

section \<open>Attaching such a device\<close>

lemma ram_no_data:
  assumes env: "carries env (config d) z (handle d) r0" and on: "on_ram env z p d r0 s r" and ep: "two_endpoints (config d)"
    and r: "idle z r" and w: "\<And>g. device_reads (mem_read g CBW_SIZE mem) = Some w" "wc_tag w = tag cbw" "wc_transfer_length w = 0"
  shows "\<exists>t r'. bot_execute_command recover env p cbw mem None 0 s = Ret (ESP_OK, None) t \<and>
    on_ram env z p d r0 t r' \<and> idle z r' \<and> ram_last r' = ram_last r \<and> ram_blocks r' = ram_blocks r \<and> bus_frame s t"
proof -
  let ?r1 = "r\<lparr>ram_command := Some w, ram_moved := False\<rparr>"
  have r0: "ram_command r = None" using r by (simp add: idle_def)
  have "\<exists>v. data_transport env p None 0 e u = Ret (ESP_OK, None) v \<and> on_ram env z p d r0 v ?r1 \<and> bus_frame u v"
    if "on_ram env z p d r0 u ?r1" for u e
    using that by (simp add: data_transport_def)
  from ram_executes [OF env on r0 ep w(1,2) refl this, of recover] w(3)
  obtain t where "bot_execute_command recover env p cbw mem None 0 s = Ret (ESP_OK, None) t"
    "on_ram env z p d r0 t (?r1\<lparr>ram_command := None\<rparr>)" "bus_frame s t" by auto
  then show ?thesis using r
    by (intro exI [of _ t] exI [of _ "?r1\<lparr>ram_command := None\<rparr>"]) (simp add: idle_def)
qed

lemma ram_data_in:
  assumes env: "carries env (config d) z (handle d) r0" and on: "on_ram env z p d r0 s r" and ep: "two_endpoints (config d)"
    and r: "idle z r" and w: "\<And>g. device_reads (mem_read g CBW_SIZE mem) = Some w" "wc_tag w = tag cbw"
    and dir: "wc_device_to_host w" "wc_transfer_length w \<noteq> 0" "flags cbw AND CWB_FLAG_DIRECTION_IN \<noteq> 0"
    and n: "0 < n" "length (ram_data z r w) \<le> n" "length (ram_data z r w) \<le> length data"
  shows "\<exists>t r'. bot_execute_command recover env p cbw mem (Some data) n s =
      Ret (ESP_OK, Some (overwrite (ram_data z r w) data)) t \<and>
    on_ram env z p d r0 t r' \<and> idle z r' \<and> ram_last r' = ram_last r \<and> ram_blocks r' = ram_blocks r \<and> bus_frame s t"
proof -
  let ?r1 = "r\<lparr>ram_command := Some w, ram_moved := False\<rparr>"
  let ?r2 = "r\<lparr>ram_command := Some w, ram_moved := True\<rparr>"
  have r0: "ram_command r = None" using r by (simp add: idle_def)
  have e: "MSC_EP_IN = (if flags cbw AND CWB_FLAG_DIRECTION_IN \<noteq> 0 then MSC_EP_IN else MSC_EP_OUT)" using dir by simp
  have "ram_data z ?r1 w = ram_data z r w" by (simp add: ram_data_def split: scsi_command.split)
  then have step: "ram_step (config d) z ?r1 y = (?r2, ram_data z r w)" if "bEndpointAddress y = bulk_in_ep (config d)" for y
    using that ep dir by (simp add: ram_step_def two_endpoints_def)
  have "\<exists>v. data_transport env p (Some data) n MSC_EP_IN u = Ret (ESP_OK, Some (overwrite (ram_data z r w) data)) v \<and>
      on_ram env z p d r0 v ?r2 \<and> bus_frame u v" if u: "on_ram env z p d r0 u ?r1" for u
    using ram_in [OF env u ep n(1) step n(2,3)] by (auto simp: data_transport_def)
  from ram_executes [OF env on r0 ep w e this, of recover]
  obtain t where "bot_execute_command recover env p cbw mem (Some data) n s = Ret (ESP_OK, Some (overwrite (ram_data z r w) data)) t"
    "on_ram env z p d r0 t (?r2\<lparr>ram_command := None\<rparr>)" "bus_frame s t" by auto
  then show ?thesis using r
    by (intro exI [of _ t] exI [of _ "?r2\<lparr>ram_command := None\<rparr>"]) (simp add: idle_def)
qed

text \<open>What every command leaves: the device idle, with the blocks and the capacity it had.\<close>

definition served :: "env \<Rightarrow> nat \<Rightarrow> ptr \<Rightarrow> msc_device \<Rightarrow> ram \<Rightarrow> ram \<Rightarrow> sys \<Rightarrow> sys \<Rightarrow> bool" where
  "served env z p d r0 r s t \<longleftrightarrow> (\<exists>r'. on_ram env z p d r0 t r' \<and> idle z r' \<and> ram_last r' = ram_last r \<and>
     ram_blocks r' = ram_blocks r) \<and> bus_frame s t"

lemma ram_unit_ready:
  assumes "carries env (config d) z (handle d) r0" "on_ram env z p d r0 s r" "two_endpoints (config d)" "idle z r"
  shows "\<exists>t. scsi_cmd_unit_ready recover env p s = Ret ESP_OK t \<and> served env z p d r0 r s t"
proof -
  let ?c = "init_unit_ready (cbw_tag s + 1)"
  let ?s = "s\<lparr>cbw_tag := cbw_tag s + 1\<rparr>"
  have on: "on_ram env z p d r0 ?s r" using assms(2) by simp
  have w: "device_reads (mem_read g CBW_SIZE (bytes_cbw_unit_ready ?c)) = Some
    \<lparr>wc_tag = cbw_tag s + 1, wc_transfer_length = 0, wc_device_to_host = True, wc_lun = 0, wc_command = Test_Unit_Ready\<rparr>" for g
    by (rule reads_unit_ready)
  from ram_no_data [OF assms(1) on assms(3,4) w, of "ur_base ?c" recover] show ?thesis
    unfolding unit_ready_ok_iff by (fastforce simp: init_unit_ready_def CBW_BASE_INIT_def served_def bus_frame_def)
qed

lemma ram_inquiry:
  assumes "carries env (config d) z (handle d) r0" "on_ram env z p d r0 s r" "two_endpoints (config d)" "idle z r"
  shows "\<exists>t. scsi_cmd_inquiry recover env p s = Ret ESP_OK t \<and> served env z p d r0 r s t"
proof -
  let ?c = "init_inquiry (cbw_tag s + 1)"
  let ?s = "s\<lparr>cbw_tag := cbw_tag s + 1\<rparr>"
  have on: "on_ram env z p d r0 ?s r" using assms(2) by simp
  have w: "device_reads (mem_read g CBW_SIZE (bytes_cbw_inquiry ?c)) = Some
    \<lparr>wc_tag = cbw_tag s + 1, wc_transfer_length = 36, wc_device_to_host = True, wc_lun = 0, wc_command = Inquiry 36\<rparr>" for g
    by (rule reads_inquiry)
  from ram_data_in [OF assms(1) on assms(3,4) w, of "iq_base ?c" 36 "replicate 36 0" recover]
  obtain t b where "bot_execute_command recover env p (iq_base ?c) (bytes_cbw_inquiry ?c) (Some (replicate 36 0)) 36 ?s =
      Ret (ESP_OK, b) t" and "served env z p d r0 r ?s t"
    by (auto simp: init_inquiry_def CBW_BASE_INIT_def ram_data_def served_def)
  then show ?thesis
    by (auto simp: scsi_cmd_inquiry_def next_tag_def Let_def get_error_code_def served_def bus_frame_def)
qed

lemma ram_capacity:
  assumes "carries env (config d) z (handle d) r0" "on_ram env z p d r0 s r" "two_endpoints (config d)" "idle z r"
  shows "\<exists>t. scsi_cmd_read_capacity recover env p z0 c0 s = Ret (ESP_OK, of_nat z, ram_last r) t \<and> served env z p d r0 r s t"
proof -
  let ?c = "init_read_capacity (cbw_tag s + 1)"
  let ?s = "s\<lparr>cbw_tag := cbw_tag s + 1\<rparr>"
  let ?mem = "map (r_memory env (hist s)) [0..<8]"
  let ?bs = "rev (le32 (ram_last r)) @ rev (le32 (of_nat z))"
  have on: "on_ram env z p d r0 ?s r" using assms(2) by simp
  have w: "device_reads (mem_read g CBW_SIZE (bytes_cbw_read_capacity ?c)) = Some
    \<lparr>wc_tag = cbw_tag s + 1, wc_transfer_length = 8, wc_device_to_host = True, wc_lun = 0, wc_command = Read_Capacity_10\<rparr>" for g
    by (rule reads_read_capacity)
  have "overwrite ?bs ?mem = bytes_read_capacity_response \<lparr>rcr_block_count = bswap32 (ram_last r), rcr_block_size = bswap32 (of_nat z)\<rparr>"
    by (simp add: overwrite_full bytes_read_capacity_response_def)
  with ram_data_in [OF assms(1) on assms(3,4) w, of "rc_base ?c" 8 ?mem recover]
  obtain t where run: "bot_execute_command recover env p (rc_base ?c) (bytes_cbw_read_capacity ?c) (Some ?mem) 8 ?s =
      Ret (ESP_OK, Some (bytes_read_capacity_response \<lparr>rcr_block_count = bswap32 (ram_last r), rcr_block_size = bswap32 (of_nat z)\<rparr>)) t"
    and "served env z p d r0 r ?s t"
    by (auto simp: init_read_capacity_def CBW_BASE_INIT_def ram_data_def served_def)
  then show ?thesis using read_capacity_run [OF run, of z0 c0]
    by (auto simp: capacity_format.dec_enc served_def bus_frame_def)
qed

lemma submits_other [simp]:
  "submits h (Os e # es) = submits h es"
  "submits h (Host f # es) = submits h es"
  by (simp_all add: submits_def)

text \<open>The host stack answers every call of an attachment, and the device's descriptors lead to \<open>cfg\<close>.\<close>

definition attaches :: "env \<Rightarrow> msc_driver \<Rightarrow> u8 \<Rightarrow> ptr \<Rightarrow> msc_config \<Rightarrow> bool" where
  "attaches env drv a h cfg \<longleftrightarrow> client_handle drv \<noteq> NULL \<and>
     (\<forall>hs. r_calloc env hs \<and> r_sem_create env hs \<and> r_device_open env hs (client_handle drv) a = (ESP_OK, h) \<and>
        r_interface_claim env hs (client_handle drv) h (iface_num cfg) = ESP_OK) \<and>
     (\<exists>c. (\<forall>hs. r_get_config env hs h = (ESP_OK, c)) \<and>
        (\<forall>t. extract_config_from_descriptor env c zero_config t = Ret (ESP_OK, cfg) t))"

definition set_up :: "ptr \<Rightarrow> ptr \<Rightarrow> msc_config \<Rightarrow> msc_device" where
  "set_up p h cfg = \<lparr>transfer_done = Suc p, handle = h, xfer = Suc (Suc p), config = cfg,
     disk = \<lparr>block_size = 0, block_count = 0\<rparr>\<rparr>"

lemma attach_sets_up:
  assumes "attaches env drv a h cfg" and "alloc_succeeds env" and "s_msc_driver s = Some drv" and "next_ptr s = p" "p \<noteq> NULL"
  shows "\<exists>u es. msc_host_install_device depth env a s =
      on_error (start_device depth env p) (\<lambda>ret. then_do (msc_deinit_device env p True) (return (ret, None)))
        (return (ESP_OK, Some p)) u \<and>
    devs u p = Some (set_up p h cfg) \<and> transfer_at u p (set_up p h cfg) (fresh_xfer env es DEFAULT_XFER_SIZE) \<and>
    (\<forall>g. submits g (hist u) = submits g (hist s)) \<and> next_ptr u = Suc (Suc (Suc p)) \<and> s_disks u = s_disks s \<and> vfss u = vfss s \<and>
    s_msc_driver u = Some (drv\<lparr>devices_tailq := devices_tailq drv @ [p]\<rparr>)"
proof -
  obtain c where c: "\<And>hs. r_get_config env hs h = (ESP_OK, c)"
    "\<And>t. extract_config_from_descriptor env c zero_config t = Ret (ESP_OK, cfg) t"
    using assms(1) by (auto simp: attaches_def)
  let ?s1 = "s\<lparr>next_ptr := Suc p, hist := hist s @ [Os (EvCalloc p)], devs := (devs s)(p \<mapsto> zero_device),
    s_msc_driver := Some (drv\<lparr>devices_tailq := devices_tailq drv @ [p]\<rparr>)\<rparr>"
  let ?d2 = "zero_device\<lparr>transfer_done := Suc p, handle := h\<rparr>"
  let ?s2 = "?s1\<lparr>next_ptr := Suc (Suc p), hist := hist ?s1 @ [Os (EvSemCreate (Suc p)),
      Host (EvDeviceOpen (client_handle drv) a h ESP_OK)], devs := (devs ?s1)(p \<mapsto> ?d2)\<rparr>"
  have env: "r_calloc env hs" "r_sem_create env hs" "r_device_open env hs (client_handle drv) a = (ESP_OK, h)"
    "r_interface_claim env hs (client_handle drv) h (iface_num cfg) = ESP_OK" "client_handle drv \<noteq> NULL" for hs
    using assms(1) by (simp_all add: attaches_def)
  have opened: "open_device env p a ?s1 = Ret ESP_OK ?s2"
    using env assms(5) by (simp add: open_device_def xSemaphoreCreateBinary_def new_ptr_def update_dev_def
        usb_host_device_open_def bind_run then_do_def)
  let ?h3 = "hist ?s2 @ [Host (EvGetConfig h ESP_OK)]"
  let ?s3 = "?s2\<lparr>hist := ?h3 @ [Usb (EvXferAlloc DEFAULT_XFER_SIZE (Suc (Suc p)) ESP_OK),
      Host (EvClaim (client_handle drv) h (iface_num cfg) ESP_OK)], next_ptr := Suc (Suc (Suc p)),
      xfers := (xfers ?s2)(Suc (Suc p) \<mapsto> fresh_xfer env ?h3 DEFAULT_XFER_SIZE), devs := (devs ?s2)(p \<mapsto> set_up p h cfg)\<rparr>"
  have configured: "configure_device env p ?s2 = Ret ESP_OK ?s3"
    using env c assms(2,5)
    by (simp add: configure_device_def usb_host_get_active_config_descriptor_def usb_host_transfer_alloc_def
        usb_host_interface_claim_def update_dev_def bind_run then_do_def alloc_succeeds_def set_up_def zero_device_def)
  have "msc_host_install_device depth env a s =
      on_error (start_device depth env p) (\<lambda>ret. then_do (msc_deinit_device env p True) (return (ret, None)))
        (return (ESP_OK, Some p)) ?s3"
    using env assms(3-5) opened configured
    by (simp add: msc_host_install_device_def new_ptr_def bind_run then_do_def stailq_insert_tail_def put_driver_def Let_def
        on_error_def)
  moreover have "transfer_at ?s3 p (set_up p h cfg) (fresh_xfer env ?h3 DEFAULT_XFER_SIZE)"
    using assms(5) by (simp add: transfer_at_def set_up_def)
  ultimately show ?thesis by (intro exI [of _ ?s3] exI [of _ ?h3]) simp
qed


lemma ready_at_once: "scsi_cmd_unit_ready recover env p s = Ret ESP_OK t \<Longrightarrow> wait_loop recover env p n s = Ret ESP_OK t"
  by (cases n) (simp_all add: try_ready_def)

lemma start_on_ram:
  assumes env: "carries env cfg z h r0" and on: "on_ram env z p d r0 u r" and d: "config d = cfg" "handle d = h"
    and ep: "two_endpoints cfg" and r: "idle z r"
  shows "\<exists>t d'. start_device depth env p u = Ret ESP_OK t \<and> devs t p = Some d' \<and> same_device (Some (d\<lparr>disk := disk d'\<rparr>)) (Some d') \<and>
    disk d' = \<lparr>block_size = of_nat z, block_count = ram_last r\<rparr> \<and> s_msc_driver t = s_msc_driver u \<and> dev_ok p t \<and>
    next_ptr u \<le> next_ptr t \<and> s_disks t = s_disks u \<and> vfss t = vfss u \<and>
    (\<exists>r'. on_ram env z p d' r0 t r' \<and> idle z r' \<and> ram_blocks r' = ram_blocks r)"
proof -
  note env' = env [folded d] and ep' = ep [folded d(1)]
  let ?rec = "msc_host_reset_recovery depth env"
  obtain v where v: "scsi_cmd_inquiry ?rec env p u = Ret ESP_OK v" "served env z p d r0 r u v"
    using ram_inquiry [OF env' on ep' r, of ?rec] by blast
  then obtain r1 where r1: "on_ram env z p d r0 v r1" "idle z r1" "ram_last r1 = ram_last r" "bus_frame u v" "ram_blocks r1 = ram_blocks r"
    by (auto simp: served_def)
  obtain w where w: "scsi_cmd_unit_ready ?rec env p v = Ret ESP_OK w" "served env z p d r0 r1 v w"
    using ram_unit_ready [OF env' r1(1) ep' r1(2), of ?rec] by blast
  then obtain r2 where r2: "on_ram env z p d r0 w r2" "idle z r2" "ram_last r2 = ram_last r1" "bus_frame v w" "ram_blocks r2 = ram_blocks r1"
    by (auto simp: served_def)
  have wait: "msc_wait_for_ready_state ?rec env p WAIT_FOR_READY_TIMEOUT_MS v = Ret ESP_OK w"
    using ready_at_once [OF w(1)] by (simp only: msc_wait_for_ready_state_def)
  let ?m = "map (r_memory env (hist w)) [0..<8]"
  obtain x where x: "scsi_cmd_read_capacity ?rec env p (of_le32 (take 4 ?m)) (of_le32 (drop 4 ?m)) w =
      Ret (ESP_OK, of_nat z, ram_last r) x" "served env z p d r0 r2 w x"
    using ram_capacity [OF env' r2(1) ep' r2(2), of ?rec] r1(3) r2(3) by metis
  then obtain r3 where r3: "on_ram env z p d r0 x r3" "idle z r3" "ram_blocks r3 = ram_blocks r2" "bus_frame w x" by (auto simp: served_def)
  then have x2: "dev_ok p x" "same_device (Some d) (devs x p)" "bus_frame w x" by (auto simp: on_ram_def)
  then obtain dx q where at: "transfer_at x p dx q" "DEFAULT_XFER_SIZE \<le> length (data_buffer q)" by (auto elim!: dev_okE)
  then have dx: "p \<noteq> NULL" "devs x p = Some dx" by auto
  let ?d = "dx\<lparr>disk := \<lparr>block_size = of_nat z, block_count = ram_last r\<rparr>\<rparr>"
  let ?t = "x\<lparr>devs := (devs x)(p \<mapsto> ?d)\<rparr>"
  have "start_device depth env p u = Ret ESP_OK ?t"
    using v(1) wait x(1) dx by (simp add: start_device_def uninitialised_def update_dev_def bind_run on_error_def then_do_def
        del: upt_Suc)
  moreover have "same_device (Some (d\<lparr>disk := disk ?d\<rparr>)) (Some ?d)"
    using x2(2) dx by (cases d; cases dx) (simp add: same_device_def)
  moreover have "dev_ok p ?t"
  proof (rule dev_okI)
    show "transfer_at ?t p ?d q" using at by (simp add: transfer_at_def)
  qed (use x2(1) at in \<open>auto simp: dev_ok_def\<close>)
  moreover have "bus_frame u x" using r1(4) r2(4) x2(3) bus_frame_trans by blast
  then have "s_msc_driver ?t = s_msc_driver u" "next_ptr u \<le> next_ptr ?t" "s_disks ?t = s_disks u" "vfss ?t = vfss u"
    by (simp_all add: bus_frame_def)
  moreover have "\<exists>r'. on_ram env z p ?d r0 ?t r' \<and> idle z r' \<and> ram_blocks r' = ram_blocks r"
  proof -
    have "config dx = config d" "handle dx = handle d" using same_device_fields [of d dx] x2(2) dx by simp_all
    with r3(1) \<open>dev_ok p ?t\<close> have "on_ram env z p ?d r0 ?t r3" by (simp add: on_ram_def)
    then show ?thesis using r3(2,3) r2(5) r1(5) by auto
  qed
  ultimately show ?thesis by (intro exI [of _ ?t] exI [of _ ?d]) simp
qed

lemma attach_holds:
  assumes at: "attaches env drv a h cfg" and env: "carries env cfg z h r0" and ep: "two_endpoints cfg"
    and s: "s_msc_driver s = Some drv" "next_ptr s = p" "p \<noteq> NULL" and r: "r = ram_after cfg z r0 (submits h (hist s))" "idle z r"
  shows "\<exists>t d r'. msc_host_install_device depth env a s = Ret (ESP_OK, Some p) t \<and> devs t p = Some d \<and>
    config d = cfg \<and> handle d = h \<and> disk d = \<lparr>block_size = of_nat z, block_count = ram_last r\<rparr> \<and>
    s_msc_driver t = Some (drv\<lparr>devices_tailq := devices_tailq drv @ [p]\<rparr>) \<and> dev_ok p t \<and>
    p < next_ptr t \<and> s_disks t = s_disks s \<and> vfss t = vfss s \<and>
    on_ram env z p d r0 t r' \<and> idle z r' \<and> ram_blocks r' = ram_blocks r"
proof -
  have alloc: "alloc_succeeds env" using env by (simp add: carries_def answers_def host_ok_def)
  obtain u es where u: "msc_host_install_device depth env a s =
      on_error (start_device depth env p) (\<lambda>ret. then_do (msc_deinit_device env p True) (return (ret, None)))
        (return (ESP_OK, Some p)) u"
    "devs u p = Some (set_up p h cfg)" "transfer_at u p (set_up p h cfg) (fresh_xfer env es DEFAULT_XFER_SIZE)"
    "\<forall>g. submits g (hist u) = submits g (hist s)" "next_ptr u = Suc (Suc (Suc p))" "s_disks u = s_disks s" "vfss u = vfss s"
    "s_msc_driver u = Some (drv\<lparr>devices_tailq := devices_tailq drv @ [p]\<rparr>)"
    using attach_sets_up [OF at alloc s, of depth] by blast
  have f: "config (set_up p h cfg) = cfg" "handle (set_up p h cfg) = h" by (simp_all add: set_up_def)
  have "dev_ok p u" by (rule dev_okI [OF u(3)]) (use u(5,8) in simp_all)
  then have on: "on_ram env z p (set_up p h cfg) r0 u r" using u(2,4) r(1) by (simp add: on_ram_def f)
  obtain t d r' where t: "start_device depth env p u = Ret ESP_OK t" "devs t p = Some d"
    "same_device (Some (set_up p h cfg\<lparr>disk := disk d\<rparr>)) (Some d)"
    "disk d = \<lparr>block_size = of_nat z, block_count = ram_last r\<rparr>" "s_msc_driver t = s_msc_driver u" "dev_ok p t"
    "next_ptr u \<le> next_ptr t" "s_disks t = s_disks u" "vfss t = vfss u"
    "on_ram env z p d r0 t r'" "idle z r'" "ram_blocks r' = ram_blocks r"
    using start_on_ram [OF env on f ep r(2), of depth] by blast
  have "config d = cfg" "handle d = h" using same_device_fields [OF t(3)] f by simp_all
  with t u show ?thesis by (intro exI [of _ t] exI [of _ d] exI [of _ r']) simp
qed

lemma attach_on_ram:
  assumes "attaches env drv a h cfg" and "carries env cfg z h r0" and "two_endpoints cfg"
    and "s_msc_driver s = Some drv" "next_ptr s = p" "p \<noteq> NULL" and "r = ram_after cfg z r0 (submits h (hist s))" "idle z r"
  shows "\<exists>t d. msc_host_install_device depth env a s = Ret (ESP_OK, Some p) t \<and> devs t p = Some d \<and>
    config d = cfg \<and> handle d = h \<and> disk d = \<lparr>block_size = of_nat z, block_count = ram_last r\<rparr> \<and>
    s_msc_driver t = Some (drv\<lparr>devices_tailq := devices_tailq drv @ [p]\<rparr>) \<and> dev_ok p t"
  using attach_holds [OF assms, of depth] by blast

end
