(* ===== verification/Bot_Recovery.thy ===== *)
theory Bot_Recovery imports Scsi_Bot begin

text \<open>
  The reset recovery of \<open>src/msc_host.c\<close> request by request: what \<open>msc_host_reset_recovery\<close> sends over
  the control endpoint, as the bytes on the wire, before it waits for the unit.
\<close>

section \<open>Control requests, exactly\<close>

definition requests :: "event list \<Rightarrow> u8 list list" where
  "requests es = concat (map (\<lambda>e. case e of
       Usb (EvSubmitControl c y r) \<Rightarrow> [take (num_bytes y) (data_buffer y)] | _ \<Rightarrow> []) es)"

definition control_completes :: "env \<Rightarrow> bool" where
  "control_completes env \<longleftrightarrow> answers env \<and> (\<forall>h x. bEndpointAddress x = 0 \<longrightarrow>
     cmp_status (r_completion env h x) = USB_TRANSFER_STATUS_COMPLETED)"

lemma requests_append [simp]: "requests (xs @ ys) = requests xs @ requests ys"
  by (simp add: requests_def)

lemma requests_simps [simp]:
  "requests [] = []"
  "requests (Usb (EvSubmitControl c y r) # es) = take (num_bytes y) (data_buffer y) # requests es"
  "requests (Usb (EvTransferWait q ms b) # es) = requests es"
  "requests (Usb (EvHalt h ep e) # es) = requests es"
  "requests (Usb (EvFlush h ep e) # es) = requests es"
  "requests (Usb (EvClear h ep e) # es) = requests es"
  by (simp_all add: requests_def)

text \<open>A device with its transfer under an installed driver; a request leaves it so.\<close>

definition connected :: "ptr \<Rightarrow> msc_device \<Rightarrow> sys \<Rightarrow> bool" where
  "connected p d s \<longleftrightarrow> s_msc_driver s \<noteq> None \<and> (\<exists>x. transfer_at s p d x \<and> USB_SETUP_PACKET_SIZE \<le> length (data_buffer x))"

lemma request_run:
  assumes env: "control_completes env" and s: "connected p d s"
  shows "\<exists>t. then_do (write_setup (xfer d) q)
      (on_error (msc_control_transfer env p USB_SETUP_PACKET_SIZE) return (return ESP_OK)) s = Ret ESP_OK t \<and>
    connected p d t \<and> requests (hist t) = requests (hist s) @ [setup_bytes q]"
proof -
  from s obtain drv x where drv: "s_msc_driver s = Some drv" and at: "transfer_at s p d x"
    and len: "8 \<le> length (data_buffer x)" by (auto simp: connected_def)
  note f = transfer_atD [OF at]
  define y where "y = x\<lparr>data_buffer := overwrite (setup_bytes q) (data_buffer x), device_handle := handle d,
    bEndpointAddress := 0, callback := True, timeout_ms := 5000, num_bytes := 8, xfer_context := p\<rparr>"
  define u where "u = s\<lparr>xfers := (xfers s)(xfer d \<mapsto> y), hist := hist s @ [Usb (EvSubmitControl (client_handle drv) y ESP_OK)]\<rparr>"
  let ?c = "r_completion env (hist u) y"
  have c: "cmp_received ?c" "cmp_status ?c = USB_TRANSFER_STATUS_COMPLETED"
    using env by (simp_all add: control_completes_def answers_def y_def)
  have xu: "xfers u (xfer d) = Some y" "xfer_context y \<noteq> NULL" "devs u (xfer_context y) = Some d" "timeout_ms y = 5000"
    using f by (simp_all add: u_def y_def)
  let ?t = "awaited env (transfer_done d) (xfer d) y u"
  have wait: "wait_for_transfer_done env (xfer d) u = Ret USB_TRANSFER_STATUS_COMPLETED ?t"
    using wait_received [OF f(3) xu(1-3) c(1)] c(2) by simp
  have submit: "r_submit_control env h c z = ESP_OK" for h c z
    using env by (simp add: control_completes_def answers_def)
  have run: "then_do (write_setup (xfer d) q)
      (on_error (msc_control_transfer env p USB_SETUP_PACKET_SIZE) return (return ESP_OK)) s = Ret ESP_OK ?t"
    using f drv len wait submit
    by (simp add: write_setup_def msc_control_transfer_def usb_host_transfer_submit_control_def bind_run then_do_def
        on_error_def u_def y_def)
  have "connected p d ?t"
    using f drv len by (auto simp: connected_def transfer_at_def awaited_def u_def y_def)
  moreover have "requests (hist ?t) = requests (hist s) @ [setup_bytes q]"
    using len by (simp add: awaited_def u_def y_def take_overwrite)
  ultimately show ?thesis using run by blast
qed

lemma connected_hist [simp]: "connected p d (s\<lparr>hist := h\<rparr>) = connected p d s"
  by (simp add: connected_def transfer_at_def)

lemma connected_deref: "connected p d s \<Longrightarrow> deref_dev p s = Ret d s"
  by (auto simp: connected_def)

lemma clear_feature_run:
  assumes "control_completes env" and "connected p d s"
  shows "\<exists>t. clear_feature env p ep s = Ret ESP_OK t \<and> connected p d t \<and>
    requests (hist t) = requests (hist s) @ [setup_bytes (clear_feature_ep ep)]"
proof -
  let ?u = "s\<lparr>hist := hist s @ [Usb (EvHalt (handle d) ep ESP_OK), Usb (EvFlush (handle d) ep ESP_OK),
    Usb (EvClear (handle d) ep ESP_OK)]\<rparr>"
  have "clear_feature env p ep s = then_do (write_setup (xfer d) (clear_feature_ep ep))
      (on_error (msc_control_transfer env p USB_SETUP_PACKET_SIZE) return (return ESP_OK)) ?u"
    using connected_deref [OF assms(2)] assms(1)
    by (simp add: clear_feature_def usb_host_endpoint_halt_def usb_host_endpoint_flush_def usb_host_endpoint_clear_def
        control_completes_def answers_def del: USB_SETUP_PACKET_SIZE_def)
  with request_run [OF assms(1), of p d ?u "clear_feature_ep ep"] assms(2) show ?thesis by simp
qed

lemma mass_reset_run:
  assumes "control_completes env" and "connected p d s"
  shows "\<exists>t. msc_mass_reset env p s = Ret ESP_OK t \<and> connected p d t \<and>
    requests (hist t) = requests (hist s) @ [setup_bytes (mass_req_reset (iface_num (config d)))]"
  using request_run [OF assms] connected_deref [OF assms(2)] by (simp add: msc_mass_reset_def)

lemma on_error_return [simp]: "on_error m return (return ESP_OK) = m"
  by (rule ext) (simp add: on_error_def bind_def return_def split: outcome.split)

lemma recovery_run:
  assumes "control_completes env" and "connected p d s"
  shows "\<exists>t. msc_host_reset_recovery (Suc depth) env p s =
      msc_wait_for_ready_state (msc_host_reset_recovery depth env) env p WAIT_FOR_READY_TIMEOUT_MS t \<and> connected p d t \<and>
    requests (hist t) = requests (hist s) @ [setup_bytes (mass_req_reset (iface_num (config d))),
      setup_bytes (clear_feature_ep (bulk_in_ep (config d))), setup_bytes (clear_feature_ep (bulk_out_ep (config d)))]"
proof -
  obtain u where u: "msc_mass_reset env p s = Ret ESP_OK u" "connected p d u"
    "requests (hist u) = requests (hist s) @ [setup_bytes (mass_req_reset (iface_num (config d)))]"
    using mass_reset_run [OF assms] by blast
  obtain v where v: "clear_feature env p (bulk_in_ep (config d)) u = Ret ESP_OK v" "connected p d v"
    "requests (hist v) = requests (hist u) @ [setup_bytes (clear_feature_ep (bulk_in_ep (config d)))]"
    using clear_feature_run [OF assms(1) u(2)] by blast
  obtain w where w: "clear_feature env p (bulk_out_ep (config d)) v = Ret ESP_OK w" "connected p d w"
    "requests (hist w) = requests (hist v) @ [setup_bytes (clear_feature_ep (bulk_out_ep (config d)))]"
    using clear_feature_run [OF assms(1) v(2)] by blast
  from u v w connected_deref [OF u(2)] show ?thesis
    by (intro exI [of _ w]) (simp del: WAIT_FOR_READY_TIMEOUT_MS_def)
qed

lemma low_byte: "ucast (ucast (i :: u8) :: u16) = i" "ucast (drop_bit 8 (ucast (i :: u8) :: u16)) = (0 :: u8)"
  by (rule bit_word_eqI; simp add: bit_simps)+

lemma recovery_bytes:
  "setup_bytes (mass_req_reset i) = [0x21, 0xFF, 0, 0, i, 0, 0, 0]"
  "setup_bytes (clear_feature_ep ep) = [0x02, 0x01, 0, 0, ep, 0, 0, 0]"
  by (simp_all add: setup_bytes_def mass_req_reset_def clear_feature_ep_def le16_def low_byte)

end
