(* ===== verification/Test_Device.thy ===== *)
theory Test_Device imports Prelude begin

text \<open>
  The USB device of the test application (\<open>test_app/main/msc_device.c\<close>): a second board that offers its
  flash partition or its SD card as a mass-storage device, against which the driver's tests run.
  It runs on its own board, so it has its own state: the history of its calls to the vendor libraries
  (GPIO, wear levelling, SD host, TinyUSB), which the parameter \<open>board\<close> answers.
\<close>

section \<open>Descriptors and configurations\<close>

record tusb_desc_device =
  dd_bLength :: u8
  dd_bDescriptorType :: u8
  dd_bcdUSB :: u16
  dd_bDeviceClass :: u8
  dd_bDeviceSubClass :: u8
  dd_bDeviceProtocol :: u8
  dd_bMaxPacketSize0 :: u8
  dd_idVendor :: u16
  dd_idProduct :: u16
  dd_bcdDevice :: u16
  dd_iManufacturer :: u8
  dd_iProduct :: u8
  dd_iSerialNumber :: u8
  dd_bNumConfigurations :: u8

record tusb_desc_device_qualifier =
  dq_bLength :: u8
  dq_bDescriptorType :: u8
  dq_bcdUSB :: u16
  dq_bDeviceClass :: u8
  dq_bDeviceSubClass :: u8
  dq_bDeviceProtocol :: u8
  dq_bMaxPacketSize0 :: u8
  dq_bNumConfigurations :: u8
  dq_bReserved :: u8

datatype gpio_mode = GPIO_MODE_INPUT

datatype gpio_int_type = GPIO_INTR_DISABLE

record gpio_config_t =
  pin_bit_mask :: "64 word"
  gpio_pin_mode :: gpio_mode
  pull_up_en :: bool
  pull_down_en :: bool
  intr_type :: gpio_int_type

record tinyusb_config =
  tc_device :: "tusb_desc_device option"
  tc_full_speed_config :: "u8 list option"
  tc_high_speed_config :: "u8 list option"
  tc_qualifier :: "tusb_desc_device_qualifier option"
  tc_string :: "string list"
  tc_string_count :: nat
  tc_self_powered :: bool
  tc_vbus_monitor_io :: nat

record sdmmc_slot_config =
  slot_width :: u8
  slot_clk :: nat
  slot_cmd :: nat
  slot_d0 :: nat
  slot_d1 :: nat
  slot_d2 :: nat
  slot_d3 :: nat
  slot_flags :: u32

text \<open>The calls, with their arguments and results, and the board that answers them.\<close>

datatype board_event =
    B_Gpio_Config gpio_config_t esp_err_t
  | B_Find_Partition ptr
  | B_Wl_Mount ptr esp_err_t int
  | B_New_Spiflash int esp_err_t
  | B_New_Sdmmc ptr esp_err_t
  | B_Tinyusb_Install tinyusb_config esp_err_t
  | B_Malloc ptr
  | B_Free ptr
  | B_Host_Init esp_err_t
  | B_Host_Deinit
  | B_Host_Deinit_P int
  | B_Slot_Init int sdmmc_slot_config esp_err_t
  | B_Card_Init ptr esp_err_t
  | B_Delay nat

text \<open>
  Beside the results of the calls, \<open>board\<close> has what the source takes from the vendor's headers: the
  descriptor macros of TinyUSB with their lengths, the default configurations, the flags, and the
  build options \<open>TUD_OPT_HIGH_SPEED\<close> and \<open>CONFIG_SOC_SDMMC_USE_GPIO_MATRIX\<close>.
\<close>

record board =
  TUD_CONFIG_DESCRIPTOR :: "u8 \<Rightarrow> u8 \<Rightarrow> u8 \<Rightarrow> u16 \<Rightarrow> u8 \<Rightarrow> u16 \<Rightarrow> u8 list"
  TUD_MSC_DESCRIPTOR :: "u8 \<Rightarrow> u8 \<Rightarrow> u8 \<Rightarrow> u8 \<Rightarrow> u16 \<Rightarrow> u8 list"
  TUD_CONFIG_DESC_LEN :: u16
  TUD_MSC_DESC_LEN :: u16
  TUSB_DESC_CONFIG_ATT_REMOTE_WAKEUP :: u8
  CFG_TUD_ENDPOINT0_SIZE :: u8
  TUD_OPT_HIGH_SPEED :: bool
  TINYUSB_DEFAULT_CONFIG :: tinyusb_config
  CONFIG_SOC_SDMMC_USE_GPIO_MATRIX :: bool
  SDMMC_SLOT_CONFIG_DEFAULT :: sdmmc_slot_config
  SDMMC_SLOT_FLAG_INTERNAL_PULLUP :: u32
  SDMMC_HOST_FLAG_DEINIT_ARG :: u32
  sdmmc_host_flags :: u32
  sdmmc_host_slot :: int
  b_gpio_config :: "board_event list \<Rightarrow> gpio_config_t \<Rightarrow> esp_err_t"
  b_find_partition :: "board_event list \<Rightarrow> ptr"
  b_wl_mount :: "board_event list \<Rightarrow> ptr \<Rightarrow> esp_err_t \<times> int"
  b_new_spiflash :: "board_event list \<Rightarrow> int \<Rightarrow> esp_err_t"
  b_new_sdmmc :: "board_event list \<Rightarrow> ptr \<Rightarrow> esp_err_t"
  b_tinyusb_install :: "board_event list \<Rightarrow> tinyusb_config \<Rightarrow> esp_err_t"
  b_malloc :: "board_event list \<Rightarrow> ptr"
  b_host_init :: "board_event list \<Rightarrow> esp_err_t"
  b_slot_init :: "board_event list \<Rightarrow> int \<Rightarrow> sdmmc_slot_config \<Rightarrow> esp_err_t"
  b_card_init :: "board_event list \<Rightarrow> ptr \<Rightarrow> esp_err_t"

definition request :: "(board_event list \<Rightarrow> 'a) \<Rightarrow> ('a \<Rightarrow> board_event) \<Rightarrow> (board_event list, 'a) prog" where
  "request f ev = (\<lambda>h. Ret (f h) (h @ [ev (f h)]))"

lemma board_call_run [simp]: "request f ev h = Ret (f h) (h @ [ev (f h)])"
  by (simp add: request_def)

abbreviation note_call :: "board_event \<Rightarrow> (board_event list, unit) prog" where
  "note_call ev \<equiv> request (\<lambda>_. ()) (\<lambda>_. ev)"

definition TUSB_DESC_TOTAL_LEN :: "board \<Rightarrow> u16" where
  "TUSB_DESC_TOTAL_LEN board = TUD_CONFIG_DESC_LEN board + TUD_MSC_DESC_LEN board"

definition ITF_NUM_MSC :: u8 where [simp]: "ITF_NUM_MSC = 0"
definition ITF_NUM_TOTAL :: u8 where [simp]: "ITF_NUM_TOTAL = 1"
definition EDPT_MSC_OUT :: u8 where [simp]: "EDPT_MSC_OUT = 0x01"
definition EDPT_MSC_IN :: u8 where [simp]: "EDPT_MSC_IN = 0x81"

definition msc_fs_desc_configuration :: "board \<Rightarrow> u8 list" where
  "msc_fs_desc_configuration board =
     TUD_CONFIG_DESCRIPTOR board 1 ITF_NUM_TOTAL 0 (TUSB_DESC_TOTAL_LEN board) (TUSB_DESC_CONFIG_ATT_REMOTE_WAKEUP board) 100 @
     TUD_MSC_DESCRIPTOR board ITF_NUM_MSC 0 EDPT_MSC_OUT EDPT_MSC_IN 64"

definition msc_hs_desc_configuration :: "board \<Rightarrow> u8 list" where
  "msc_hs_desc_configuration board =
     TUD_CONFIG_DESCRIPTOR board 1 ITF_NUM_TOTAL 0 (TUSB_DESC_TOTAL_LEN board) (TUSB_DESC_CONFIG_ATT_REMOTE_WAKEUP board) 100 @
     TUD_MSC_DESCRIPTOR board ITF_NUM_MSC 0 EDPT_MSC_OUT EDPT_MSC_IN 512"

text \<open>Values of the USB specification: descriptor types, and the class of a composite device.\<close>

definition TUSB_DESC_DEVICE :: u8 where [simp]: "TUSB_DESC_DEVICE = 1"
definition TUSB_DESC_DEVICE_QUALIFIER :: u8 where [simp]: "TUSB_DESC_DEVICE_QUALIFIER = 6"
definition TUSB_CLASS_MISC :: u8 where [simp]: "TUSB_CLASS_MISC = 0xEF"
definition MISC_SUBCLASS_COMMON :: u8 where [simp]: "MISC_SUBCLASS_COMMON = 2"
definition MISC_PROTOCOL_IAD :: u8 where [simp]: "MISC_PROTOCOL_IAD = 1"

definition device_qualifier :: "board \<Rightarrow> tusb_desc_device_qualifier" where
  "device_qualifier board = \<lparr>dq_bLength = 10, dq_bDescriptorType = TUSB_DESC_DEVICE_QUALIFIER, dq_bcdUSB = 0x0200,
     dq_bDeviceClass = TUSB_CLASS_MISC, dq_bDeviceSubClass = MISC_SUBCLASS_COMMON,
     dq_bDeviceProtocol = MISC_PROTOCOL_IAD, dq_bMaxPacketSize0 = CFG_TUD_ENDPOINT0_SIZE board,
     dq_bNumConfigurations = 1, dq_bReserved = 0\<rparr>"

definition descriptor_config :: "board \<Rightarrow> tusb_desc_device" where
  "descriptor_config board = \<lparr>dd_bLength = 18, dd_bDescriptorType = TUSB_DESC_DEVICE, dd_bcdUSB = 0x0200,
     dd_bDeviceClass = TUSB_CLASS_MISC, dd_bDeviceSubClass = MISC_SUBCLASS_COMMON,
     dd_bDeviceProtocol = MISC_PROTOCOL_IAD, dd_bMaxPacketSize0 = CFG_TUD_ENDPOINT0_SIZE board,
     dd_idVendor = 0x303A, dd_idProduct = 0x4002, dd_bcdDevice = 0x100,
     dd_iManufacturer = 1, dd_iProduct = 2, dd_iSerialNumber = 3, dd_bNumConfigurations = 1\<rparr>"

definition string_desc_arr :: "string list" where
  "string_desc_arr = [[CHR 0x09, CHR 0x04], ''TinyUSB'', ''TinyUSB Device'']"

section \<open>Starting the device\<close>

definition VBUS_MONITORING_GPIO_NUM :: nat where [simp]: "VBUS_MONITORING_GPIO_NUM = 4"

definition vbus_gpio_config :: gpio_config_t where
  "vbus_gpio_config = \<lparr>pin_bit_mask = push_bit VBUS_MONITORING_GPIO_NUM 1, gpio_pin_mode = GPIO_MODE_INPUT,
     pull_up_en = True, pull_down_en = False, intr_type = GPIO_INTR_DISABLE\<rparr>"

definition configure_vbus_monitoring :: "board \<Rightarrow> (board_event list, unit) prog" where
  "configure_vbus_monitoring board =
     ESP_ERROR_CHECK (request (\<lambda>h. b_gpio_config board h vbus_gpio_config) (B_Gpio_Config vbus_gpio_config))"

definition storage_init_config :: "board \<Rightarrow> tinyusb_config" where
  "storage_init_config board = (let
     c = (TINYUSB_DEFAULT_CONFIG board)\<lparr>tc_device := Some (descriptor_config board),
       tc_full_speed_config := Some (msc_fs_desc_configuration board)\<rparr>;
     c = (if TUD_OPT_HIGH_SPEED board
          then c\<lparr>tc_high_speed_config := Some (msc_hs_desc_configuration board), tc_qualifier := Some (device_qualifier board)\<rparr>
          else c)
     in c\<lparr>tc_string := string_desc_arr, tc_string_count := length string_desc_arr,
       tc_self_powered := True, tc_vbus_monitor_io := VBUS_MONITORING_GPIO_NUM\<rparr>)"

definition storage_init :: "board \<Rightarrow> (board_event list, unit) prog" where
  "storage_init board = (let tusb_cfg = storage_init_config board in
     ESP_ERROR_CHECK (request (\<lambda>h. b_tinyusb_install board h tusb_cfg) (B_Tinyusb_Install tusb_cfg)))"

text \<open>The handle is an out parameter, which \<open>wl_mount\<close> writes; without a partition it is as before.\<close>

definition storage_init_spiflash :: "board \<Rightarrow> int \<Rightarrow> (board_event list, esp_err_t \<times> int) prog" where
  "storage_init_spiflash board wl_handle =
     bind (request (b_find_partition board) B_Find_Partition) (\<lambda>data_partition.
       if data_partition = NULL then return (ESP_ERR_NOT_FOUND, wl_handle)
       else request (\<lambda>h. b_wl_mount board h data_partition) (\<lambda>(e, w). B_Wl_Mount data_partition e w))"

text \<open>The loop at the end of a device task: \<open>rounds\<close> rounds of it.\<close>

primrec delay_loop :: "nat \<Rightarrow> (board_event list, unit) prog" where
  "delay_loop 0 = return ()"
| "delay_loop (Suc rounds) = then_do (note_call (B_Delay 100)) (delay_loop rounds)"

definition device_app :: "nat \<Rightarrow> board \<Rightarrow> (board_event list, unit) prog" where
  "device_app rounds board =
     then_do (configure_vbus_monitoring board)
    (bind (storage_init_spiflash board (- 1)) (\<lambda>(e, wl_handle).
     then_do (ESP_ERROR_CHECK (return e))
    (then_do (ESP_ERROR_CHECK (request (\<lambda>h. b_new_spiflash board h wl_handle) (B_New_Spiflash wl_handle)))
    (then_do (storage_init board) (delay_loop rounds)))))"

section \<open>The SD card\<close>

definition SDMMC_BUS_WIDTH :: nat where [simp]: "SDMMC_BUS_WIDTH = 4"

definition PIN_CMD :: nat where "PIN_CMD = 35"
definition PIN_CLK :: nat where "PIN_CLK = 36"
definition PIN_D0 :: nat where "PIN_D0 = 37"
definition PIN_D1 :: nat where "PIN_D1 = 38"
definition PIN_D2 :: nat where "PIN_D2 = 33"
definition PIN_D3 :: nat where "PIN_D3 = 34"

definition sdmmc_slot :: "board \<Rightarrow> sdmmc_slot_config" where
  "sdmmc_slot board = (let
     c = SDMMC_SLOT_CONFIG_DEFAULT board;
     c = (if SDMMC_BUS_WIDTH = 4 then c\<lparr>slot_width := 4\<rparr> else c\<lparr>slot_width := 1\<rparr>);
     c = (if CONFIG_SOC_SDMMC_USE_GPIO_MATRIX board
          then let c = c\<lparr>slot_clk := PIN_CLK, slot_cmd := PIN_CMD, slot_d0 := PIN_D0\<rparr> in
            if SDMMC_BUS_WIDTH = 4 then c\<lparr>slot_d1 := PIN_D1, slot_d2 := PIN_D2, slot_d3 := PIN_D3\<rparr> else c
          else c)
     in c\<lparr>slot_flags := or (slot_flags c) (SDMMC_SLOT_FLAG_INTERNAL_PULLUP board)\<rparr>)"

text \<open>The label \<open>clean\<close>, and the function. The out parameter is written only on success.\<close>

definition sdmmc_clean :: "board \<Rightarrow> bool \<Rightarrow> ptr \<Rightarrow> esp_err_t \<Rightarrow> (board_event list, esp_err_t \<times> ptr option) prog" where
  "sdmmc_clean board host_init sd_card ret =
     then_do (if host_init
       then if and (sdmmc_host_flags board) (SDMMC_HOST_FLAG_DEINIT_ARG board) \<noteq> 0
         then note_call (B_Host_Deinit_P (sdmmc_host_slot board)) else note_call B_Host_Deinit
       else return ())
    (then_do (if sd_card \<noteq> NULL then note_call (B_Free sd_card) else return ())
    (return (ret, None)))"

definition storage_init_sdmmc :: "board \<Rightarrow> (board_event list, esp_err_t \<times> ptr option) prog" where
  "storage_init_sdmmc board = (let slot_config = sdmmc_slot board in
     bind (request (b_malloc board) B_Malloc) (\<lambda>sd_card.
     if sd_card = NULL then sdmmc_clean board False sd_card ESP_ERR_NO_MEM else
     on_error (request (b_host_init board) B_Host_Init) (sdmmc_clean board False sd_card)
    (on_error (request (\<lambda>h. b_slot_init board h (sdmmc_host_slot board) slot_config) (B_Slot_Init (sdmmc_host_slot board) slot_config))
       (sdmmc_clean board True sd_card)
    (on_error (request (\<lambda>h. b_card_init board h sd_card) (B_Card_Init sd_card)) (sdmmc_clean board True sd_card)
    (return (ESP_OK, Some sd_card))))))"

definition device_app_sdmmc :: "nat \<Rightarrow> board \<Rightarrow> (board_event list, unit) prog" where
  "device_app_sdmmc rounds board =
     then_do (configure_vbus_monitoring board)
    (bind (storage_init_sdmmc board) (\<lambda>(e, c).
     then_do (ESP_ERROR_CHECK (return e))
    (let card = (case c of None \<Rightarrow> NULL | Some p \<Rightarrow> p) in
     then_do (ESP_ERROR_CHECK (request (\<lambda>h. b_new_sdmmc board h card) (B_New_Sdmmc card)))
    (then_do (storage_init board) (delay_loop rounds)))))"

section \<open>What the start of a storage takes and gives back\<close>

text \<open>
  The resources a history holds: the cards that are allocated, and whether the SD host is running.
  \<open>released_well\<close> says that nothing is freed or stopped that is not held.
\<close>

primrec card_event :: "board_event \<Rightarrow> ptr set \<Rightarrow> ptr set" where
  "card_event (B_Malloc p) c = (if p = NULL then c else insert p c)"
| "card_event (B_Free p) c = c - {p}"
| "card_event (B_Gpio_Config g e) c = c"
| "card_event (B_Find_Partition p) c = c"
| "card_event (B_Wl_Mount p e w) c = c"
| "card_event (B_New_Spiflash w e) c = c"
| "card_event (B_New_Sdmmc p e) c = c"
| "card_event (B_Tinyusb_Install t e) c = c"
| "card_event (B_Host_Init e) c = c"
| "card_event B_Host_Deinit c = c"
| "card_event (B_Host_Deinit_P n) c = c"
| "card_event (B_Slot_Init n g e) c = c"
| "card_event (B_Card_Init p e) c = c"
| "card_event (B_Delay n) c = c"

definition cards :: "board_event list \<Rightarrow> ptr set" where
  "cards h = fold card_event h {}"

definition host_event :: "board_event \<Rightarrow> bool \<Rightarrow> bool" where
  "host_event ev on = (case ev of B_Host_Init e \<Rightarrow> on \<or> e = ESP_OK | B_Host_Deinit \<Rightarrow> False
     | B_Host_Deinit_P n \<Rightarrow> False | _ \<Rightarrow> on)"

definition host_on :: "board_event list \<Rightarrow> bool" where
  "host_on h = fold host_event h False"

lemma cards_append [simp]: "cards (h @ es) = fold card_event es (cards h)"
  by (simp add: cards_def)

lemma host_on_append [simp]: "host_on (h @ es) = fold host_event es (host_on h)"
  by (simp add: host_on_def)

lemma ESP_ERROR_CHECK_run:
  "ESP_ERROR_CHECK m s = (case m s of Ret e t \<Rightarrow> if e = ESP_OK then Ret () t else Fault AssertFailed | Fault f \<Rightarrow> Fault f)"
  by (simp add: ESP_ERROR_CHECK_def bind_run split: outcome.split)

text \<open>The clean-up frees the card and stops the host if it was started.\<close>

lemma sdmmc_clean_run:
  "\<exists>t. sdmmc_clean board on p e s = Ret (e, None) t \<and> cards t = cards s - (if p = NULL then {} else {p}) \<and>
     host_on t = (host_on s \<and> \<not> on)"
  by (cases on; cases "p = NULL")
    (auto simp: sdmmc_clean_def then_do_def bind_run host_event_def)

text \<open>The error a start of the card ends with: that of the first step that fails.\<close>

definition sdmmc_error :: "board \<Rightarrow> board_event list \<Rightarrow> esp_err_t" where
  "sdmmc_error board h = (let p = b_malloc board h; h1 = h @ [B_Malloc p];
     e1 = b_host_init board h1; h2 = h1 @ [B_Host_Init e1];
     e2 = b_slot_init board h2 (sdmmc_host_slot board) (sdmmc_slot board);
     h3 = h2 @ [B_Slot_Init (sdmmc_host_slot board) (sdmmc_slot board) e2]; e3 = b_card_init board h3 p
     in if p = NULL then ESP_ERR_NO_MEM else if e1 \<noteq> ESP_OK then e1 else if e2 \<noteq> ESP_OK then e2 else e3)"

lemma storage_init_sdmmc_run:
  assumes "\<not> host_on h" and "b_malloc board h \<notin> cards h"
  shows "\<exists>t. storage_init_sdmmc board h =
      Ret (sdmmc_error board h, if sdmmc_error board h = ESP_OK then Some (b_malloc board h) else None) t \<and>
    (if sdmmc_error board h = ESP_OK
     then b_malloc board h \<noteq> NULL \<and> cards t = insert (b_malloc board h) (cards h) \<and> host_on t
     else cards t = cards h \<and> \<not> host_on t)"
proof -
  define p where "p = b_malloc board h"
  define h1 where "h1 = h @ [B_Malloc p]"
  define e1 where "e1 = b_host_init board h1"
  define h2 where "h2 = h1 @ [B_Host_Init e1]"
  define e2 where "e2 = b_slot_init board h2 (sdmmc_host_slot board) (sdmmc_slot board)"
  define h3 where "h3 = h2 @ [B_Slot_Init (sdmmc_host_slot board) (sdmmc_slot board) e2]"
  define e3 where "e3 = b_card_init board h3 p"
  define h4 where "h4 = h3 @ [B_Card_Init p e3]"
  note names = p_def [symmetric] h1_def [symmetric] e1_def [symmetric] h2_def [symmetric] e2_def [symmetric]
    h3_def [symmetric] e3_def [symmetric] h4_def [symmetric]
  have start: "storage_init_sdmmc board h =
      (if p = NULL then sdmmc_clean board False p ESP_ERR_NO_MEM h1
       else if e1 \<noteq> ESP_OK then sdmmc_clean board False p e1 h2
       else if e2 \<noteq> ESP_OK then sdmmc_clean board True p e2 h3
       else if e3 \<noteq> ESP_OK then sdmmc_clean board True p e3 h4 else Ret (ESP_OK, Some p) h4)"
    by (simp add: storage_init_sdmmc_def Let_def bind_run on_error_def names del: append_assoc append.simps)
  have err: "sdmmc_error board h =
      (if p = NULL then ESP_ERR_NO_MEM else if e1 \<noteq> ESP_OK then e1 else if e2 \<noteq> ESP_OK then e2 else e3)"
    unfolding sdmmc_error_def Let_def names ..
  have held: "cards h1 = (if p = NULL then cards h else insert p (cards h))" "cards h2 = cards h1" "cards h3 = cards h1"
      "cards h4 = cards h1" "host_on h1 = host_on h" "host_on h2 = (host_on h \<or> e1 = ESP_OK)" "host_on h3 = host_on h2"
      "host_on h4 = host_on h2"
    by (simp_all add: h1_def h2_def h3_def h4_def host_event_def)
  note clean = sdmmc_clean_run [of board]
  show ?thesis
    using assms clean [of False p ESP_ERR_NO_MEM h1] clean [of False p e1 h2] clean [of True p e2 h3] clean [of True p e3 h4]
    unfolding p_def [symmetric] err start
    by (auto simp: held)
qed

section \<open>What the device tasks do\<close>

lemma delay_loop_run: "delay_loop rounds h = Ret () (h @ replicate rounds (B_Delay 100))"
  by (induction rounds arbitrary: h) (simp_all add: then_do_def bind_run)

text \<open>
  A device task serves its storage only after every step before has succeeded, and an error in any
  step aborts: the calls of a task that reaches its loop are these, with these results.
\<close>

lemma device_app_run:
  assumes "device_app rounds board h = Ret () t"
  shows "\<exists>p w. p \<noteq> NULL \<and> t = h @ [B_Gpio_Config vbus_gpio_config ESP_OK, B_Find_Partition p, B_Wl_Mount p ESP_OK w,
    B_New_Spiflash w ESP_OK, B_Tinyusb_Install (storage_init_config board) ESP_OK] @ replicate rounds (B_Delay 100)"
  using assms
  by (auto simp: device_app_def configure_vbus_monitoring_def storage_init_spiflash_def storage_init_def Let_def
      prog_Ret ESP_ERROR_CHECK_run delay_loop_run split: if_splits prod.splits)

lemma device_app_sdmmc_run:
  assumes "device_app_sdmmc rounds board [] = Ret () t" and "b_malloc board [B_Gpio_Config vbus_gpio_config ESP_OK] = p"
  shows "p \<noteq> NULL \<and> cards t = {p} \<and> host_on t \<and>
    (\<exists>es. t = es @ [B_New_Sdmmc p ESP_OK, B_Tinyusb_Install (storage_init_config board) ESP_OK] @ replicate rounds (B_Delay 100))"
proof -
  let ?h = "[B_Gpio_Config vbus_gpio_config ESP_OK]"
  have start: "\<not> host_on ?h" "b_malloc board ?h \<notin> cards ?h" by (simp_all add: host_on_def cards_def host_event_def)
  obtain u where u: "storage_init_sdmmc board ?h = Ret (sdmmc_error board ?h,
      if sdmmc_error board ?h = ESP_OK then Some p else None) u"
    "sdmmc_error board ?h = ESP_OK \<longrightarrow> p \<noteq> NULL \<and> cards u = insert p (cards ?h) \<and> host_on u"
    using storage_init_sdmmc_run [OF start] assms(2) by (metis (no_types, lifting))
  have "sdmmc_error board ?h = ESP_OK" and
    t: "t = u @ [B_New_Sdmmc p ESP_OK, B_Tinyusb_Install (storage_init_config board) ESP_OK] @ replicate rounds (B_Delay 100)"
    using assms(1) u(1)
    by (auto simp: device_app_sdmmc_def configure_vbus_monitoring_def storage_init_def Let_def prog_Ret
        ESP_ERROR_CHECK_run delay_loop_run split: if_splits)
  have quiet: "(card_event (B_Delay 100) ^^ n) c = c" "(host_event (B_Delay 100) ^^ n) on = on" for n c on
    by (induction n) (simp_all add: host_event_def)
  have none: "cards ?h = {}" by (simp add: cards_def)
  from \<open>sdmmc_error board ?h = ESP_OK\<close> u(2) have held: "p \<noteq> NULL" "cards u = {p}" "host_on u"
    unfolding none by blast+
  have "cards t = {p}" "host_on t" unfolding t by (simp_all add: quiet held host_event_def)
  with held(1) t show ?thesis by blast
qed

section \<open>A board\<close>

definition sample_board :: "esp_err_t \<Rightarrow> board" where
  "sample_board e = \<lparr>TUD_CONFIG_DESCRIPTOR = (\<lambda>_ _ _ _ _ _. []), TUD_MSC_DESCRIPTOR = (\<lambda>_ _ _ _ _. []),
     TUD_CONFIG_DESC_LEN = 9, TUD_MSC_DESC_LEN = 23, TUSB_DESC_CONFIG_ATT_REMOTE_WAKEUP = 0x20,
     CFG_TUD_ENDPOINT0_SIZE = 64, TUD_OPT_HIGH_SPEED = False,
     TINYUSB_DEFAULT_CONFIG = \<lparr>tc_device = None, tc_full_speed_config = None, tc_high_speed_config = None,
       tc_qualifier = None, tc_string = [], tc_string_count = 0, tc_self_powered = False, tc_vbus_monitor_io = 0\<rparr>,
     CONFIG_SOC_SDMMC_USE_GPIO_MATRIX = True,
     SDMMC_SLOT_CONFIG_DEFAULT = \<lparr>slot_width = 0, slot_clk = 0, slot_cmd = 0, slot_d0 = 0, slot_d1 = 0, slot_d2 = 0,
       slot_d3 = 0, slot_flags = 0\<rparr>,
     SDMMC_SLOT_FLAG_INTERNAL_PULLUP = 1, SDMMC_HOST_FLAG_DEINIT_ARG = 8, sdmmc_host_flags = 8, sdmmc_host_slot = 1,
     b_gpio_config = (\<lambda>_ _. 0), b_find_partition = (\<lambda>_. 3), b_wl_mount = (\<lambda>_ _. (0, 7)), b_new_spiflash = (\<lambda>_ _. 0),
     b_new_sdmmc = (\<lambda>_ _. 0), b_tinyusb_install = (\<lambda>_ _. 0), b_malloc = (\<lambda>_. 5), b_host_init = (\<lambda>_. 0),
     b_slot_init = (\<lambda>_ _ _. 0), b_card_init = (\<lambda>_ _. e)\<rparr>"

lemma sample_board_runs: "\<exists>t. device_app n (sample_board 0) [] = Ret () t"
  by (simp add: device_app_def configure_vbus_monitoring_def storage_init_spiflash_def storage_init_def Let_def
      sample_board_def then_do_def bind_run ESP_ERROR_CHECK_run delay_loop_run)

end
