(* ===== verification/Test_Cases.thy ===== *)
theory Test_Cases imports Ram_Attach Msc_Vfs begin

unbundle bit_operations_syntax

text \<open>
  Test cases of the driver (\<open>test_app/main/test_msc.c\<close>) that do not go through files: they run the whole life of
  a driver, from its installation to its removal. The test's queue, its tasks, the host library's own start and end and the
  PHY are left out; \<open>a\<close> is the address of the connection event the queue gives, \<open>cb\<close> the address of \<open>msc_event_cb\<close>
  and \<open>vfs_handle\<close> that of the test's variable. A failed test assertion is a fault.
\<close>

section \<open>The tests\<close>

definition DISK_BLOCK_NUM :: nat where [simp]: "DISK_BLOCK_NUM = 128 + 1"

definition DISK_BLOCK_SIZE :: nat where [simp]: "DISK_BLOCK_SIZE = 512"

definition ESP_OK_ASSERT :: "(sys, esp_err_t) prog \<Rightarrow> (sys, unit) prog" where
  "ESP_OK_ASSERT m = bind m (\<lambda>e. guard AssertFailed (e = ESP_OK))"

definition test_mount_config :: mount_config where
  "test_mount_config = \<lparr>format_if_mount_failed = True, max_files = 3, allocation_unit_size = 1024\<rparr>"

definition test_msc_config :: "bool \<Rightarrow> ptr \<Rightarrow> msc_host_driver_config" where
  "test_msc_config background cb = \<lparr>create_backround_task = background, task_priority = 5, stack_size = 4096, core_id = 0,
     cb_callback = cb, cb_callback_arg = NULL\<rparr>"

abbreviation pointer :: "ptr option \<Rightarrow> ptr" where
  "pointer q \<equiv> (case q of None \<Rightarrow> NULL | Some p \<Rightarrow> p)"

definition msc_test_wait_and_install_device :: "nat \<Rightarrow> env \<Rightarrow> ptr \<Rightarrow> u8 \<Rightarrow> (sys, ptr \<times> ptr) prog" where
  "msc_test_wait_and_install_device depth env vfs_handle a =
     bind (msc_host_install_device depth env a) (\<lambda>(e, device). then_do (guard AssertFailed (e = ESP_OK))
    (bind (msc_host_vfs_register env (pointer device) (Some ''/usb'') (Some test_mount_config) vfs_handle) (\<lambda>(e, vfs).
      then_do (guard AssertFailed (e = ESP_OK)) (return (pointer device, pointer vfs)))))"

definition msc_setup :: "bool \<Rightarrow> nat \<Rightarrow> env \<Rightarrow> ptr \<Rightarrow> ptr \<Rightarrow> u8 \<Rightarrow> (sys, ptr \<times> ptr) prog" where
  "msc_setup background depth env cb vfs_handle a =
     then_do (ESP_OK_ASSERT (msc_host_install env (Some (test_msc_config background cb))))
       (msc_test_wait_and_install_device depth env vfs_handle a)"

definition write_read_sectors :: "nat \<Rightarrow> env \<Rightarrow> ptr \<Rightarrow> (sys, unit) prog" where
  "write_read_sectors depth env device = (let write_data = replicate DISK_BLOCK_SIZE 0x55; read_data = replicate DISK_BLOCK_SIZE 0 in
     then_do (ESP_OK_ASSERT (scsi_cmd_write10 (msc_host_reset_recovery depth env) env device write_data 10 1 512))
    (bind (scsi_cmd_read10 (msc_host_reset_recovery depth env) env device read_data 10 1 512) (\<lambda>(e, read_data).
      then_do (guard AssertFailed (e = ESP_OK)) (guard AssertFailed (write_data = read_data)))))"

text \<open>\<open>erase_storage\<close> does not look at the results of its writes.\<close>

primrec erase_blocks :: "nat \<Rightarrow> env \<Rightarrow> ptr \<Rightarrow> u32 list \<Rightarrow> (sys, unit) prog" where
  "erase_blocks depth env device [] = return ()"
| "erase_blocks depth env device (block # blocks) =
     bind (scsi_cmd_write10 (msc_host_reset_recovery depth env) env device (replicate DISK_BLOCK_SIZE 0xFF) block 1 512)
       (\<lambda>_. erase_blocks depth env device blocks)"

definition erase_storage :: "nat \<Rightarrow> env \<Rightarrow> ptr \<Rightarrow> (sys, unit) prog" where
  "erase_storage depth env device = erase_blocks depth env device (map of_nat [0..<DISK_BLOCK_NUM])"

definition msc_test_uninstall_device :: "env \<Rightarrow> ptr \<Rightarrow> ptr \<Rightarrow> (sys, unit) prog" where
  "msc_test_uninstall_device env device vfs =
     then_do (ESP_OK_ASSERT (msc_host_vfs_unregister env vfs)) (ESP_OK_ASSERT (msc_host_uninstall_device env device))"

definition msc_test_deinit :: "env \<Rightarrow> (sys, unit) prog" where
  "msc_test_deinit env = ESP_OK_ASSERT (msc_host_uninstall env)"

definition msc_teardown :: "env \<Rightarrow> ptr \<Rightarrow> ptr \<Rightarrow> (sys, unit) prog" where
  "msc_teardown env device vfs = then_do (msc_test_uninstall_device env device vfs) (msc_test_deinit env)"

text \<open>\<open>sectors_can_be_written_and_read\<close> and, without a background task, \<open>no_background_task\<close>; both configure the same
  stack size and priority.\<close>

definition sectors_test :: "bool \<Rightarrow> nat \<Rightarrow> env \<Rightarrow> ptr \<Rightarrow> ptr \<Rightarrow> u8 \<Rightarrow> (sys, unit) prog" where
  "sectors_test background depth env cb vfs_handle a =
     bind (msc_setup background depth env cb vfs_handle a) (\<lambda>(device, vfs).
       then_do (write_read_sectors depth env device) (msc_teardown env device vfs))"

text \<open>\<open>no_background_task_2\<close>: nothing handles an event between the installation and its end.\<close>

definition no_background_task_2 :: "env \<Rightarrow> ptr \<Rightarrow> (sys, unit) prog" where
  "no_background_task_2 env cb = then_do (ESP_OK_ASSERT (msc_host_install env (Some \<lparr>create_backround_task = False,
     task_priority = 0, stack_size = 0, core_id = 0, cb_callback = cb, cb_callback_arg = NULL\<rparr>)))
     (msc_test_deinit env)"

text \<open>
  \<open>handle_usb_events\<close>, the test's task for the host library: what it does with the flags it is given, one after the
  other, and whether it has ended. The two flags are the host library's, so they are parameters.
\<close>

datatype lib_action = Device_Free_All | Give_Ready | Task_Delete

primrec usb_events_loop :: "u32 \<Rightarrow> u32 \<Rightarrow> u32 \<Rightarrow> u32 list \<Rightarrow> lib_action list \<times> bool" where
  "usb_events_loop no_clients all_free end_flags [] = ([], False)"
| "usb_events_loop no_clients all_free end_flags (event_flags # rest) =
     (let free = (if event_flags AND no_clients \<noteq> 0 then [Device_Free_All] else []);
        end_flags = (if event_flags AND no_clients \<noteq> 0 then end_flags OR 1 else end_flags);
        end_flags = (if event_flags AND all_free \<noteq> 0 then end_flags OR 2 else end_flags)
      in if end_flags = 3 then (free @ [Give_Ready, Task_Delete], True)
         else (let (acts, ended) = usb_events_loop no_clients all_free end_flags rest in (free @ acts, ended)))"

definition handle_usb_events :: "u32 \<Rightarrow> u32 \<Rightarrow> u32 list \<Rightarrow> lib_action list \<times> bool" where
  "handle_usb_events no_clients all_free fs = usb_events_loop no_clients all_free 0 fs"

text \<open>It ends once both flags have been seen, in either order or together, and gives the semaphore exactly then, once.\<close>

lemma usb_events_end:
  assumes "e \<in> {0, 1, 2}"
  shows "snd (usb_events_loop no_clients all_free e fs) \<longleftrightarrow>
      (e = 1 \<or> (\<exists>f\<in>set fs. f AND no_clients \<noteq> 0)) \<and> (e = 2 \<or> (\<exists>f\<in>set fs. f AND all_free \<noteq> 0)) \<and> fs \<noteq> []"
    and "count_list (fst (usb_events_loop no_clients all_free e fs)) Give_Ready =
      (if snd (usb_events_loop no_clients all_free e fs) then 1 else 0)"
proof -
  let ?loop = "usb_events_loop no_clients all_free"
  have "(snd (?loop e fs) \<longleftrightarrow> (e = 1 \<or> (\<exists>f\<in>set fs. f AND no_clients \<noteq> 0)) \<and> (e = 2 \<or> (\<exists>f\<in>set fs. f AND all_free \<noteq> 0)) \<and> fs \<noteq> []) \<and>
      count_list (fst (?loop e fs)) Give_Ready = (if snd (?loop e fs) then 1 else 0)"
    using assms
  proof (induction fs arbitrary: e)
    case (Cons f fs)
    consider "e = 0" | "e = 1" | "e = 2" using Cons.prems by blast
    then show ?case
      using Cons.IH [of 0] Cons.IH [of 1] Cons.IH [of 2]
      by cases (cases "f AND no_clients = 0"; cases "f AND all_free = 0"; cases fs; simp add: Let_def split_beta)+
  qed simp
  then show "snd (?loop e fs) \<longleftrightarrow> (e = 1 \<or> (\<exists>f\<in>set fs. f AND no_clients \<noteq> 0)) \<and> (e = 2 \<or> (\<exists>f\<in>set fs. f AND all_free \<noteq> 0)) \<and> fs \<noteq> []"
    "count_list (fst (?loop e fs)) Give_Ready = (if snd (?loop e fs) then 1 else 0)" by blast+
qed

section \<open>They pass on a device that stores blocks\<close>

definition fatfs_answers :: "env \<Rightarrow> nat \<Rightarrow> bool" where
  "fatfs_answers env n \<longleftrightarrow> (\<forall>h. r_calloc env h \<and> (\<exists>p. r_get_drive env h = (ESP_OK, p) \<and> unat p < n) \<and>
     (\<forall>path drv k. fst (r_vfs_register env h path drv k) = ESP_OK) \<and> (\<forall>drv k. r_mount env h drv k = FR_OK))"

definition detach_answers :: "env \<Rightarrow> bool" where
  "detach_answers env \<longleftrightarrow> (\<forall>h c q i. r_interface_release env h c q i = ESP_OK) \<and> (\<forall>h c q. r_device_close env h c q = ESP_OK) \<and>
     (\<forall>h q. r_transfer_free env h q = ESP_OK) \<and> (\<forall>h c. r_client_unblock env h c = ESP_OK) \<and>
     (\<forall>h c. r_client_deregister env h c = ESP_OK)"

lemma ESP_OK_ASSERT_run [simp]: "m s = Ret ESP_OK t \<Longrightarrow> ESP_OK_ASSERT m s = Ret () t"
  by (simp add: ESP_OK_ASSERT_def)

lemma mount_ok:
  assumes "fatfs_answers env (length (s_disks s))" and "device \<noteq> NULL" and "devs s device = Some d" and "out \<noteq> NULL"
    and "next_ptr s \<noteq> NULL" and "vfss s (next_ptr s) = None"
  shows "\<exists>t copy pdrv. msc_host_vfs_register env device (Some path) (Some cfg) out s = Ret (ESP_OK, Some (next_ptr s)) t \<and>
    devs t = devs s \<and> xfers t = xfers s \<and> s_msc_driver t = s_msc_driver s \<and> next_ptr s < next_ptr t \<and>
    (\<forall>h. submits h (hist t) = submits h (hist s)) \<and>
    vfss t = (vfss s)(next_ptr s \<mapsto> \<lparr>vfs_drive = drive_name pdrv, vfs_base_path = Some (copy, path), vfs_pdrv = pdrv\<rparr>)"
proof -
  obtain p where p: "r_get_drive env (hist s @ [Os (EvCalloc (next_ptr s))]) = (ESP_OK, p)" "unat p < length (s_disks s)"
    using assms(1) unfolding fatfs_answers_def by blast
  have calloc: "r_calloc env h" for h using assms(1) by (simp add: fatfs_answers_def)
  have m: "mounting env device d out p s" using assms p calloc by (simp add: mounting_def)
  obtain e fs where v: "r_vfs_register env (with_copy s p) path (drive_name p) (max_files cfg) = (e, fs)" by fastforce
  with assms(1) have "e = ESP_OK" unfolding fatfs_answers_def by (metis fst_conv)
  with v have v: "r_vfs_register env (with_copy s p) path (drive_name p) (max_files cfg) = (ESP_OK, fs)" by simp
  have mount: "r_mount env h drv k = FR_OK" for h drv k using assms(1) by (simp add: fatfs_answers_def)
  let ?s = "registered_sys s p device path (max_files cfg)"
  have "msc_host_vfs_register env device (Some path) (Some cfg) out s =
      Ret (ESP_OK, Some (next_ptr s)) (?s\<lparr>hist := hist ?s @ [Fs (EvMount fs (drive_name p) 1 FR_OK)]\<rparr>)"
    unfolding register_to_mount [OF m calloc v] by (simp add: mount_volume_def f_mount_def mount bind_run)
  then show ?thesis
    by (simp add: registered_sys_def full_vfs_def after_drive_def submits_def) blast
qed

lemma sectors_pass:
  assumes env: "carries env (config d) 512 (handle d) r0" and on: "on_ram env 512 p d r0 s r" and ep: "two_endpoints (config d)"
    and r: "idle 512 r"
  shows "\<exists>t r'. write_read_sectors depth env p s = Ret () t \<and> on_ram env 512 p d r0 t r' \<and> idle 512 r' \<and>
    ram_blocks r' = (ram_blocks r)(10 := replicate 512 0x55) \<and> bus_frame s t"
proof -
  let ?rec = "msc_host_reset_recovery depth env" and ?w = "replicate 512 (0x55 :: u8)"
  obtain t r1 where t: "scsi_cmd_write10 ?rec env p ?w 10 1 512 s = Ret ESP_OK t"
    "on_ram env 512 p d r0 t r1" "idle 512 r1" "ram_blocks r1 = write_blocks 512 1 10 ?w (ram_blocks r)" "bus_frame s t"
    using ram_writes [OF env on ep r, of 1 512 ?w ?rec 10] by auto
  have again: "read_blocks 1 10 (ram_blocks r1) = ?w" unfolding t(4) by (rule read_after_write) simp_all
  obtain u r2 where u: "scsi_cmd_read10 ?rec env p (replicate 512 0) 10 1 512 t = Ret (ESP_OK, overwrite ?w (replicate 512 0)) u"
    "on_ram env 512 p d r0 u r2" "idle 512 r2" "ram_blocks r2 = ram_blocks r1" "bus_frame t u"
    using ram_reads [OF env t(2) ep t(3), of 1 512 "replicate 512 0" ?rec 10] again by auto
  have "overwrite ?w (replicate 512 0) = ?w" by (simp add: overwrite_def)
  with t(1) u(1) have "write_read_sectors depth env p s = Ret () u"
    by (simp add: write_read_sectors_def Let_def bind_run then_do_def)
  moreover have "ram_blocks r2 = (ram_blocks r)(10 := ?w)" using u(4) t(4) by (simp)
  moreover have "bus_frame s u" using t(5) u(5) bus_frame_trans by blast
  ultimately show ?thesis using u by blast
qed

lemma erase_ok:
  assumes env: "carries env (config d) 512 (handle d) r0" and ep: "two_endpoints (config d)"
    and "on_ram env 512 p d r0 s r" and "idle 512 r"
  shows "\<exists>t r'. erase_blocks depth env p bs s = Ret () t \<and> on_ram env 512 p d r0 t r' \<and> idle 512 r' \<and>
    ram_blocks r' = (\<lambda>b. if b \<in> set bs then replicate 512 0xFF else ram_blocks r b) \<and> bus_frame s t"
  using assms(3,4)
proof (induction bs arbitrary: s r)
  case Nil
  then show ?case by auto
next
  case (Cons b bs)
  let ?rec = "msc_host_reset_recovery depth env" and ?w = "replicate 512 (0xFF :: u8)"
  obtain u r1 where u: "scsi_cmd_write10 ?rec env p ?w b 1 512 s = Ret ESP_OK u"
    "on_ram env 512 p d r0 u r1" "idle 512 r1" "ram_blocks r1 = (ram_blocks r)(b := ?w)" "bus_frame s u"
    using ram_writes [OF env Cons.prems(1) ep Cons.prems(2), of 1 512 ?w ?rec b] by auto
  from Cons.IH [OF u(2,3)] obtain t r' where t: "erase_blocks depth env p bs u = Ret () t" "on_ram env 512 p d r0 t r'"
    "idle 512 r'" "ram_blocks r' = (\<lambda>c. if c \<in> set bs then ?w else ram_blocks r1 c)" "bus_frame u t" by blast
  have "erase_blocks depth env p (b # bs) s = Ret () t" using u(1) t(1) by (simp add: bind_run)
  moreover have "bus_frame s t" using u(5) t(5) bus_frame_trans by blast
  moreover have "ram_blocks r' = (\<lambda>c. if c \<in> set (b # bs) then ?w else ram_blocks r c)" using t(4) u(4) by auto
  ultimately show ?case using t(2,3) by blast
qed

lemma erase_storage_ok:
  assumes "carries env (config d) 512 (handle d) r0" and "two_endpoints (config d)"
    and "on_ram env 512 p d r0 s r" and "idle 512 r"
  shows "\<exists>t r'. erase_storage depth env p s = Ret () t \<and> on_ram env 512 p d r0 t r' \<and> idle 512 r' \<and>
    ram_blocks r' = (\<lambda>b. if b < 129 then replicate 512 0xFF else ram_blocks r b) \<and> bus_frame s t"
proof -
  have blocks: "b \<in> set (map of_nat [0..<DISK_BLOCK_NUM]) \<longleftrightarrow> b < 129" for b :: u32
  proof
    assume "b < 129"
    then have "of_nat (unat b) \<in> set (map of_nat [0..<DISK_BLOCK_NUM] :: u32 list)"
      unfolding set_map by (intro imageI) (simp add: word_less_nat_alt del: upt_Suc)
    then show "b \<in> set (map of_nat [0..<DISK_BLOCK_NUM])" by (simp del: set_map upt_Suc)
  qed (auto simp: word_less_nat_alt unat_of_nat simp del: upt_Suc)
  show ?thesis unfolding erase_storage_def using erase_ok [OF assms, of depth "map of_nat [0..<DISK_BLOCK_NUM]"] by (simp only: blocks)
qed

text \<open>What is left of a driver with one device and one volume when both are taken away again.\<close>

lemma teardown_ok:
  assumes det: "detach_answers env" "flush_completes env" and ok: "dev_ok p s" and v: "v \<noteq> NULL" "vfss s v = Some w" "vfs_base_path w = Some (c, path)"
    and drv: "s_msc_driver s = Some drv" "\<not> end_client_event_handling drv" "devices_tailq drv = [p]"
  shows "\<exists>t. msc_teardown env p v s = Ret () t \<and> s_msc_driver t = None \<and> devs t = (devs s)(p := None) \<and>
    vfss t = (vfss s)(v := None) \<and> (\<forall>h. submits h (hist t) = submits h (hist s))"
proof -
  have "\<exists>t. msc_host_vfs_unregister env v s = Ret ESP_OK t \<and> devs t = devs s \<and> xfers t = xfers s \<and> s_msc_driver t = Some drv \<and>
      vfss t = (vfss s)(v := None) \<and> (\<forall>h. submits h (hist t) = submits h (hist s))"
    using unregister_run [OF v(2,1,3), of env] drv(1) by (simp add: submits_def)
  then obtain s1 where s1: "msc_host_vfs_unregister env v s = Ret ESP_OK s1" "devs s1 = devs s" "xfers s1 = xfers s"
    "s_msc_driver s1 = Some drv" "vfss s1 = (vfss s)(v := None)" "\<forall>h. submits h (hist s1) = submits h (hist s)" by blast
  obtain d x where "transfer_at s p d x" using ok by (rule dev_okE)
  with s1 have at: "transfer_at s1 p d x" by (simp add: transfer_at_def)
  let ?drv = "drv\<lparr>devices_tailq := []\<rparr>"
  have "\<exists>t. msc_host_uninstall_device env p s1 = Ret ESP_OK t \<and> devs t = (devs s1)(p := None) \<and>
      s_msc_driver t = Some ?drv \<and> vfss t = vfss s1 \<and> (\<forall>h. submits h (hist t) = submits h (hist s1))"
    using uninstall_device_ok [OF at s1(4), of env] drv(3) det(1) by (simp add: detach_answers_def submits_def)
  then obtain s2 where s2: "msc_host_uninstall_device env p s1 = Ret ESP_OK s2" "devs s2 = (devs s1)(p := None)"
    "s_msc_driver s2 = Some ?drv" "vfss s2 = vfss s1" "\<forall>h. submits h (hist s2) = submits h (hist s1)" by blast
  have "\<exists>t. msc_host_uninstall env s2 = Ret ESP_OK t \<and> devs t = devs s2 \<and>
      s_msc_driver t = None \<and> vfss t = vfss s2 \<and> (\<forall>h. submits h (hist t) = submits h (hist s2))"
    using uninstall_run [OF s2(3), of env] drv(2) det
    by (cases "event_handling_started drv") (simp_all add: detach_answers_def submits_def)
  then obtain s3 where s3: "msc_host_uninstall env s2 = Ret ESP_OK s3" "devs s3 = devs s2"
    "s_msc_driver s3 = None" "vfss s3 = vfss s2" "\<forall>h. submits h (hist s3) = submits h (hist s2)" by blast
  have "msc_teardown env p v s = Ret () s3"
    using s1(1) s2(1) s3(1) by (simp add: msc_teardown_def msc_test_deinit_def msc_test_uninstall_device_def bind_run then_do_def)
  with s1 s2 s3 show ?thesis by (intro exI [of _ s3]) simp
qed

lemma no_background_task_2_ok:
  assumes "start_answers env" and "detach_answers env" and "flush_completes env"
    and "cb \<noteq> NULL" "next_ptr s = p" "p \<noteq> NULL" "s_msc_driver s = None"
  shows "\<exists>t. no_background_task_2 env cb s = Ret () t \<and> s_msc_driver t = None \<and> devs t = devs s"
proof -
  let ?cfg = "\<lparr>create_backround_task = False, task_priority = 0, stack_size = 0, core_id = 0, cb_callback = cb, cb_callback_arg = NULL\<rparr>"
  have "config_ok (Some ?cfg)" using assms(4) by (simp add: config_ok_def)
  from install_ok [OF assms(1) this assms(7,5,6)] obtain client t where t: "msc_host_install env (Some ?cfg) s = Ret ESP_OK t"
    "s_msc_driver t = Some (fresh_driver ?cfg client (Suc p))" "devs t = devs s" by fastforce
  have "msc_host_uninstall env t = Ret ESP_OK u \<Longrightarrow> ?thesis" if "s_msc_driver u = None" "devs u = devs t" for u
    using that t(1,3) by (intro exI [of _ u]) (simp add: no_background_task_2_def msc_test_deinit_def bind_run then_do_def)
  from this [OF _ _ uninstall_run [OF t(2)]] assms(2,3) show ?thesis by (simp add: fresh_driver_def detach_answers_def)
qed

lemma sectors_test_ok:
  assumes env: "carries env cfg 512 h r0" and ep: "two_endpoints cfg" and start: "start_answers env"
    and at: "\<And>drv. client_handle drv \<noteq> NULL \<Longrightarrow> attaches env drv a h cfg"
    and fs: "fatfs_answers env (length (s_disks s))" and det: "detach_answers env"
    and ptrs: "cb \<noteq> NULL" "vfs_handle \<noteq> NULL" "next_ptr s = p" "p \<noteq> NULL" "\<forall>q\<ge>p. vfss s q = None"
    and s: "s_msc_driver s = None" and r: "r = ram_after cfg 512 r0 (submits h (hist s))" "idle 512 r"
  shows "\<exists>t. sectors_test background depth env cb vfs_handle a s = Ret () t \<and> s_msc_driver t = None \<and>
    devs t (Suc (Suc p)) = None \<and> vfss t = vfss s \<and>
    ram_blocks (ram_after cfg 512 r0 (submits h (hist t))) = (ram_blocks r)(10 := replicate 512 0x55)"
proof -
  let ?cfg = "test_msc_config background cb" and ?p = "Suc (Suc p)"
  have ok: "config_ok (Some ?cfg)" using ptrs by (simp add: config_ok_def test_msc_config_def)
  have "\<exists>client t. client \<noteq> NULL \<and> msc_host_install env (Some ?cfg) s = Ret ESP_OK t \<and> next_ptr t = ?p \<and>
      s_msc_driver t = Some (fresh_driver ?cfg client (Suc p)) \<and> vfss t = vfss s \<and> s_disks t = s_disks s \<and>
      submits h (hist t) = submits h (hist s)"
    using install_ok [OF start ok s ptrs(3,4)] by (auto simp: submits_def)
  then obtain client s1 where i: "client \<noteq> NULL" "msc_host_install env (Some ?cfg) s = Ret ESP_OK s1" "next_ptr s1 = ?p"
    "s_msc_driver s1 = Some (fresh_driver ?cfg client (Suc p))" "vfss s1 = vfss s" "s_disks s1 = s_disks s"
    "submits h (hist s1) = submits h (hist s)" by blast
  let ?drv = "fresh_driver ?cfg client (Suc p)"
  have "attaches env ?drv a h cfg" by (rule at) (simp add: fresh_driver_def i(1))
  then obtain s2 d r1 where d: "msc_host_install_device depth env a s1 = Ret (ESP_OK, Some ?p) s2" "devs s2 ?p = Some d"
    "config d = cfg" "handle d = h" "s_msc_driver s2 = Some (?drv\<lparr>devices_tailq := devices_tailq ?drv @ [?p]\<rparr>)" "dev_ok ?p s2"
    "?p < next_ptr s2" "s_disks s2 = s_disks s" "vfss s2 = vfss s" "on_ram env 512 ?p d r0 s2 r1" "idle 512 r1" "ram_blocks r1 = ram_blocks r"
    using attach_holds [OF _ env ep i(4,3) _ _ r(2), of a depth] i(5,6,7) r(1) by auto
  let ?v = "next_ptr s2"
  have v: "?v \<noteq> NULL" "vfss s2 ?v = None" using d(7,9) ptrs by simp_all
  obtain s3 copy pdrv where m: "msc_host_vfs_register env ?p (Some ''/usb'') (Some test_mount_config) vfs_handle s2 = Ret (ESP_OK, Some ?v) s3"
    "devs s3 = devs s2" "xfers s3 = xfers s2" "s_msc_driver s3 = s_msc_driver s2" "?v < next_ptr s3"
    "\<forall>g. submits g (hist s3) = submits g (hist s2)"
    "vfss s3 = (vfss s2)(?v \<mapsto> \<lparr>vfs_drive = drive_name pdrv, vfs_base_path = Some (copy, ''/usb''), vfs_pdrv = pdrv\<rparr>)"
    using mount_ok [of env s2 ?p d vfs_handle "''/usb''" test_mount_config] fs d v ptrs(2) by auto
  have "dev_ok ?p s3" using d(6) m(2-5) by (auto simp: dev_ok_def transfer_at_def)
  with d(10) m have "on_ram env 512 ?p d r0 s3 r1" by (simp add: on_ram_def)
  then obtain s4 r2 where w: "write_read_sectors depth env ?p s3 = Ret () s4" "on_ram env 512 ?p d r0 s4 r2"
    "ram_blocks r2 = (ram_blocks r)(10 := replicate 512 0x55)" "bus_frame s3 s4"
    using sectors_pass [of env d r0 ?p s3 r1 depth] env ep d(3,4,11,12) by auto
  have drv: "s_msc_driver s4 = Some (?drv\<lparr>devices_tailq := [?p]\<rparr>)" "vfss s4 = vfss s3"
    using w(4) m(4) d(5) by (simp_all add: bus_frame_def fresh_driver_def)
  have "flush_completes env" "dev_ok ?p s4" using env w(2) by (simp_all add: carries_def answers_def host_ok_def on_ram_def)
  note down = teardown_ok [OF det this v(1) _ _ drv(1), of _ copy "''/usb''"]
  obtain t where t: "msc_teardown env ?p ?v s4 = Ret () t" "s_msc_driver t = None" "devs t = (devs s4)(?p := None)"
    "vfss t = (vfss s4)(?v := None)" "\<forall>h. submits h (hist t) = submits h (hist s4)"
    using down drv(2) m(7) by (auto simp: fresh_driver_def)
  have "sectors_test background depth env cb vfs_handle a s = Ret () t"
    using i(2) d(1) m(1) w(1) t(1)
    by (simp add: sectors_test_def msc_setup_def msc_test_wait_and_install_device_def bind_run then_do_def)
  moreover have "vfss t = vfss s" using t(4) drv(2) m(7) v(2) d(9) by (auto simp: fun_eq_iff)
  moreover have "ram_after cfg 512 r0 (submits h (hist t)) = r2" using w(2) t(5) d(3,4) by (simp add: on_ram_def)
  ultimately show ?thesis using t(2,3) w(3) by (intro exI [of _ t]) simp
qed

end
