(* ===== verification/Usb_Races.thy ===== *)
theory Usb_Races imports Usb_Lifecycle begin

text \<open>
  The race between the main loop and the event task of the C driver. \<open>firmware_step\<close> runs the methods of
  \<open>UsbMassStorage\<close> one after the other; but the object is a global that two tasks on two cores reach without a
  lock. Here a method is the list of its accesses in the order of the source: each load or store of a field
  and each call of the driver is one step, and the steps of the tasks interleave in every way.
\<close>

section \<open>The accesses\<close>

datatype op =
    Open | Open_Retries | Open_Addr | Install u8 | Retry
  | Set_Handle ptr | Set_Vfs ptr | Set_Pending int | Set_Retries int | Set_Size u32 | Set_Count u32 | Set_Since "nat option"
  | Capacity | Read_Capacity | Read_Capacity_Of ptr
  | Watch | Watch_Pending | Watch_Since
  | Unmount | Unregister | Clear_Vfs | Close | Uninstall | Clear_Handle

type_synonym shared = "sys \<times> usb_mass_storage"

definition on_sys :: "(sys, 'a) prog \<Rightarrow> (shared, 'a) prog" where
  "on_sys m = (\<lambda>(s, u). case m s of Ret a t \<Rightarrow> Ret a (t, u) | Fault f \<Rightarrow> Fault f)"

definition store :: "(usb_mass_storage \<Rightarrow> usb_mass_storage) \<Rightarrow> (shared, op list) prog" where
  "store f = then_do (modify (\<lambda>(s, u). (s, f u))) (return [])"

definition load :: "(usb_mass_storage \<Rightarrow> 'a) \<Rightarrow> ('a \<Rightarrow> (shared, 'b) prog) \<Rightarrow> (shared, 'b) prog" where
  "load f k = bind (gets (\<lambda>(s, u). f u)) k"

text \<open>
  One access, and the accesses it leads to before the rest of its task goes on. \<open>no_device_since\<close> is the main
  loop's own, so the watchdog is one step from its load on. The mount of a debugging build is compiled away.
\<close>

primrec access :: "nat \<Rightarrow> env \<Rightarrow> (event list \<Rightarrow> nat) \<Rightarrow> bool \<Rightarrow> op \<Rightarrow> (shared, op list) prog" where
  "access depth env clock tps Open = load pending_addr (\<lambda>a. return (if a < 0 then [] else [Open_Retries]))"
| "access depth env clock tps Open_Retries = load retries_left (\<lambda>n. return (if n \<le> 0 then [] else [Open_Addr]))"
| "access depth env clock tps Open_Addr = load pending_addr (\<lambda>a. return [Install (of_int a)])"
| "access depth env clock tps (Install a) = bind (on_sys (msc_host_install_device depth env a)) (\<lambda>(ret, hdl).
     return (if ret = ESP_OK then [Set_Handle (case hdl of None \<Rightarrow> NULL | Some p \<Rightarrow> p), Set_Pending (- 1), Set_Retries 0, Capacity]
       else if ret = ESP_ERR_INVALID_STATE then [Retry] else [Set_Pending (- 1), Set_Retries 0]))"
| "access depth env clock tps Retry = store (\<lambda>u. u\<lparr>retries_left := retries_left u - 1\<rparr>)"
| "access depth env clock tps (Set_Handle p) = store (\<lambda>u. u\<lparr>ums_handle := p\<rparr>)"
| "access depth env clock tps (Set_Vfs p) = store (\<lambda>u. u\<lparr>ums_vfs := p\<rparr>)"
| "access depth env clock tps (Set_Pending a) = store (\<lambda>u. u\<lparr>pending_addr := a\<rparr>)"
| "access depth env clock tps (Set_Retries n) = store (\<lambda>u. u\<lparr>retries_left := n\<rparr>)"
| "access depth env clock tps (Set_Size n) = store (\<lambda>u. u\<lparr>ums_block_size := n\<rparr>)"
| "access depth env clock tps (Set_Count n) = store (\<lambda>u. u\<lparr>ums_block_count := n\<rparr>)"
| "access depth env clock tps (Set_Since t) = store (\<lambda>u. u\<lparr>no_device_since := t\<rparr>)"
| "access depth env clock tps Capacity = load ums_handle (\<lambda>h. return (if h = NULL then [] else [Read_Capacity]))"
| "access depth env clock tps Read_Capacity = load ums_handle (\<lambda>h. return [Read_Capacity_Of h])"
| "access depth env clock tps (Read_Capacity_Of h) =
     bind (on_sys (scsi_cmd_read_capacity (msc_host_reset_recovery depth env) env h 0 0))
       (\<lambda>(err, bs, bc). return (if err \<noteq> ESP_OK then [] else [Set_Count bc, Set_Size bs]))"
| "access depth env clock tps Watch = load ums_handle (\<lambda>h. return [if h = NULL then Watch_Pending else Set_Since None])"
| "access depth env clock tps Watch_Pending = load pending_addr (\<lambda>a. return [if a < 0 then Watch_Since else Set_Since None])"
| "access depth env clock tps Watch_Since = load no_device_since (\<lambda>since. bind (on_sys (gets (\<lambda>s. clock (hist s)))) (\<lambda>now.
     case since of None \<Rightarrow> store (\<lambda>u. u\<lparr>no_device_since := Some now\<rparr>)
     | Some since \<Rightarrow>
         if 2 \<le> (now - since) div 1000
         then then_do (on_sys (power_cycle_usb tps)) (bind (on_sys (gets (\<lambda>s. clock (hist s)))) (\<lambda>now.
           store (\<lambda>u. u\<lparr>no_device_since := Some now\<rparr>)))
         else return []))"
| "access depth env clock tps Unmount = load ums_vfs (\<lambda>v. return (if v = NULL then [] else [Unregister, Clear_Vfs]))"
| "access depth env clock tps Unregister = load ums_vfs (\<lambda>v. then_do (on_sys (msc_host_vfs_unregister env v)) (return []))"
| "access depth env clock tps Clear_Vfs = store (\<lambda>u. u\<lparr>ums_vfs := NULL\<rparr>)"
| "access depth env clock tps Close = load ums_handle (\<lambda>h. return (if h = NULL then [] else [Uninstall, Clear_Handle]))"
| "access depth env clock tps Uninstall = load ums_handle (\<lambda>h. then_do (on_sys (msc_host_uninstall_device env h)) (return []))"
| "access depth env clock tps Clear_Handle = store (\<lambda>u. u\<lparr>ums_handle := NULL\<rparr>)"

text \<open>What a poll does after its events, and what the callback does with an event.\<close>

definition poll_ops :: "op list" where
  "poll_ops = [Open, Watch]"

primrec raw_ops :: "msc_host_event \<Rightarrow> op list" where
  "raw_ops (MSC_DEVICE_CONNECTED a) = [Set_Pending (int (unat a)), Set_Retries RETRY_COUNT, Set_Handle NULL, Set_Vfs NULL,
     Set_Size 0, Set_Count 0]"
| "raw_ops (MSC_DEVICE_DISCONNECTED p) = [Unmount, Close, Set_Pending (- 1), Set_Retries 0, Set_Size 0, Set_Count 0]"

section \<open>Uninterrupted, they are the methods\<close>

inductive alone :: "nat \<Rightarrow> env \<Rightarrow> (event list \<Rightarrow> nat) \<Rightarrow> bool \<Rightarrow> op list \<Rightarrow> shared \<Rightarrow> (unit, shared) outcome \<Rightarrow> bool"
  for depth env clock tps where
  al_done: "alone depth env clock tps [] x (Ret () x)"
| al_step: "access depth env clock tps a x = Ret new y \<Longrightarrow> alone depth env clock tps (new @ ops) y r \<Longrightarrow>
    alone depth env clock tps (a # ops) x r"
| al_fault: "access depth env clock tps a x = Fault f \<Longrightarrow> alone depth env clock tps (a # ops) x (Fault f)"

inductive_cases alone_NilE: "alone depth env clock tps [] x r"
inductive_cases alone_ConsE: "alone depth env clock tps (a # ops) x r"

lemma alone_simps [simp]:
  "alone depth env clock tps [] x r \<longleftrightarrow> r = Ret () x"
  "alone depth env clock tps (a # ops) x r \<longleftrightarrow> (case access depth env clock tps a x of
     Ret new y \<Rightarrow> alone depth env clock tps (new @ ops) y r | Fault f \<Rightarrow> r = Fault f)"
  by (auto intro: alone.intros elim: alone_NilE alone_ConsE split: outcome.splits)

lemma alone_unique: "alone depth env clock tps ops x r \<Longrightarrow> alone depth env clock tps ops x q \<Longrightarrow> q = r"
  by (induction arbitrary: q rule: alone.induct) simp_all

lemma alone_append:
  "alone depth env clock tps xs x r \<Longrightarrow>
    alone depth env clock tps (xs @ ys) x q \<longleftrightarrow> (case r of Ret _ y \<Rightarrow> alone depth env clock tps ys y q | Fault f \<Rightarrow> q = Fault f)"
  by (induction rule: alone.induct) simp_all

definition as_shared :: "(usb_mass_storage \<Rightarrow> (sys, usb_mass_storage) prog) \<Rightarrow> shared \<Rightarrow> (unit, shared) outcome" where
  "as_shared m = (\<lambda>(s, u). case m u s of Ret u' t \<Rightarrow> Ret () (t, u') | Fault f \<Rightarrow> Fault f)"

lemma on_sys_run [simp]: "on_sys m (s, u) = (case m s of Ret a t \<Rightarrow> Ret a (t, u) | Fault f \<Rightarrow> Fault f)"
  by (simp add: on_sys_def)

lemma store_run [simp]: "store f (s, u) = Ret [] (s, f u)"
  by (simp add: store_def then_do_def)

lemma load_run [simp]: "load f k (s, u) = k (f u) (s, u)"
  by (simp add: load_def)

lemma watch_alone: "alone depth env clock tps [Watch] (s, u) (as_shared (watchdog clock tps) (s, u))"
proof -
  consider "ums_handle u \<noteq> NULL" | "ums_handle u = NULL" "0 \<le> pending_addr u" | "ums_handle u = NULL" "pending_addr u < 0" by linarith
  then show ?thesis
  proof cases
    case 3
    then show ?thesis
      by (cases "no_device_since u") (simp_all add: as_shared_def watchdog_def power_cycle_usb_def bind_run then_do_def)
  qed (simp_all add: as_shared_def watchdog_def bind_run)
qed

lemma unmount_alone: "alone depth env clock tps [Unmount] (s, u) (as_shared (unmount_vfs env) (s, u))"
  by (cases "ums_vfs u = NULL"; cases "msc_host_vfs_unregister env (ums_vfs u) s")
    (simp_all add: as_shared_def unmount_vfs_def bind_run then_do_def)

lemma close_alone: "alone depth env clock tps [Close] (s, u) (as_shared (close_device env) (s, u))"
  by (cases "ums_handle u = NULL"; cases "msc_host_uninstall_device env (ums_handle u) s")
    (simp_all add: as_shared_def close_device_def bind_run then_do_def)

lemma raw_ops_alone: "alone depth env clock tps (raw_ops ev) (s, u) (as_shared (handle_raw_event env ev) (s, u))"
proof (cases ev)
  case (MSC_DEVICE_CONNECTED a)
  then show ?thesis by (simp add: as_shared_def handle_raw_event_def)
next
  case (MSC_DEVICE_DISCONNECTED q)
  have ops: "raw_ops ev = [Unmount] @ ([Close] @ [Set_Pending (- 1), Set_Retries 0, Set_Size 0, Set_Count 0])"
    using MSC_DEVICE_DISCONNECTED by simp
  have stores: "alone depth env clock tps [Set_Pending (- 1), Set_Retries 0, Set_Size 0, Set_Count 0] (t, v)
      (Ret () (t, v\<lparr>pending_addr := - 1, retries_left := 0, ums_block_size := 0, ums_block_count := 0\<rparr>))" for t v
    by simp
  show ?thesis unfolding ops alone_append [OF unmount_alone]
    using MSC_DEVICE_DISCONNECTED stores
    by (auto simp: as_shared_def handle_raw_event_def bind_run alone_append [OF close_alone, simplified as_shared_def]
      simp del: append_Cons append_Nil alone_simps(2) split: outcome.split)
qed

lemma capacity_alone:
  "alone depth env clock tps [Capacity] (s, u) (as_shared (\<lambda>u. bind (bd_refresh_capacity depth env u) (\<lambda>(_, u). return u)) (s, u))"
  by (cases "ums_handle u = NULL"; cases "scsi_cmd_read_capacity (msc_host_reset_recovery depth env) env (ums_handle u) 0 0 s")
    (auto simp: as_shared_def bd_refresh_capacity_def bind_run)

lemma open_alone: "alone depth env clock tps [Open] (s, u) (as_shared (try_open_and_mount depth env) (s, u))"
proof (cases "pending_addr u < 0 \<or> retries_left u \<le> 0")
  case False
  then have active: "pending_addr u < 0 \<longleftrightarrow> False" "retries_left u \<le> 0 \<longleftrightarrow> False" by simp_all
  let ?open = "msc_host_install_device depth env (of_int (pending_addr u)) s"
  have calls: "alone depth env clock tps [Open] (s, u) r \<longleftrightarrow>
      alone depth env clock tps [Install (of_int (pending_addr u))] (s, u) r" for r by (simp add: active)
  show ?thesis
  proof (cases ?open)
    case (Ret a t)
    obtain e hdl where a: "a = (e, hdl)" by fastforce
    let ?p = "case hdl of None \<Rightarrow> NULL | Some p \<Rightarrow> p"
    let ?u = "u\<lparr>pending_addr := - 1, retries_left := 0, ums_handle := ?p\<rparr>"
    have stores: "alone depth env clock tps [Set_Handle ?p, Set_Pending (- 1), Set_Retries 0, Capacity] (t, u) r \<longleftrightarrow>
        alone depth env clock tps [Capacity] (t, ?u) r" for r
    proof -
      have "?u = u\<lparr>ums_handle := ?p, pending_addr := - 1, retries_left := 0\<rparr>" by (cases u) simp
      then show ?thesis by (subst \<open>?u = _\<close>) (simp del: access.simps(13))
    qed
    show ?thesis
    proof (cases "e = ESP_OK")
      case True
      then have "alone depth env clock tps [Open] (s, u) r \<longleftrightarrow> alone depth env clock tps [Capacity] (t, ?u) r" for r
        unfolding calls stores [symmetric] using Ret a by (simp add: bind_run del: access.simps(6,8,9,13))
      with capacity_alone [of depth env clock tps t ?u] Ret a True False show ?thesis
        by (simp add: as_shared_def try_open_and_mount_def bind_run)
    qed (use Ret a False in \<open>simp add: active as_shared_def try_open_and_mount_def bind_run\<close>)
  qed (simp add: active as_shared_def try_open_and_mount_def bind_run)
qed (auto simp: as_shared_def try_open_and_mount_def)

lemma poll_ops_alone:
  "alone depth env clock tps poll_ops (s, u) (as_shared (\<lambda>u. bind (try_open_and_mount depth env u) (watchdog clock tps)) (s, u))"
proof -
  have ops: "poll_ops = [Open] @ [Watch]" by (simp add: poll_ops_def)
  show ?thesis
  proof (cases "try_open_and_mount depth env u s")
    case (Ret v t)
    then show ?thesis unfolding ops alone_append [OF open_alone] using watch_alone [of depth env clock tps t v]
      by (simp add: as_shared_def bind_run del: alone_simps)
  next
    case (Fault f)
    then show ?thesis unfolding ops alone_append [OF open_alone] by (simp add: as_shared_def bind_run)
  qed
qed

section \<open>Interleaved\<close>

record race =
  now :: shared
  main_left :: "op list"
  event_left :: "op list"

text \<open>
  The main loop starts a poll when it has finished one; what the libraries do in the meantime shows only in the
  history. An event arrives when the one before it has been dealt with: \<open>client_event_cb\<close> runs and may
  call the callback. The two tasks take turns in any way.
\<close>

inductive race_step :: "nat \<Rightarrow> env \<Rightarrow> (event list \<Rightarrow> nat) \<Rightarrow> bool \<Rightarrow> race \<Rightarrow> race \<Rightarrow> bool"
  for depth env clock tps where
  rs_poll: "main_left r = [] \<Longrightarrow> now r = (s, u) \<Longrightarrow>
    race_step depth env clock tps r (r\<lparr>now := (s\<lparr>hist := hist s @ es\<rparr>, u), main_left := poll_ops\<rparr>)"
| rs_main: "main_left r = a # ops \<Longrightarrow> access depth env clock tps a (now r) = Ret new x \<Longrightarrow>
    race_step depth env clock tps r (r\<lparr>now := x, main_left := new @ ops\<rparr>)"
| rs_arrive: "event_left r = [] \<Longrightarrow> now r = (s, u) \<Longrightarrow> client_event_cb env ev s = Ret () t \<Longrightarrow>
    race_step depth env clock tps r
      (r\<lparr>now := (t, u), event_left := concat (map raw_ops (callbacks (drop (length (hist s)) (hist t))))\<rparr>)"
| rs_event: "event_left r = a # ops \<Longrightarrow> access depth env clock tps a (now r) = Ret new x \<Longrightarrow>
    race_step depth env clock tps r (r\<lparr>now := x, event_left := new @ ops\<rparr>)"

section \<open>The invariant\<close>

text \<open>
  \<open>clearing\<close>: the event task is on its way to clear the handle for a new connection. \<open>event_order\<close>: what the
  event task still has to do, in an order in which a new address is followed by clearing the handle.
\<close>

fun clearing :: "op list \<Rightarrow> bool" where
  "clearing (Set_Handle p # ops) = (p = NULL)"
| "clearing (Set_Pending a # ops) = clearing ops"
| "clearing (Set_Retries n # ops) = clearing ops"
| "clearing ops = False"

fun event_order :: "op list \<Rightarrow> bool" where
  "event_order [] = True"
| "event_order (Set_Pending a # ops) = ((0 \<le> a \<longrightarrow> clearing ops) \<and> event_order ops)"
| "event_order (Set_Handle p # ops) = (p = NULL \<and> event_order ops)"
| "event_order (Set_Vfs p # ops) = (p = NULL \<and> event_order ops)"
| "event_order (Set_Retries n # ops) = event_order ops"
| "event_order (Set_Size n # ops) = event_order ops"
| "event_order (Set_Count n # ops) = event_order ops"
| "event_order (Unmount # ops) = event_order ops"
| "event_order (Close # ops) = event_order ops"
| "event_order ops = False"

definition event_shape :: "ptr \<Rightarrow> op list \<Rightarrow> bool" where
  "event_shape h es \<longleftrightarrow> event_order es \<or> (\<exists>ops. event_order ops \<and> (es = Clear_Handle # ops \<or> es = Uninstall # Clear_Handle # ops \<and> h \<noteq> NULL))"

definition closing :: "op list \<Rightarrow> bool" where
  "closing es \<longleftrightarrow> (\<exists>ops. es = Clear_Handle # ops)"

text \<open>What the main loop still has to do: only the first access is one with a condition.\<close>

primrec later_op :: "op \<Rightarrow> bool" where
  "later_op Open = False" | "later_op Open_Retries = False" | "later_op Open_Addr = False" | "later_op (Install a) = False"
| "later_op Retry = False" | "later_op (Set_Handle p) = False" | "later_op (Set_Vfs p) = False"
| "later_op (Set_Pending a) = (a < 0)" | "later_op (Set_Retries n) = True" | "later_op (Set_Size n) = True"
| "later_op (Set_Count n) = True" | "later_op (Set_Since t) = True" | "later_op Capacity = True"
| "later_op Read_Capacity = False" | "later_op (Read_Capacity_Of h) = False" | "later_op Watch = True"
| "later_op Watch_Pending = False" | "later_op Watch_Since = False" | "later_op Unmount = False"
| "later_op Unregister = False" | "later_op Clear_Vfs = False" | "later_op Close = False" | "later_op Uninstall = False"
| "later_op Clear_Handle = False"

definition main_shape :: "op list \<Rightarrow> bool" where
  "main_shape ms \<longleftrightarrow> (case ms of [] \<Rightarrow> True | a # ops \<Rightarrow> (\<forall>b\<in>set ops. later_op b) \<and>
     (later_op a \<or> a \<in> {Open, Open_Retries, Open_Addr, Retry, Read_Capacity, Watch_Pending, Watch_Since} \<or>
      (\<exists>b. a = Install b) \<or> (\<exists>h. a = Read_Capacity_Of h) \<or> (\<exists>p b c. a = Set_Handle p \<and> ops = Set_Pending b # c)))"

fun in_opening :: "op list \<Rightarrow> bool" where
  "in_opening (Open_Retries # ops) = True"
| "in_opening (Open_Addr # ops) = True"
| "in_opening (Install a # ops) = True"
| "in_opening (Set_Handle p # ops) = True"
| "in_opening ops = False"

fun about_to_pend :: "op list \<Rightarrow> bool" where
  "about_to_pend (Set_Pending a # ops) = True"
| "about_to_pend ops = False"

text \<open>
  The invariant: the driver's devices are sound; the handle is \<open>NULL\<close> or that of a usable device in the list, unless
  the event task is about to overwrite it; an address waits, or is being opened, only without a handle or with one
  about to be cleared.
\<close>

definition race_inv :: "sys \<Rightarrow> usb_mass_storage \<Rightarrow> op list \<Rightarrow> op list \<Rightarrow> bool" where
  "race_inv s u ms es \<longleftrightarrow> unused_above s \<and> ums_vfs u = NULL \<and>
     (\<exists>drv. driver_ok s drv \<and> (handle_ok s drv (ums_handle u) \<or> clearing es \<or> closing es) \<and>
        (\<forall>p ops. ms = Set_Handle p # ops \<longrightarrow> handle_ok s drv p)) \<and>
     (0 \<le> pending_addr u \<longrightarrow> ums_handle u = NULL \<or> clearing es \<or> about_to_pend ms) \<and>
     (in_opening ms \<longrightarrow> ums_handle u = NULL \<or> clearing es) \<and>
     (\<forall>h ops. ms = Read_Capacity_Of h # ops \<longrightarrow> ums_handle u = h \<or> ums_handle u = NULL) \<and>
     event_shape (ums_handle u) es \<and> main_shape ms"

definition race_ok :: "race \<Rightarrow> bool" where
  "race_ok r \<longleftrightarrow> race_inv (fst (now r)) (snd (now r)) (main_left r) (event_left r)"

lemma clearing_order: "clearing es \<Longrightarrow> event_shape h es \<longleftrightarrow> event_order es"
  by (cases es rule: clearing.cases) (auto simp: event_shape_def)

lemma event_order_append: "event_order xs \<Longrightarrow> event_order ys \<Longrightarrow> event_order (xs @ ys)"
proof (induction xs rule: event_order.induct)
  case (2 a ops)
  have "clearing ops \<Longrightarrow> clearing (ops @ ys)" by (induction ops rule: clearing.induct) simp_all
  with 2 show ?case by auto
qed simp_all

lemma raw_ops_order: "event_order (concat (map raw_ops evs))"
proof (induction evs)
  case (Cons ev evs)
  have "event_order (raw_ops ev)" by (cases ev) simp_all
  with Cons show ?case by (simp add: event_order_append)
qed simp

lemma later_ops:
  assumes "\<forall>b\<in>set ops. later_op b"
  shows "main_shape ops" "\<not> in_opening ops" "ops \<noteq> Set_Handle p # c" "ops \<noteq> Read_Capacity_Of h # c"
  using assms by (cases ops; (cases "hd ops")?; simp add: main_shape_def)+

lemma main_later: "main_shape (a # ops) \<Longrightarrow> \<forall>b\<in>set ops. later_op b"
  by (simp add: main_shape_def)

text \<open>A step that gives way to what comes later keeps the invariant if it keeps what the invariant says of the state.\<close>

lemma race_inv_later:
  assumes "race_inv s u (a # ops) es" and "unused_above t" "driver_ok t drv" "ums_vfs v = NULL"
    and "handle_ok t drv (ums_handle v) \<or> clearing es \<or> closing es"
    and "0 \<le> pending_addr v \<longrightarrow> ums_handle v = NULL \<or> clearing es" and "ums_handle v = ums_handle u"
    and "\<forall>b\<in>set new. later_op b"
  shows "race_inv t v (new @ ops) es"
proof -
  have shape: "main_shape (a # ops)" "event_shape (ums_handle v) es" using assms(1,7) by (auto simp: race_inv_def)
  have "\<forall>b\<in>set (new @ ops). later_op b" using main_later [OF shape(1)] assms(8) by auto
  from later_ops [OF this] shape(2) assms(2-6) show ?thesis by (auto simp: race_inv_def)
qed

lemma race_inv_drv:
  assumes "race_inv s u ms es"
  obtains drv where "driver_ok s drv" "handle_ok s drv (ums_handle u) \<or> clearing es \<or> closing es" "unused_above s" "ums_vfs u = NULL"
    "\<forall>p ops. ms = Set_Handle p # ops \<longrightarrow> handle_ok s drv p"
  using assms unfolding race_inv_def by blast

text \<open>The calls of the driver a poll makes.\<close>

lemma install_keeps_race:
  assumes inv: "race_inv s u (Install a # ops) es" and env: "parser_advances env" "host_ok env"
    and run: "access depth env clock tps (Install a) (s, u) = Ret new x"
  shows "race_inv (fst x) (snd x) (new @ ops) es"
proof -
  obtain drv where drv: "driver_ok s drv" "unused_above s" "ums_vfs u = NULL" using inv by (rule race_inv_drv)
  have idle: "ums_handle u = NULL \<or> clearing es" using inv by (simp add: race_inv_def)
  obtain e hdl t where t: "msc_host_install_device depth env a s = Ret (e, hdl) t" and x: "x = (t, u)"
    using run by (auto simp: bind_run split: outcome.splits)
  note cases = open_device_cases [OF env drv(2,1), of depth a, unfolded t outcome.case prod.case]
  have shape: "main_shape (Install a # ops)" "event_shape (ums_handle u) es" using inv by (auto simp: race_inv_def)
  show ?thesis
  proof (cases "e = ESP_OK")
    case True
    then have new: "new = [Set_Handle (next_ptr s), Set_Pending (- 1), Set_Retries 0, Capacity]" using run cases by (simp add: bind_run t)
    let ?drv = "drv\<lparr>devices_tailq := devices_tailq drv @ [next_ptr s]\<rparr>"
    have "driver_ok t ?drv" "handle_ok t ?drv (next_ptr s)" "unused_above t" using cases True by auto
    then show ?thesis using idle shape drv(3) by (auto simp: race_inv_def x new main_shape_def)
  next
    case False
    then have left: "driver_ok t drv" "unused_above t" using cases by auto
    have h: "handle_ok t drv (ums_handle u) \<or> clearing es \<or> closing es" using idle by auto
    show ?thesis
    proof (cases "e = ESP_ERR_INVALID_STATE")
      case True
      then have new: "new = [Retry]" using run False by (simp add: bind_run t)
      show ?thesis using left h idle shape drv(3) by (auto simp: race_inv_def x new main_shape_def)
    next
      case fatal: False
      then have new: "new = [Set_Pending (- 1), Set_Retries 0]" using run False by (simp add: bind_run t)
      show ?thesis unfolding new x fst_conv snd_conv
        by (rule race_inv_later [OF inv left(2,1) drv(3) h]) (use idle in auto)
    qed
  qed
qed

lemma capacity_keeps_race:
  assumes inv: "race_inv s u (Read_Capacity_Of h # ops) es" and env: "host_ok env"
    and run: "access depth env clock tps (Read_Capacity_Of h) (s, u) = Ret new x"
  shows "race_inv (fst x) (snd x) (new @ ops) es"
proof -
  let ?cmd = "scsi_cmd_read_capacity (recovery_at depth env) env"
  obtain drv where drv: "driver_ok s drv" "handle_ok s drv (ums_handle u) \<or> clearing es \<or> closing es" "unused_above s" "ums_vfs u = NULL"
    using inv by (rule race_inv_drv)
  obtain e bs bc t where t: "?cmd h 0 0 s = Ret (e, bs, bc) t" and x: "x = (t, u)"
    and new: "new = (if e \<noteq> ESP_OK then [] else [Set_Count bc, Set_Size bs])"
    using run by (auto simp: bind_run split: outcome.splits)
  have frame: "bus_frame s t" using keepsD [OF command_frames(2) t] .
  have h: "ums_handle u = h \<or> ums_handle u = NULL" using inv by (simp add: race_inv_def)
  have kept: "handle_ok t drv (ums_handle u) \<or> clearing es \<or> closing es"
  proof (cases "handle_ok s drv (ums_handle u) \<and> ums_handle u \<noteq> NULL")
    case True
    then have "usable env h s" using h env by (auto simp: handle_ok_def usable_def)
    from runs_at [OF command_safety(2) this, of depth 0 0] t have "dev_ok h t" by (simp add: usable_def)
    then show ?thesis using True h by (auto simp: handle_ok_def)
  qed (use drv(2) in auto)
  have "0 \<le> pending_addr u \<longrightarrow> ums_handle u = NULL \<or> clearing es" using inv by (auto simp: race_inv_def)
  then show ?thesis unfolding x fst_conv snd_conv
    by (intro race_inv_later [OF inv _ _ drv(4) kept]) (use driver_ok_frame [OF frame] drv in \<open>auto simp: new\<close>)
qed

lemma race_inv_next:
  assumes "race_inv s u (a # ops) es" and "\<not> about_to_pend (a # ops)"
    and "b \<in> {Open_Retries, Open_Addr, Read_Capacity, Watch_Pending, Watch_Since} \<or> (\<exists>k. b = Install k) \<or> b = Read_Capacity_Of (ums_handle u)"
    and "in_opening (b # ops) \<longrightarrow> ums_handle u = NULL \<or> clearing es"
  shows "race_inv s u (b # ops) es"
proof -
  have "\<forall>b\<in>set ops. later_op b" using assms(1) main_later by (auto simp: race_inv_def)
  with assms(3) have shape: "main_shape (b # ops)" by (auto simp: main_shape_def)
  obtain drv where drv: "driver_ok s drv" "handle_ok s drv (ums_handle u) \<or> clearing es \<or> closing es" "unused_above s" "ums_vfs u = NULL"
    using assms(1) by (rule race_inv_drv)
  have "0 \<le> pending_addr u \<longrightarrow> ums_handle u = NULL \<or> clearing es" "event_shape (ums_handle u) es"
    using assms(1,2) by (simp_all add: race_inv_def)
  moreover have "b \<noteq> Set_Handle p" "b = Read_Capacity_Of h \<Longrightarrow> ums_handle u = h" for p h using assms(3) by auto
  ultimately show ?thesis using drv shape assms(4) unfolding race_inv_def by (intro conjI exI [of _ drv]) (simp_all, blast)
qed

lemma look_keeps:
  assumes inv: "race_inv s u (a # ops) es" and look: "a \<in> {Open, Open_Retries, Open_Addr, Capacity, Read_Capacity, Watch, Watch_Pending}"
    and run: "access depth env clock tps a (s, u) = Ret new x"
  shows "race_inv (fst x) (snd x) (new @ ops) es"
proof -
  have quiet: "\<not> about_to_pend (a # ops)" using look by auto
  have awaits: "a \<in> {Open_Retries, Open_Addr} \<or> a = Open \<and> 0 \<le> pending_addr u \<Longrightarrow> ums_handle u = NULL \<or> clearing es"
    using inv quiet by (auto simp: race_inv_def)
  note next_op = race_inv_next [OF inv quiet]
  obtain drv where drv: "driver_ok s drv" "handle_ok s drv (ums_handle u) \<or> clearing es \<or> closing es" "unused_above s" "ums_vfs u = NULL"
    using inv by (rule race_inv_drv)
  have "0 \<le> pending_addr u \<longrightarrow> ums_handle u = NULL \<or> clearing es" using inv quiet by (auto simp: race_inv_def)
  from race_inv_later [OF inv drv(3,1,4,2) this refl] have later: "\<forall>b\<in>set bs. later_op b \<Longrightarrow> race_inv s u (bs @ ops) es" for bs .
  have x: "x = (s, u)" using look run by auto
  have "new = [] \<or> new = [Set_Since None] \<or> (\<exists>b. new = [b] \<and> race_inv s u (b # ops) es)"
    using look run awaits by (auto intro!: next_op split: if_split_asm)
  then show ?thesis using later [of "[]"] later [of "[Set_Since None]"] by (auto simp: x)
qed

lemma main_step_keeps:
  assumes inv: "race_inv s u (a # ops) es" and env: "parser_advances env" "host_ok env"
    and run: "access depth env clock tps a (s, u) = Ret new x"
  shows "race_inv (fst x) (snd x) (new @ ops) es"
proof -
  obtain drv where drv: "driver_ok s drv" "handle_ok s drv (ums_handle u) \<or> clearing es \<or> closing es" "unused_above s" "ums_vfs u = NULL"
    using inv by (rule race_inv_drv)
  have shape: "main_shape (a # ops)" "event_shape (ums_handle u) es" using inv by (auto simp: race_inv_def)
  have pend: "0 \<le> pending_addr u \<longrightarrow> ums_handle u = NULL \<or> clearing es \<or> about_to_pend (a # ops)" using inv by (simp add: race_inv_def)
  consider (install) b where "a = Install b" | (capacity) h where "a = Read_Capacity_Of h" | (handle) p where "a = Set_Handle p"
    | (watch) "a = Watch_Since"
    | (look) "a \<in> {Open, Open_Retries, Open_Addr, Capacity, Read_Capacity, Watch, Watch_Pending}"
    | (put) "(\<exists>k < 0. a = Set_Pending k) \<or> (\<exists>n. a = Set_Retries n) \<or> (\<exists>n. a = Set_Size n) \<or> (\<exists>n. a = Set_Count n) \<or> (\<exists>n. a = Set_Since n) \<or> a = Retry"
    using shape(1) by (cases a) (auto simp: main_shape_def)
  then show ?thesis
  proof cases
    case (install b)
    with install_keeps_race [OF _ env] inv run show ?thesis by blast
  next
    case (capacity h)
    with capacity_keeps_race [OF _ env(2)] inv run show ?thesis by blast
  next
    case (handle p)
    then obtain b c where ops: "ops = Set_Pending b # c" using shape(1) by (auto simp: main_shape_def)
    have p: "\<exists>drv. driver_ok s drv \<and> handle_ok s drv p" and idle: "ums_handle u = NULL \<or> clearing es"
      using inv handle by (auto simp: race_inv_def)
    have "event_shape p es" using shape(2) idle
      by (cases "clearing es") (auto simp: clearing_order event_shape_def)
    with p drv ops shape(1) handle run show ?thesis by (auto simp: race_inv_def main_shape_def)
  next
    case watch
    then have "unused_above (fst x) \<and> driver_ok (fst x) drv \<and> handle_ok (fst x) drv = handle_ok s drv \<and>
        ums_handle (snd x) = ums_handle u \<and> ums_vfs (snd x) = ums_vfs u \<and> pending_addr (snd x) = pending_addr u \<and> new = []"
      using run drv(1,3) by (auto simp: power_cycle_usb_def bind_run then_do_def fun_eq_iff split: option.splits if_splits)
    then show ?thesis using drv pend watch by (intro race_inv_later [OF inv, of _ drv]) auto
  next
    case look
    with look_keeps [OF inv _ run] show ?thesis by blast
  next
    case put
    then have "fst x = s \<and> ums_handle (snd x) = ums_handle u \<and> ums_vfs (snd x) = ums_vfs u \<and> new = [] \<and>
        (pending_addr (snd x) = pending_addr u \<and> \<not> about_to_pend (a # ops) \<or> pending_addr (snd x) < 0)"
      using run by auto
    then show ?thesis using drv pend by (intro race_inv_later [OF inv, of _ drv]) auto
  qed
qed

text \<open>A store of the event task, and the end of the event.\<close>

lemma race_inv_event:
  assumes inv: "race_inv s u ms (a # es)" and order: "event_order es" and vfs: "ums_vfs v = NULL"
    and handle: "ums_handle v = NULL \<or> ums_handle v = ums_handle u \<and> (clearing (a # es) \<longrightarrow> clearing es) \<and> a \<noteq> Clear_Handle"
    and pend: "pending_addr v = pending_addr u \<or> pending_addr v < 0 \<or> clearing es"
  shows "race_inv s v ms es"
proof -
  obtain drv where drv: "driver_ok s drv" "handle_ok s drv (ums_handle u) \<or> clearing (a # es) \<or> closing (a # es)"
    "unused_above s" "\<forall>p ops. ms = Set_Handle p # ops \<longrightarrow> handle_ok s drv p"
    using inv by (rule race_inv_drv)
  have "handle_ok s drv (ums_handle v) \<or> clearing es" using drv(2) handle by (auto simp: closing_def)
  moreover have "0 \<le> pending_addr v \<longrightarrow> ums_handle v = NULL \<or> clearing es \<or> about_to_pend ms"
    "in_opening ms \<longrightarrow> ums_handle v = NULL \<or> clearing es"
    "\<forall>h ops. ms = Read_Capacity_Of h # ops \<longrightarrow> ums_handle v = h \<or> ums_handle v = NULL" "main_shape ms"
    using inv handle pend by (auto simp: race_inv_def)
  moreover have "event_shape (ums_handle v) es" using order by (simp add: event_shape_def)
  ultimately show ?thesis using drv vfs unfolding race_inv_def by blast
qed

lemma event_step_keeps:
  assumes inv: "race_inv s u ms (a # es)"
  shows "\<exists>new x. access depth env clock tps a (s, u) = Ret new x \<and> race_inv (fst x) (snd x) ms (new @ es)"
proof -
  obtain drv where drv: "driver_ok s drv" "handle_ok s drv (ums_handle u) \<or> clearing (a # es) \<or> closing (a # es)"
    "unused_above s" "ums_vfs u = NULL" "\<forall>p ops. ms = Set_Handle p # ops \<longrightarrow> handle_ok s drv p"
    using inv by (rule race_inv_drv)
  have shape: "event_shape (ums_handle u) (a # es)" using inv by (simp add: race_inv_def)
  note event = race_inv_event [OF inv]
  consider (uninstall) ops where "a = Uninstall" "es = Clear_Handle # ops" "event_order ops" "ums_handle u \<noteq> NULL"
    | (clear) "a = Clear_Handle" "event_order es" | (close) "a = Close" "event_order es"
    | (other) "event_order es" "a = Unmount \<or> a = Set_Handle NULL \<or> a = Set_Vfs NULL \<or> (\<exists>n. a = Set_Retries n) \<or> (\<exists>n. a = Set_Size n) \<or>
        (\<exists>n. a = Set_Count n) \<or> (\<exists>k. a = Set_Pending k \<and> (0 \<le> k \<longrightarrow> clearing es))"
    using shape by (cases a) (auto simp: event_shape_def)
  then show ?thesis
  proof cases
    case uninstall
    then have h: "ums_handle u \<in> set (devices_tailq drv)" "dev_ok (ums_handle u) s" using drv(2) by (auto simp: closing_def handle_ok_def)
    obtain e t where t: "msc_host_uninstall_device env (ums_handle u) s = Ret e t" "unused_above t"
      "driver_ok t (drv\<lparr>devices_tailq := remove1 (ums_handle u) (devices_tailq drv)\<rparr>)"
      using uninstall_device_keeps [OF drv(3,1) h, of env] by blast
    have "closing es" "event_shape (ums_handle u) es" using uninstall by (auto simp: closing_def event_shape_def)
    moreover have "\<not> in_opening ms" "0 \<le> pending_addr u \<longrightarrow> about_to_pend ms" "main_shape ms"
      "\<forall>h ops. ms = Read_Capacity_Of h # ops \<longrightarrow> ums_handle u = h \<or> ums_handle u = NULL"
      using inv uninstall by (auto simp: race_inv_def)
    moreover from \<open>\<not> in_opening ms\<close> have "ms \<noteq> Set_Handle p # ops" for p ops by auto
    ultimately have "race_inv t u ms es" using t drv(4) unfolding race_inv_def by blast
    then show ?thesis using uninstall t by (simp add: then_do_def bind_run)
  next
    case clear
    then show ?thesis using drv(4) by (auto intro!: event)
  next
    case close
    show ?thesis
    proof (cases "ums_handle u = NULL")
      case True
      then show ?thesis using close drv(4) by (auto intro!: event)
    next
      case False
      have h: "handle_ok s drv (ums_handle u)" using drv(2) close by (auto simp: closing_def)
      have "event_shape (ums_handle u) (Uninstall # Clear_Handle # es)" using close False by (auto simp: event_shape_def)
      then have "race_inv s u ms (Uninstall # Clear_Handle # es)" using inv close h drv unfolding race_inv_def by auto
      then show ?thesis using close False by simp
    qed
  next
    case other
    then have "a = Unmount \<or> (\<exists>v. access depth env clock tps a (s, u) = Ret [] (s, v) \<and> race_inv s v ms es)"
      using drv(4) by (auto intro!: event)
    then show ?thesis using drv(4) other by (auto intro!: event)
  qed
qed

lemma arrive_keeps:
  assumes inv: "race_inv s u ms []" and env: "parser_advances env"
  shows "\<exists>t. client_event_cb env ev s = Ret () t \<and> race_inv t u ms (concat (map raw_ops evs))"
proof -
  obtain drv where drv: "driver_ok s drv" "handle_ok s drv (ums_handle u)" using inv by (auto simp: race_inv_def closing_def)
  then have "s_msc_driver s = Some drv" "list_live s" by (auto simp: driver_ok_def list_live_def)
  from client_event_adds [OF env this, of ev] obtain es where t: "client_event_cb env ev s = Ret () (s\<lparr>hist := hist s @ es\<rparr>)" by blast
  have "race_inv (s\<lparr>hist := hist s @ es\<rparr>) u ms (concat (map raw_ops evs))"
    using inv drv raw_ops_order [of evs] unfolding race_inv_def event_shape_def
    by (auto simp: closing_def)
  with t show ?thesis by blast
qed

lemma race_step_ok:
  assumes "race_step depth env clock tps r q" and ok: "race_ok r" and env: "parser_advances env" "host_ok env"
  shows "race_ok q"
proof -
  have inv: "race_inv s u (main_left r) (event_left r)" if "now r = (s, u)" for s u using ok that by (simp add: race_ok_def)
  show ?thesis
    using assms(1)
  proof cases
    case (rs_poll s u es)
    from inv [OF rs_poll(3)] have "race_inv (s\<lparr>hist := hist s @ es\<rparr>) u poll_ops (event_left r)"
      unfolding race_inv_def by (auto simp: rs_poll(2) poll_ops_def main_shape_def)
    with rs_poll show ?thesis by (simp add: race_ok_def)
  next
    case (rs_main a ops new x)
    obtain s u where x: "now r = (s, u)" by fastforce
    from main_step_keeps [OF _ env] inv [OF x] rs_main(2,3) x rs_main(1) show ?thesis by (simp add: race_ok_def)
  next
    case (rs_arrive s u ev t)
    from arrive_keeps [OF _ env(1), of s u "main_left r" ev] inv [OF rs_arrive(3)] rs_arrive show ?thesis
      by (auto simp: race_ok_def)
  next
    case (rs_event a ops new x)
    obtain s u where x: "now r = (s, u)" by fastforce
    from event_step_keeps [of s u "main_left r" a ops depth env clock tps] inv [OF x] rs_event x show ?thesis
      by (auto simp: race_ok_def)
  qed
qed

definition race_start :: "sys \<Rightarrow> race" where
  "race_start s = \<lparr>now = (s, ums_new), main_left = [], event_left = []\<rparr>"

lemma race_start_ok: "booted s \<Longrightarrow> race_ok (race_start s)"
  by (auto simp: race_ok_def race_start_def race_inv_def booted_def unused_above_def ums_new_def driver_ok_def
      event_shape_def main_shape_def)

lemma race_reachable_ok:
  assumes "(race_step depth env clock tps)\<^sup>*\<^sup>* (race_start s0) r" and "booted s0" and "parser_advances env" and "host_ok env"
  shows "race_ok r"
  using assms(1) by (induction rule: rtranclp_induct) (use race_start_ok race_step_ok assms(2-4) in auto)

text \<open>What the main loop can still run into: a command on a device that was taken out of the list under it.\<close>

lemma main_access_faults:
  assumes inv: "race_inv s u (a # ops) es" and env: "parser_advances env" "host_ok env"
    and run: "access depth env clock tps a (s, u) = Fault f"
  shows "f \<in> setup_faults \<or> (\<exists>h drv. a = Read_Capacity_Of h \<and> s_msc_driver s = Some drv \<and> \<not> handle_ok s drv h \<or> a = Read_Capacity_Of NULL)"
proof -
  obtain drv where drv: "driver_ok s drv" "unused_above s" "ums_vfs u = NULL" using inv by (rule race_inv_drv)
  have shape: "main_shape (a # ops)" using inv by (simp add: race_inv_def)
  consider (install) b where "a = Install b" | (capacity) h where "a = Read_Capacity_Of h"
    | (other) "\<exists>new x. access depth env clock tps a (s, u) = Ret new x"
    using shape by (cases a) (auto simp: main_shape_def power_cycle_usb_def bind_run then_do_def split: option.splits)
  then show ?thesis
  proof cases
    case (install b)
    with run open_device_cases [OF env drv(2,1), of depth b] show ?thesis by (auto simp: bind_run split: outcome.splits)
  next
    case (capacity h)
    show ?thesis
    proof (cases "h \<noteq> NULL \<and> handle_ok s drv h")
      case True
      then have "usable env h s" using env by (simp add: handle_ok_def usable_def)
      from runs_at [OF command_safety(2) this, of depth 0 0] run capacity show ?thesis
        by (auto simp: bind_run split: outcome.splits)
    next
      case False
      then show ?thesis using capacity drv(1) by (auto simp: driver_ok_def)
    qed
  qed (use run in auto)
qed

text \<open>Between the events, and unless a new handle has just been stored, it is the invariant of the whole calls.\<close>

lemma race_ok_storage:
  assumes "race_ok r" and "event_left r = []" and "\<not> about_to_pend (main_left r)"
  shows "storage_ok (fst (now r)) (snd (now r))"
  using assms by (auto simp: race_ok_def race_inv_def storage_ok_def unused_above_def closing_def)

end
