(* ===== verification/Lost_Drive.thy ===== *)
theory Lost_Drive imports Usb_Races Ram_Attach begin

text \<open>
  Runs of the steps of \<open>Usb_Races\<close> in which an event comes while the main loop is opening a drive, from the
  start of the firmware on.
\<close>

section \<open>Events while a drive is being opened\<close>

text \<open>A task that runs alone is one way to take turns.\<close>

lemma event_runs_alone:
  assumes "alone depth env clock tps es x (Ret () y)"
  shows "event_left r = es \<Longrightarrow> now r = x \<Longrightarrow>
    (race_step depth env clock tps)\<^sup>*\<^sup>* r (r\<lparr>now := y, event_left := []\<rparr>)"
  using assms
proof (induction es x "Ret () y :: (unit, shared) outcome" arbitrary: r rule: alone.induct)
  case al_done
  then show ?case by (cases r) simp
next
  case (al_step a x new z ops)
  let ?r = "r\<lparr>now := z, event_left := new @ ops\<rparr>"
  have "race_step depth env clock tps r ?r" using al_step by (intro rs_event) simp_all
  moreover have "(race_step depth env clock tps)\<^sup>*\<^sup>* ?r (?r\<lparr>now := y, event_left := []\<rparr>)" by (rule al_step(3)) simp_all
  ultimately show ?case by (simp add: converse_rtranclp_into_rtranclp)
qed

text \<open>An event arrives and is dealt with, while the main loop waits before its next access.\<close>

lemma event_between:
  assumes "event_left r = []" "now r = (s, u)" "client_event_cb env ev s = Ret () (s\<lparr>hist := hist s @ es\<rparr>)" "callbacks es = [raw]"
    and "handle_raw_event env raw u (s\<lparr>hist := hist s @ es\<rparr>) = Ret v t"
  shows "(race_step depth env clock tps)\<^sup>*\<^sup>* r (r\<lparr>now := (t, v)\<rparr>)"
proof -
  let ?s = "s\<lparr>hist := hist s @ es\<rparr>"
  let ?r = "r\<lparr>now := (?s, u), event_left := raw_ops raw\<rparr>"
  have "race_step depth env clock tps r ?r" using rs_arrive [OF assms(1-3)] assms(4) by simp
  moreover have "alone depth env clock tps (raw_ops raw) (?s, u) (Ret () (t, v))"
    using raw_ops_alone [of depth env clock tps raw ?s u] assms(5) by (simp add: as_shared_def)
  from event_runs_alone [OF this, of ?r] have "(race_step depth env clock tps)\<^sup>*\<^sup>* ?r (r\<lparr>now := (t, v)\<rparr>)"
    using assms(1) by (cases r) simp
  ultimately show ?thesis by (rule converse_rtranclp_into_rtranclp)
qed

lemma disconnection_lost:
  assumes ok: "race_ok r" and at: "main_left r = Set_Handle p # ops" "event_left r = []" "now r = (s, u)"
    and drv: "s_msc_driver s = Some drv" "find (\<lambda>q. g = handle (the (devs s q))) (devices_tailq drv) = Some p"
  shows "\<exists>q v. (race_step depth env clock tps)\<^sup>*\<^sup>* r q \<and> main_left q = ops \<and> event_left q = [] \<and>
    now q = (s\<lparr>hist := hist s @ [Os (EvUserCb (user_cb drv) (user_arg drv) (MSC_DEVICE_DISCONNECTED p))]\<rparr>, v) \<and>
    ums_handle v = p \<and> pending_addr v = - 1"
proof -
  let ?es = "[Os (EvUserCb (user_cb drv) (user_arg drv) (MSC_DEVICE_DISCONNECTED p))]"
  let ?s = "s\<lparr>hist := hist s @ ?es\<rparr>"
  have u: "ums_handle u = NULL" "ums_vfs u = NULL" "list_live s"
    using ok at drv(1) by (auto simp: race_ok_def race_inv_def driver_ok_def list_live_def)
  let ?v = "u\<lparr>pending_addr := - 1, retries_left := 0, ums_block_size := 0, ums_block_count := 0\<rparr>"
  have gone: "client_event_cb env (USB_HOST_CLIENT_EVENT_DEV_GONE g) s = Ret () ?s" using gone_event_run [OF drv(1) u(3)] drv(2) by simp
  have raw: "handle_raw_event env (MSC_DEVICE_DISCONNECTED p) u ?s = Ret ?v ?s"
    using u by (simp add: handle_raw_event_def unmount_vfs_def close_device_def)
  have "(race_step depth env clock tps)\<^sup>*\<^sup>* r (r\<lparr>now := (?s, ?v)\<rparr>)"
    by (rule event_between [OF at(2,3) gone _ raw]) (simp add: callbacks_def)
  moreover have "race_step depth env clock tps (r\<lparr>now := (?s, ?v)\<rparr>) (r\<lparr>now := (?s, ?v\<lparr>ums_handle := p\<rparr>), main_left := ops\<rparr>)"
    using rs_main [of "r\<lparr>now := (?s, ?v)\<rparr>"] at(1) by fastforce
  ultimately have "(race_step depth env clock tps)\<^sup>*\<^sup>* r (r\<lparr>now := (?s, ?v\<lparr>ums_handle := p\<rparr>), main_left := ops\<rparr>)"
    by (rule rtranclp.rtrancl_into_rtrancl)
  with at(2) show ?thesis by (intro exI [of _ "r\<lparr>now := (?s, ?v\<lparr>ums_handle := p\<rparr>), main_left := ops\<rparr>"]) auto
qed

lemma connection_lost:
  assumes at: "main_left r = Set_Retries 0 # ops" "event_left r = []" "now r = (s, u)"
    and new: "client_event_cb env ev s = Ret () (s\<lparr>hist := hist s @ es\<rparr>)" "callbacks es = [MSC_DEVICE_CONNECTED a]"
  shows "\<exists>q v. (race_step depth env clock tps)\<^sup>*\<^sup>* r q \<and> main_left q = ops \<and> event_left q = [] \<and>
    now q = (s\<lparr>hist := hist s @ es\<rparr>, v) \<and> given_up v \<and> pending_addr v = int (unat a) \<and> ums_handle v = NULL"
proof -
  let ?s = "s\<lparr>hist := hist s @ es\<rparr>"
  let ?v = "u\<lparr>pending_addr := int (unat a), retries_left := RETRY_COUNT, ums_handle := NULL, ums_vfs := NULL,
           ums_block_size := 0, ums_block_count := 0\<rparr>"
  have "(race_step depth env clock tps)\<^sup>*\<^sup>* r (r\<lparr>now := (?s, ?v)\<rparr>)"
    by (rule event_between [OF at(2,3) new]) (simp add: handle_raw_event_def)
  moreover have "race_step depth env clock tps (r\<lparr>now := (?s, ?v)\<rparr>) (r\<lparr>now := (?s, ?v\<lparr>retries_left := 0\<rparr>), main_left := ops\<rparr>)"
    using rs_main [of "r\<lparr>now := (?s, ?v)\<rparr>"] at(1) by fastforce
  ultimately have "(race_step depth env clock tps)\<^sup>*\<^sup>* r (r\<lparr>now := (?s, ?v\<lparr>retries_left := 0\<rparr>), main_left := ops\<rparr>)"
    by (rule rtranclp.rtrancl_into_rtrancl)
  with at(2) show ?thesis by (intro exI [of _ "r\<lparr>now := (?s, ?v\<lparr>retries_left := 0\<rparr>), main_left := ops\<rparr>"]) (auto simp: given_up_def)
qed

lemma freed_capacity:
  assumes "devs s p = None" and "p \<noteq> NULL"
  shows "scsi_cmd_read_capacity recover env p z c s = Fault UseAfterFree"
  using assms
  by (simp add: scsi_cmd_read_capacity_def uninitialised_def next_tag_def bot_execute_command_def msc_bulk_transfer_def
      Let_def bind_run deref_dev_None then_do_def del: upt_Suc)

text \<open>The capacity of a drive is read through a handle loaded before: a disconnection in between frees the device.\<close>

lemma capacity_of_freed_device:
  assumes ok: "race_ok r" and at: "main_left r = Read_Capacity_Of h # ops" "event_left r = []" "now r = (s, u)"
    and h: "ums_handle u = h" "h \<noteq> NULL"
    and gone: "client_event_cb env ev s = Ret () (s\<lparr>hist := hist s @ es\<rparr>)" "callbacks es = [MSC_DEVICE_DISCONNECTED q]"
    and env: "\<And>h c q i. r_interface_release env h c q i = ESP_OK" "\<And>h c q. r_device_close env h c q = ESP_OK"
      "\<And>h q. r_transfer_free env h q = ESP_OK"
  shows "\<exists>x. (race_step depth env clock tps)\<^sup>*\<^sup>* r (r\<lparr>now := x\<rparr>) \<and>
    access depth env clock tps (Read_Capacity_Of h) x = Fault UseAfterFree"
proof -
  let ?s = "s\<lparr>hist := hist s @ es\<rparr>"
  have "storage_ok ?s u" using race_ok_storage [OF ok at(2)] at by simp
  from disconnected_handle_freed [where env = env and q = q, OF this _ env] h obtain v t where
    v: "handle_raw_event env (MSC_DEVICE_DISCONNECTED q) u ?s = Ret v t" "devs t h = None" by auto
  have "(race_step depth env clock tps)\<^sup>*\<^sup>* r (r\<lparr>now := (t, v)\<rparr>)" by (rule event_between [OF at(2,3) gone v(1)])
  moreover have "access depth env clock tps (Read_Capacity_Of h) (t, v) = Fault UseAfterFree"
    using freed_capacity [OF v(2) h(2)] by (simp add: bind_run)
  ultimately show ?thesis by blast
qed

section \<open>A drive that is pulled out while it is being opened\<close>

lemma main_one:
  assumes "access depth env clock tps a x = Ret new y"
    and "(race_step depth env clock tps)\<^sup>*\<^sup>* \<lparr>now = y, main_left = new @ ops, event_left = es\<rparr> q"
  shows "(race_step depth env clock tps)\<^sup>*\<^sup>* \<lparr>now = x, main_left = a # ops, event_left = es\<rparr> q"
proof -
  have "race_step depth env clock tps \<lparr>now = x, main_left = a # ops, event_left = es\<rparr> \<lparr>now = y, main_left = new @ ops, event_left = es\<rparr>"
    using rs_main [of "\<lparr>now = x, main_left = a # ops, event_left = es\<rparr>"] assms(1) by simp
  then show ?thesis using assms(2) by (rule converse_rtranclp_into_rtranclp)
qed

text \<open>\<open>reports\<close>: the driver reports the device at address \<open>a\<close> as connected, without a transfer to a device that is in use.\<close>

definition reports :: "env \<Rightarrow> usb_host_client_event \<Rightarrow> u8 \<Rightarrow> sys \<Rightarrow> bool" where
  "reports env ev a s \<longleftrightarrow> (\<exists>es. client_event_cb env ev s = Ret () (s\<lparr>hist := hist s @ es\<rparr>) \<and>
     callbacks es = [MSC_DEVICE_CONNECTED a] \<and> (\<forall>g. submits g es = []))"

lemma opening_reached:
  assumes boot: "booted s0" and rep: "reports env ev a s0" and drv: "s_msc_driver s0 = Some drv"
    and at: "attaches env drv a h cfg" "carries env cfg z h r0" "two_endpoints cfg"
    and r: "idle z (ram_after cfg z r0 (submits h (hist s0)))"
  shows "\<exists>t u d ops. (race_step depth env clock tps)\<^sup>*\<^sup>* (race_start s0)
      \<lparr>now = (t, u), main_left = Set_Handle (next_ptr s0) # ops, event_left = []\<rparr> \<and>
    s_msc_driver t = Some (drv\<lparr>devices_tailq := [next_ptr s0]\<rparr>) \<and> devs t (next_ptr s0) = Some d \<and> handle d = h"
proof -
  let ?p = "next_ptr s0"
  have p: "?p \<noteq> NULL" "devices_tailq drv = []" using boot drv by (auto simp: booted_def)
  obtain es where es: "client_event_cb env ev s0 = Ret () (s0\<lparr>hist := hist s0 @ es\<rparr>)" "callbacks es = [MSC_DEVICE_CONNECTED a]"
    "\<forall>g. submits g es = []" using rep by (auto simp: reports_def)
  let ?s = "s0\<lparr>hist := hist s0 @ es\<rparr>"
  let ?u = "ums_new\<lparr>pending_addr := int (unat a), retries_left := RETRY_COUNT, ums_handle := NULL, ums_vfs := NULL,
      ums_block_size := 0, ums_block_count := 0\<rparr>"
  have arrived: "(race_step depth env clock tps)\<^sup>*\<^sup>* (race_start s0) \<lparr>now = (?s, ?u), main_left = [], event_left = []\<rparr>"
    using event_between [of "race_start s0" s0 ums_new env ev es, OF _ _ es(1,2)]
    by (simp add: race_start_def handle_raw_event_def)
  have addr: "of_int (int (unat a)) = a" by simp
  obtain t d where t: "msc_host_install_device depth env a ?s = Ret (ESP_OK, Some ?p) t" "devs t ?p = Some d" "handle d = h"
    "s_msc_driver t = Some (drv\<lparr>devices_tailq := devices_tailq drv @ [?p]\<rparr>)"
    using attach_on_ram [OF at, of ?s ?p _ depth] drv p(1) r es(3) by auto
  let ?ops = "[Set_Pending (- 1), Set_Retries 0, Capacity, Watch]"
  have "race_step depth env clock tps \<lparr>now = (?s, ?u), main_left = [], event_left = []\<rparr> \<lparr>now = (?s, ?u), main_left = poll_ops, event_left = []\<rparr>"
    using rs_poll [of "\<lparr>now = (?s, ?u), main_left = [], event_left = []\<rparr>" ?s ?u depth env clock tps "[]"] by simp
  with arrived have polling: "(race_step depth env clock tps)\<^sup>*\<^sup>* (race_start s0) \<lparr>now = (?s, ?u), main_left = poll_ops, event_left = []\<rparr>"
    by (rule rtranclp.rtrancl_into_rtrancl)
  have "(race_step depth env clock tps)\<^sup>*\<^sup>* \<lparr>now = (?s, ?u), main_left = poll_ops, event_left = []\<rparr>
      \<lparr>now = (t, ?u), main_left = Set_Handle ?p # ?ops, event_left = []\<rparr>"
    unfolding poll_ops_def
    by (rule main_one [where new = "[Open_Retries]" and y = "(?s, ?u)"], simp, unfold append_Cons append_Nil,
        rule main_one [where new = "[Open_Addr]" and y = "(?s, ?u)"], simp, unfold append_Cons append_Nil,
        rule main_one [where new = "[Install a]" and y = "(?s, ?u)"], simp, unfold append_Cons append_Nil,
        rule main_one [where new = "[Set_Handle ?p, Set_Pending (- 1), Set_Retries 0, Capacity]" and y = "(t, ?u)"])
      (simp_all add: t(1) bind_run)
  with polling have "(race_step depth env clock tps)\<^sup>*\<^sup>* (race_start s0) \<lparr>now = (t, ?u), main_left = Set_Handle ?p # ?ops, event_left = []\<rparr>"
    by (rule rtranclp_trans)
  then show ?thesis using t(2-4) p(2) by (intro exI [of _ t] exI [of _ ?u] exI [of _ d] exI [of _ ?ops]) simp
qed

lemma opened_drive_lost:
  assumes "booted s0" and "reports env ev a s0" and "s_msc_driver s0 = Some drv"
    and "attaches env drv a h cfg" and "carries env cfg z h r0" and "two_endpoints cfg" and "parser_advances env"
    and "idle z (ram_after cfg z r0 (submits h (hist s0)))"
  shows "\<exists>q t u. (race_step depth env clock tps)\<^sup>*\<^sup>* (race_start s0) q \<and> event_left q = [] \<and> now q = (t, u) \<and>
    last (hist t) = Os (EvUserCb (user_cb drv) (user_arg drv) (MSC_DEVICE_DISCONNECTED (next_ptr s0))) \<and>
    ums_handle u = next_ptr s0 \<and> pending_addr u = - 1 \<and> devs t (next_ptr s0) \<noteq> None"
proof -
  let ?p = "next_ptr s0"
  obtain t u d ops where r: "(race_step depth env clock tps)\<^sup>*\<^sup>* (race_start s0) \<lparr>now = (t, u), main_left = Set_Handle ?p # ops, event_left = []\<rparr>"
    "s_msc_driver t = Some (drv\<lparr>devices_tailq := [?p]\<rparr>)" "devs t ?p = Some d" "handle d = h"
    using opening_reached [OF assms(1-6,8)] by blast
  have "host_ok env" using assms(5) by (simp add: carries_def answers_def)
  with race_reachable_ok [OF r(1) assms(1,7)] have ok: "race_ok \<lparr>now = (t, u), main_left = Set_Handle ?p # ops, event_left = []\<rparr>" by blast
  have found: "find (\<lambda>q. h = handle (the (devs t q))) (devices_tailq (drv\<lparr>devices_tailq := [?p]\<rparr>)) = Some ?p" using r(3,4) by simp
  let ?t = "t\<lparr>hist := hist t @ [Os (EvUserCb (user_cb drv) (user_arg drv) (MSC_DEVICE_DISCONNECTED ?p))]\<rparr>"
  obtain q v where q: "(race_step depth env clock tps)\<^sup>*\<^sup>* \<lparr>now = (t, u), main_left = Set_Handle ?p # ops, event_left = []\<rparr> q"
    "event_left q = []" "now q = (?t, v)" "ums_handle v = ?p" "pending_addr v = - 1"
    using disconnection_lost [OF ok _ _ _ r(2) found, where ops = ops and u = u and depth = depth and clock = clock and tps = tps and env = env] by auto
  have "(race_step depth env clock tps)\<^sup>*\<^sup>* (race_start s0) q" using r(1) q(1) by (rule rtranclp_trans)
  moreover have "devs ?t ?p \<noteq> None" "last (hist ?t) = Os (EvUserCb (user_cb drv) (user_arg drv) (MSC_DEVICE_DISCONNECTED ?p))"
    using r(3) by simp_all
  ultimately show ?thesis using q by blast
qed

end
