(* ===== verification/File_Listing.thy ===== *)
theory File_Listing imports Prelude begin

text \<open>
  \<open>ls_all_device\<close> of \<open>src/usb_mass_storage/fsops.rs\<close>: the listing that a debugging build logs after a mount. The file
  system is a parameter: what \<open>read_dir\<close> answers for a path, each entry being an error or a path, and whether a path is
  a directory. The state is the log. \<open>depth\<close> is the number of nested calls the stack can hold.
\<close>

section \<open>The code\<close>

type_synonym path = "string list"
type_synonym io_error = nat

record file_system =
  read_dir :: "path \<Rightarrow> io_error + (io_error + path) list"
  is_dir :: "path \<Rightarrow> bool"

datatype log_line = Listing path | Entry path

definition log_info :: "log_line \<Rightarrow> (log_line list, unit) prog" where
  "log_info l = modify (\<lambda>lines. lines @ [l])"

text \<open>The loop over the entries; \<open>sub\<close> is the recursive call, and an error ends the loop.\<close>

primrec ls_entries :: "file_system \<Rightarrow> (path \<Rightarrow> (log_line list, io_error + unit) prog) \<Rightarrow> (io_error + path) list \<Rightarrow>
    (log_line list, io_error + unit) prog" where
  "ls_entries fs sub [] = return (Inr ())"
| "ls_entries fs sub (entry # entries) = (case entry of Inl e \<Rightarrow> return (Inl e)
     | Inr subpath \<Rightarrow> then_do (log_info (Entry subpath))
        (if is_dir fs subpath
         then bind (sub subpath) (\<lambda>r. case r of Inl e \<Rightarrow> return (Inl e) | Inr _ \<Rightarrow> ls_entries fs sub entries)
         else ls_entries fs sub entries))"

primrec ls_all_device :: "nat \<Rightarrow> file_system \<Rightarrow> path \<Rightarrow> (log_line list, io_error + unit) prog" where
  "ls_all_device 0 fs path = fault StackExhausted"
| "ls_all_device (Suc depth) fs path = then_do (log_info (Listing path))
     (case read_dir fs path of Inl e \<Rightarrow> return (Inl e)
      | Inr entries \<Rightarrow> ls_entries fs (ls_all_device depth fs) entries)"

section \<open>On a tree of directories\<close>

datatype tree = File string | Folder string "tree list"

primrec tree_name :: "tree \<Rightarrow> string" where
  "tree_name (File n) = n"
| "tree_name (Folder n ts) = n"

text \<open>\<open>holds fs path t\<close>: the file system has the tree \<open>t\<close> in the directory \<open>path\<close>.\<close>

primrec holds :: "file_system \<Rightarrow> path \<Rightarrow> tree \<Rightarrow> bool" where
  "holds fs path (File n) = (\<not> is_dir fs (path @ [n]))"
| "holds fs path (Folder n ts) = (is_dir fs (path @ [n]) \<and>
     read_dir fs (path @ [n]) = Inr (map (\<lambda>t. Inr (path @ [n, tree_name t])) ts) \<and> list_all (holds fs (path @ [n])) ts)"

primrec height :: "tree \<Rightarrow> nat" where
  "height (File n) = 0"
| "height (Folder n ts) = Suc (foldr max (map height ts) 0)"

text \<open>What a reader of the log expects: every file and directory once, in the order of the directories.\<close>

primrec lines_of :: "path \<Rightarrow> tree \<Rightarrow> log_line list" where
  "lines_of path (File n) = [Entry (path @ [n])]"
| "lines_of path (Folder n ts) = Entry (path @ [n]) # Listing (path @ [n]) # concat (map (lines_of (path @ [n])) ts)"

lemma foldr_max_ge: "y \<in> set xs \<Longrightarrow> y \<le> foldr max xs (x :: nat)"
  by (induction xs) (auto simp: le_max_iff_disj)

lemma height_child: "t \<in> set ts \<Longrightarrow> height t < height (Folder n ts)"
  using foldr_max_ge [of "height t" "map height ts" 0] by simp

lemma ls_entries_tree:
  assumes "list_all (holds fs path) ts"
    and "\<And>n us lines. Folder n us \<in> set ts \<Longrightarrow> sub (path @ [n]) lines =
      Ret (Inr ()) (lines @ Listing (path @ [n]) # concat (map (lines_of (path @ [n])) us))"
  shows "ls_entries fs sub (map (\<lambda>t. Inr (path @ [tree_name t])) ts) lines =
    Ret (Inr ()) (lines @ concat (map (lines_of path) ts))"
  using assms
proof (induction ts arbitrary: lines)
  case (Cons t ts)
  note rest = Cons.IH [OF _ Cons.prems(2)]
  show ?case
  proof (cases t)
    case (File n)
    then show ?thesis using Cons.prems(1) rest by (simp add: log_info_def then_do_def)
  next
    case (Folder n us)
    then show ?thesis using Cons.prems(1) Cons.prems(2) [of n us "lines @ [Entry (path @ [n])]"] rest
      by (simp add: log_info_def then_do_def bind_run)
  qed
qed simp

lemma ls_lists_tree:
  assumes "holds fs path (Folder n ts)" and "height (Folder n ts) \<le> depth"
  shows "ls_all_device depth fs (path @ [n]) lines =
    Ret (Inr ()) (lines @ Listing (path @ [n]) # concat (map (lines_of (path @ [n])) ts))"
  using assms
proof (induction depth arbitrary: path n ts lines)
  case (Suc depth)
  let ?path = "path @ [n]"
  have dir: "read_dir fs ?path = Inr (map (\<lambda>t. Inr (?path @ [tree_name t])) ts)" and sub: "list_all (holds fs ?path) ts"
    using Suc.prems(1) by simp_all
  have "ls_all_device depth fs (?path @ [m]) l = Ret (Inr ()) (l @ Listing (?path @ [m]) # concat (map (lines_of (?path @ [m])) us))"
    if m: "Folder m us \<in> set ts" for m us l
  proof (rule Suc.IH)
    show "holds fs ?path (Folder m us)" using sub m by (simp add: list_all_iff del: holds.simps)
    show "height (Folder m us) \<le> depth" using height_child [OF m, of n] Suc.prems(2) by linarith
  qed
  from ls_entries_tree [OF sub this] show ?case by (simp add: dir log_info_def then_do_def)
qed simp

section \<open>What can go wrong\<close>

text \<open>The first error ends the listing: what was logged until then stays, and nothing after it is logged.\<close>

lemma ls_stops_at_error:
  assumes "read_dir fs path = Inr (map Inr files @ Inl e # rest)" and "\<forall>f\<in>set files. \<not> is_dir fs f"
  shows "ls_all_device (Suc depth) fs path lines = Ret (Inl e) (lines @ Listing path # map Entry files)"
proof -
  have "ls_entries fs sub (map Inr fs' @ Inl e # rest) l = Ret (Inl e) (l @ map Entry fs')"
    if "\<forall>f\<in>set fs'. \<not> is_dir fs f" for sub fs' l
    using that by (induction fs' arbitrary: l) (simp_all add: log_info_def then_do_def)
  from this [OF assms(2)] show ?thesis by (simp add: assms(1) log_info_def then_do_def)
qed

text \<open>
  Nothing bounds the recursion but the tree: on a volume where a directory comes first in itself (a damaged
  FAT), no stack is deep enough.
\<close>

lemma ls_loops:
  assumes "\<And>p. p \<in> P \<Longrightarrow> is_dir fs p \<and> (\<exists>q\<in>P. \<exists>rest. read_dir fs p = Inr (Inr q # rest))" and "p \<in> P"
  shows "ls_all_device depth fs p lines = Fault StackExhausted"
  using assms(2)
proof (induction depth arbitrary: p lines)
  case (Suc depth)
  obtain q rest where q: "q \<in> P" "read_dir fs p = Inr (Inr q # rest)" using assms(1) [OF Suc.prems] by blast
  moreover have "is_dir fs q" using assms(1) q(1) by blast
  ultimately show ?case using Suc.IH [OF q(1)] by (simp add: log_info_def then_do_def bind_run)
qed simp

end
