(* ===== verification/Spec2Isabelle.thy ===== *)
theory Spec2Isabelle imports Sample_Link Driver_Tasks Ram_Attach Bot_Recovery Test_Device Test_Cases Lost_Drive File_Listing begin

text \<open>
  The firmware of the BindKey USB module: it gives the blocks of a USB stick to a second
  microcontroller over SPI. The C component \<open>src/usb_mass_storage/usb_host_msc\<close> is the mass-storage
  host driver, and the Rust crate around it follows the stick and serves the SPI link. This theory
  holds the properties that span the parts; the parts are in the other theories.

  \<^bold>\<open>The program.\<close> \<open>main\<close> installs the host library and the driver (\<open>init_host\<close>, \<open>msc_host_install\<close>),
  starts the SPI task and polls. The driver handles the events of the USB host library
  (\<open>msc_host_handle_events\<close>) and reports connections and disconnections through the callback, which
  changes the one object \<open>UsbMassStorage\<close>. A poll attaches a connected device
  (\<open>msc_host_install_device\<close>): the driver opens it, finds its mass-storage interface, claims it and asks
  for its capacity. Every command to the device is one exchange of the Bulk-Only Transport: a command
  wrapper out, data in or out, a status wrapper in. A stalled status is recovered by clearing the
  endpoint, and, if that does not help, by a reset recovery. The SPI slave takes a header, cuts the
  request into chunks of one frame, and reads or writes the blocks of one chunk. The C component can
  also mount the device as a FAT volume (\<open>msc_host_vfs_register\<close>): FatFs calls the disk layer for the
  sectors, and the disk layer calls the SCSI commands.

  \<^bold>\<open>The theories.\<close>
  \<^item> \<open>Prelude\<close>: machine types, error codes, programs over a state with faults as values, their
    rules; frames (what a program keeps) and safety (which faults it can end in) as relations with
    rules for every operator; bytes and little-endian words.
  \<^item> \<open>Msc_State\<close>: the structures of \<open>msc_common.h\<close>, \<open>diskio_usb.h\<close> and \<open>msc_host.h\<close>, the heap of devices,
    transfers and volumes, \<open>s_msc_driver\<close>, \<open>s_disks\<close>, the macros \<open>MSC_RETURN_ON_ERROR\<close> and
    \<open>MSC_GOTO_ON_ERROR\<close>, and the calls that leave the repository.
  \<^item> \<open>Msc_Transfer\<close>: the transfers of \<open>msc_host.c\<close> (\<open>msc_bulk_transfer\<close>, \<open>msc_control_transfer\<close>,
    \<open>wait_for_transfer_done\<close>, \<open>transfer_callback\<close>) and the control requests.
  \<^item> \<open>Scsi_Cbw\<close>: the packed structs of \<open>msc_scsi_bot.c\<close> as bytes, the sense-key table, and what a
    device reads from those bytes, written from the specifications' byte positions.
  \<^item> \<open>Scsi_Bot\<close>: \<open>bot_execute_command\<close> and the eight \<open>scsi_cmd_*\<close> functions of \<open>msc_scsi_bot.c\<close>, with
    \<open>msc_wait_for_ready_state\<close> and \<open>msc_host_reset_recovery\<close> of \<open>msc_host.c\<close>.
  \<^item> \<open>Msc_Config\<close>: \<open>find_msc_interface\<close> and \<open>extract_config_from_descriptor\<close> of \<open>msc_host.c\<close>.
  \<^item> \<open>Msc_Host\<close>: the rest of \<open>msc_host.c\<close>: installing and uninstalling, client events, attaching and
    detaching, sector and information calls.
  \<^item> \<open>Diskio\<close> and \<open>Msc_Vfs\<close>: \<open>diskio_usb.c\<close> and \<open>msc_host_vfs.c\<close>.
  \<^item> \<open>Driver_Tasks\<close>: the installation, the uninstallation and the event task once more, as steps that
    interleave. \<open>Msc_Host\<close> has each of them as one uninterrupted run.
  \<^item> \<open>Sample_Device\<close>, \<open>Ram_Disk\<close>, \<open>Ram_Attach\<close>: host stacks and devices that are not code of the
    repository. \<open>Sample_Device\<close> gives the concrete runs of the witnesses; \<open>Ram_Disk\<close> is a device that
    stores blocks and decodes the commands on the wire, for the refinement of the disk layer.
  \<^item> \<open>Bot_Recovery\<close>: the requests of a reset recovery, byte for byte.
  \<^item> \<open>Test_Device\<close>: \<open>test_app/main/msc_device.c\<close>, the board the driver's tests run against: its
    descriptors, and the start of its storage from flash or SD card. It is a program of its own, with
    the history of its vendor calls as its state.
  \<^item> \<open>Test_Cases\<close>: the cases of \<open>test_app/main/test_msc.c\<close> that work on sectors: the driver from its
    installation to its removal in one run.

  \<^item> \<open>Spi_Crc\<close> and \<open>Spi_Protocol\<close>: \<open>src/spi_link/protocol.rs\<close>: the checksum, with the polynomial division
    that defines CRC-32, and the commands and headers.
  \<^item> \<open>Usb_Storage\<close>: \<open>src/usb_mass_storage/driver.rs\<close>, \<open>block_device.rs\<close>, \<open>callback.rs\<close> and
    \<open>src/power_switch/tps.rs\<close>: the object that follows the drive. \<open>Usb_Lifecycle\<close>: its invariant, kept by every
    call in every order, the attempts to open a drive, and the race with a disconnection.
  \<^item> \<open>Usb_Races\<close>: the same methods as lists of single accesses, which the main loop and the event task interleave;
    that they are the methods when nothing interrupts them, and an invariant of all interleavings. \<open>Lost_Drive\<close>: runs in
    which an event comes while a drive is being opened. \<open>File_Listing\<close>: \<open>src/usb_mass_storage/fsops.rs\<close>.
  \<^item> \<open>Spi_Link\<close>: \<open>src/spi_link/transport.rs\<close>: the slave and the rounds of its loop, with their safety.
    \<open>Spi_Store\<close>: chunks, and the link as a block store over the device of \<open>Ram_Disk\<close>.
  \<^item> \<open>Firmware\<close>: \<open>src/main.rs\<close>, \<open>init_host\<close>, \<open>src/spi_link/task.rs\<close>, \<open>src/led/led.rs\<close>: the start, and the running
    system as steps of its tasks. \<open>Sample_Link\<close>: a running link for the witnesses.

  \<^bold>\<open>How code becomes definitions.\<close> A C function is a program over the state \<open>sys\<close>: it returns a
  value with a new state, or ends in a fault (null or freed memory, a write past the end of an
  object, a failed \<open>assert\<close> or \<open>ESP_ERROR_CHECK\<close>, a wait without end, an exhausted stack). Objects are
  reached through pointers into maps, so that aliasing and freeing show. A buffer is the list of
  its bytes; its length is the size of the object. Integers keep their C width.
  The host library, FreeRTOS, the allocator, FatFs and the VFS are the parameter \<open>env\<close>, one function
  per external call from the history of all calls and the arguments to the results. A theorem
  holds for every \<open>env\<close> that its hypotheses admit. \<open>host_ok\<close> and \<open>answers\<close> state the host stack's
  documented behaviour: allocations succeed, and a flushed transfer comes back.
  A method of the Rust crate is a program too: its object is an argument and a result, a \<open>Result\<close> is a sum, a
  slice out of range is a panic, and \<open>build\<close> says whether an overflow panics (debug) or wraps (release). The SPI
  task works on the state \<open>spi_link\<close>, which holds the state of the driver, the global object and the buffers; the
  master is a function from the history of the link and the bytes it is sent to the bytes it sends.

  \<^bold>\<open>What the lemmas show.\<close> Frames: which part of the state every function keeps (the locales
  \<open>frame_relation\<close>, \<open>layer_frame\<close> and \<open>command_frame\<close>, with their interpretations on the bus, the tag and
  the attachment). Contracts: which faults are left (\<open>recovery_contract\<close>, interpreted on the code's
  own recovery). Formats: every wire format has an inverse (\<open>fixed_format\<close>). Results: what a
  command that returned \<open>ESP_OK\<close> says about the device. Refinement: the disk layer is a block
  store, and so are the block device of the firmware and the SPI link (\<open>block_device\<close>, with three
  interpretations). Concurrency: an invariant of all interleavings of the installations, and
  one of the uninstallation beside the event task, and one of main loop and event task.

  \<^bold>\<open>Bounds.\<close> A command whose status stalls runs a reset recovery, which runs commands: the recursion
  has no bound in the code. The argument \<open>depth\<close> is the number of nested recoveries the stack can
  hold, and exceeding it is a fault, never a result; the properties on recovery say when a
  depth is enough and that for some devices none is. In \<open>ls_all_device\<close> it is the number of nested calls, and the
  height of the tree is enough. \<open>find_msc_interface\<close> has the fuel
  \<open>wTotalLength + 1\<close>, enough because every descriptor found lies behind the one before. The
  argument \<open>rounds\<close> of \<open>event_handler_task\<close> and of the tasks of \<open>Test_Device\<close> is the number of rounds to
  run of a loop that need not end; so is the number of rounds of \<open>spi_rounds\<close>. A request over SPI has at most 65536
  chunks, which is what the 16-bit chunk index can name. \<open>usize\<close> has 32 bits.

  \<^bold>\<open>Not modelled.\<close> Logging. The test cases that go through files, and those whose outcome a real device
  decides. The profiling counters of the SPI slave.
  Tasks that use one device at the same time: its transfer is shared without a lock, and the sector calls are
  documented as not thread safe. In \<open>system_step\<close> a poll, a delivered event and an SPI round are each one step; what
  goes wrong inside an SPI round is stated for the disconnection alone, and inside a poll by \<open>Usb_Races\<close>, where a call of the C
  driver is one step. Bits of the endpoint's packet size and the alignment of buffers are not interpreted.
\<close>

text \<open>C1. The whole firmware keeps running: once \<open>main\<close> has reached its loop, then in every order of its polls, of
  the events the C driver delivers and of the rounds of the SPI task with any master, the buffers of the link keep
  their sizes, and an open drive is a live device of the driver that every command can use. Every next call ends
  normally or in one of the faults of the C driver that other properties explain (a status longer than its buffer,
  a device that never stops stalling, a drive without a mass-storage interface); a panic needs a debug build.\<close>

theorem firmware_keeps_running:
  assumes "powered_on (link_sys l0)" and "cb \<noteq> NULL" and "\<And>h. snd (r_client_register env h) \<noteq> NULL"
    and "main_start env install initialize cb l0 = Ret True l1" and "spi_run_start heap l1 = Ret () l2"
    and "(system_step env depth clock build)\<^sup>*\<^sup>* l2 l" and "parser_advances env" and "host_ok env"
  shows "link_ok l \<and> (\<exists>u. link_usb l = Some u \<and> storage_ok (link_sys l) u) \<and>
    faults_in (block_faults build) (spi_round build depth env master l) \<and>
    faults_in setup_faults (main_round depth env clock l) \<and> faults_in {} (event_round env ev l)"
proof -
  have "running l2" using main_start_cases [OF assms(1-3), of install initialize heap] assms(4,5) run_start_heap
    by (fastforce simp: running_def)
  from system_running [OF assms(6) this assms(7,8)] have l: "running l" .
  then have "link_ok l \<and> (\<exists>u. link_usb l = Some u \<and> storage_ok (link_sys l) u)" by (auto simp: running_def link_ok_def)
  with faults_in_runs [OF spi_round_running [OF assms(8)] l] faults_in_runs [OF main_round_runs [OF assms(7,8)] l]
    faults_in_runs [OF event_round_runs [OF assms(7)] l]
  show ?thesis by blast
qed

theorem firmware_keeps_running_witness:
  "\<exists>l1 l2. main_start ram_host (\<lambda>_. ESP_OK) (\<lambda>_. ESP_OK) 1 (spi_new (sample_sys\<lparr>s_msc_driver := None\<rparr>) None) = Ret True l1 \<and>
    spi_run_start (\<lambda>_. True) l1 = Ret () l2 \<and> link_ok l2 \<and> faults_in {} (event_round ram_host (USB_HOST_CLIENT_EVENT_NEW_DEV 1) l2)"
proof -
  note on = sample_powered_on
  have reg: "snd (r_client_register ram_host h) \<noteq> NULL" for h using ram_host_starts by (simp add: start_answers_def)
  obtain m where m: "main_start ram_host (\<lambda>_. ESP_OK) (\<lambda>_. ESP_OK) 1 (spi_new (sample_sys\<lparr>s_msc_driver := None\<rparr>) None) = Ret True m"
    using main_start_ok [OF ram_host_starts on, of 1] by auto
  obtain n where n: "spi_run_start (\<lambda>_. True) m = Ret () n"
    using main_start_cases [OF on _ reg, of 1 "\<lambda>_. ESP_OK" "\<lambda>_. ESP_OK" "\<lambda>_. True"] m by auto
  from firmware_keeps_running [OF on _ reg m n rtranclp.rtrancl_refl ram_host_ok(2,1), where build = Release and depth = 0
      and clock = "\<lambda>_. 0" and ev = "USB_HOST_CLIENT_EVENT_NEW_DEV 1"] m n
  show ?thesis by auto
qed

text \<open>C2. Through the SPI link the drive is a block store: a master that follows the protocol, reading a request
  chunk by chunk, gets exactly the blocks the drive holds, each chunk with a matching CRC, and one that writes it
  chunk by chunk changes exactly those blocks, so that a read of them returns the data. This holds for every
  block size that divides the payload of a frame, up to 65536 chunks a request, and both builds.\<close>

theorem spi_link_refines_block_store:
  assumes "link_holds env z p d r0 u l bl" and "in_link z u a k" and "length buff = unat k * z" and "length data = unat k * z"
  shows "(\<exists>m. spi_read build depth env buff a k l = Ret (ESP_OK, read_blocks (unat k) a bl) m \<and> link_holds env z p d r0 u m bl) \<and>
    (\<exists>m n. spi_write build depth env data a k l = Ret ESP_OK m \<and> link_holds env z p d r0 u m (write_blocks z (unat k) a data bl) \<and>
      spi_read build depth env buff a k m = Ret (ESP_OK, data) n)"
  using spi_device.rd_ok [OF assms(1-3), of build depth] spi_device.wr_ok [OF assms(1,2,4), of build depth]
    spi_device.read_back [OF assms(1,2,4), of buff build depth] assms(3,4) by fastforce

theorem spi_link_refines_block_store_witness:
  "(\<exists>m. spi_read Release 0 ram_host (replicate 9600 9) 5 600 sample_link = Ret (ESP_OK, replicate 9600 0) m) \<and>
   (\<exists>m n. spi_write Release 0 ram_host (map of_nat [0..<9600]) 5 600 sample_link = Ret ESP_OK m \<and>
      spi_read Release 0 ram_host (replicate 9600 9) 5 600 m = Ret (ESP_OK, map of_nat [0..<9600]) n)"
proof -
  have zeros: "read_blocks k a (\<lambda>_. replicate 16 0) = replicate (k * 16) 0" for k a
    by (induction k arbitrary: a) (simp_all add: replicate_add)
  have "in_link 16 sample_usb 5 600" by (simp add: in_link_def sample_usb_fields)
  from spi_link_refines_block_store [OF sample_link_holds this, of "replicate 9600 9" "map of_nat [0..<9600]" Release 0]
  show ?thesis by (simp add: zeros) blast
qed

text \<open>C3. The checksum of the link is CRC-32 as IEEE 802.3 defines it: the bitwise loop with its reflected table-free
  polynomial computes, for every message, the remainder of the division of the message polynomial.\<close>

theorem spi_crc32_is_ieee: "spi_crc32 data = crc32_ieee data"
  by (rule spi_crc32_eq)

text \<open>C4. A damaged write never reaches the drive: when the payload of an allowed chunk arrives with an error burst
  of at most 32 bits, under the CRC of what the master meant, the slave answers \<open>ESP_ERR_INVALID_CRC\<close> to this
  request, the USB side is left as it was, and the link waits for the next header.\<close>

theorem damaged_write_never_reaches_drive:
  fixes i :: u16
  assumes "idle_link u s l" and "request_fits u a n" and "unat i * per_chunk (unat (ums_block_size u)) < unat n"
    and "length data = chunk_blocks (unat (ums_block_size u)) (unat n) (unat i) * unat (ums_block_size u)"
    and "message_bits sent = pre @ x @ post" and "message_bits data = pre @ y @ post"
    and "length x = length y" and "length x \<le> 32" and "x \<noteq> y"
  shows "\<exists>l'. ask_slave build depth env (chunk_request Write q a n (unat i)) (data @ le32 (spi_crc32 sent)) l =
      Ret (response_header (chunk_request Write q a n (unat i)) ESP_ERR_INVALID_CRC 0, []) l' \<and> idle_link u s l'"
proof -
  have chunk: "compute_chunk build u a n (of_nat (unat i)) m = Ret (Inr (a + of_nat (unat i * per_chunk (unat (ums_block_size u))),
      of_nat (chunk_blocks (unat (ums_block_size u)) (unat n) (unat i)), length data)) m" for m :: spi_link
    using compute_chunk_fits [OF assms(2,3), of build m] assms(4) by simp
  have "ums_block_size u \<noteq> 0" "ums_block_count u \<noteq> 0"
    using assms(2,3) sizes_okD(1) by (fastforce simp: request_fits_def)+
  then have "capacity_known u" by (simp add: capacity_known_def)
  moreover have "length data \<le> MAX_PAYLOAD" by (rule compute_chunk_cases(3) [OF chunk])
  moreover have "spi_crc32 sent \<noteq> spi_crc32 data" by (rule burst_detected [OF assms(5-9)])
  ultimately show ?thesis using bad_write_refused [OF assms(1) _ _ refl chunk] by blast
qed

theorem damaged_write_never_reaches_drive_witness:
  "\<exists>l'. ask_slave Release 0 ram_host (chunk_request Write 1 5 1 0) (replicate 16 0 @ le32 (spi_crc32 (1 # replicate 15 0))) sample_link =
      Ret (response_header (chunk_request Write 1 5 1 0) ESP_ERR_INVALID_CRC 0, []) l' \<and> idle_link sample_usb sample_sys l'"
proof -
  have "message_bits (1 # replicate 15 0) = [] @ [True] @ tl (message_bits (1 # replicate 15 0))"
    "message_bits (replicate 16 0) = [] @ [False] @ tl (message_bits (1 # replicate 15 0))"
    by (simp_all add: message_bits_def upt_rec eval_nat_numeral)
  with damaged_write_never_reaches_drive [OF sample_idle, of 5 1 0 "replicate 16 0" "1 # replicate 15 0" "[]" "[True]"
      "tl (message_bits (1 # replicate 15 0))" "[False]" Release 0 ram_host 1]
  show ?thesis by (simp add: request_fits_def sample_usb_fields sample_sizes chunk_blocks_def)
qed

text \<open>C5. A device that stalls every status transfer is never given up on: no matter how many
  nested recoveries the stack can hold, TEST UNIT READY, the wait for a ready unit and the reset
  recovery use them all, because each recovery starts with a TEST UNIT READY whose status
  stalls again.\<close>

theorem no_stack_is_deep_enough:
  assumes "answers env" and "stalls_at env (bulk_in_ep cfg)" and "endpoints_ok cfg" and "attached p cfg s"
  shows "msc_host_reset_recovery depth env p s = Fault StackExhausted \<and>
    scsi_cmd_unit_ready (msc_host_reset_recovery depth env) env p s = Fault StackExhausted \<and>
    msc_wait_for_ready_state (msc_host_reset_recovery depth env) env p ms s = Fault StackExhausted"
  using reset_recovery_exhausts [OF assms] wait_exhausts [OF assms] unit_ready_recovers [OF assms]
    reset_recovery_exhausts [OF assms(1-3)] by blast

theorem no_stack_is_deep_enough_witness:
  "msc_host_reset_recovery 1000 (sample_host stalling_device) 10 sample_sys = Fault StackExhausted"
  using no_stack_is_deep_enough [OF stalling_host(1) _ _ sample_attached] stalling_host(2)
  by (simp add: sample_config_def endpoints_ok_def)

text \<open>C6. As soon as the stalls stop, the recursion does too: if the device stalls nothing once the
  history has \<open>N\<close> events, \<open>N\<close> nested recoveries are enough for every command; then the only
  fault left is a received transfer that is longer than the memory it is copied to.\<close>

theorem recovery_depth_bound:
  assumes "host_ok env" and "dev_ok p s" and "stalls_stop env N" and "N \<le> length (hist s) + depth"
  shows "case issue (msc_host_reset_recovery depth env) env p data z cmd s of
    Ret r t \<Rightarrow> dev_ok p t | Fault f \<Rightarrow> f = BufferOverflow"
proof -
  have "stalls_left env p N depth s" using assms by (simp add: stalls_left_def usable_def)
  from runs_at [OF bounded.I_issue this] show ?thesis
    by (rule outcome_mono) (simp_all add: stalls_left_def usable_def)
qed

theorem recovery_depth_bound_witness:
  "stalls_stop (sample_host (disk_device [])) 0 \<and>
   (case issue (msc_host_reset_recovery 0 (sample_host (disk_device []))) (sample_host (disk_device [])) 10 [] 0
      Test_Unit_Ready sample_sys of Ret r t \<Rightarrow> dev_ok 10 t | Fault f \<Rightarrow> f = BufferOverflow)"
proof -
  have stop: "stalls_stop (sample_host (disk_device [])) 0"
    by (auto simp: stalls_stop_def sample_host_def disk_device_def completed_def split: option.split)
  from recovery_depth_bound [where depth = 0, OF sample_host_ok sample_dev_ok stop] stop show ?thesis
    by blast
qed

text \<open>C7. Under the contract of the host stack (allocation succeeds, a flushed endpoint returns its
  transfer) every SCSI command ends without touching a null or freed object, without blocking
  and without a failed assertion; the device stays usable, and the installed driver, the disk
  table and everything of the devices but their transfer is as before.\<close>

theorem commands_keep_device:
  assumes "host_ok env" and "dev_ok p s"
  shows "case issue (msc_host_reset_recovery depth env) env p data z cmd s of
      Ret r t \<Rightarrow> dev_ok p t \<and> s_msc_driver t = s_msc_driver s \<and> s_disks t = s_disks s \<and>
        (\<forall>q. same_device (devs s q) (devs t q))
    | Fault f \<Rightarrow> f = BufferOverflow \<or> f = StackExhausted"
proof -
  let ?m = "issue (msc_host_reset_recovery depth env) env p data z cmd"
  have "usable env p s" using assms by (simp add: usable_def)
  from runs_at [OF safe.I_issue this]
  have "case ?m s of Ret r t \<Rightarrow> usable env p t | Fault f \<Rightarrow> f \<in> {BufferOverflow, StackExhausted}" .
  moreover have "?m s = Ret r t \<Longrightarrow> bus_frame s t" for r t
    by (rule keepsD [OF commands.keeps_issue [OF commands.keeps_reset_recovery]])
  ultimately show ?thesis by (cases "?m s") (auto simp: usable_def bus_frame_def)
qed

theorem commands_keep_device_witness:
  "case issue (msc_host_reset_recovery 3 (sample_host stalling_device)) (sample_host stalling_device) 10 [] 0
      Test_Unit_Ready sample_sys of
      Ret r t \<Rightarrow> dev_ok 10 t \<and> s_msc_driver t = s_msc_driver sample_sys \<and> s_disks t = s_disks sample_sys \<and>
        (\<forall>q. same_device (devs sample_sys q) (devs t q))
    | Fault f \<Rightarrow> f = BufferOverflow \<or> f = StackExhausted"
  by (rule commands_keep_device [OF sample_host_ok sample_dev_ok])

text \<open>C8. READ(10): when it returns \<open>ESP_OK\<close>, the bytes sent to the bulk-OUT endpoint are a command
  a device decodes as READ(10) of \<open>k\<close> sectors from \<open>a\<close> with the next tag; the caller's memory holds
  what one bulk-IN transfer of the device delivered, which fits into it; and the status the device
  sent last is that of a passed command with the same tag.\<close>

theorem read10_end_to_end:
  assumes "scsi_cmd_read10 recover env p data a k z s = Ret (ESP_OK, out) t"
    and "devs s p = Some d" and "bulk_in_ep (config d) \<noteq> 0"
  shows "(\<exists>es. hist t = hist s @ es \<and> command_sent (bulk_out_ep (config d))
      \<lparr>wc_tag = cbw_tag s + 1, wc_transfer_length = k * z, wc_device_to_host = True, wc_lun = 0,
       wc_command = Read_10 a (ucast k)\<rparr> es) \<and>
    (\<exists>c. received env (bulk_in_ep (config d)) (bulk_transfer_size env d (unat (k * z)) MSC_EP_IN) c \<and>
      cmp_actual c \<le> length data \<and>
      (cmp_actual c \<le> length (cmp_data c) \<longrightarrow> out = overwrite (take (cmp_actual c) (cmp_data c)) data)) \<and>
    status_passed env (bulk_in_ep (config d)) (bulk_transfer_size env d CSW_SIZE MSC_EP_IN) (cbw_tag s + 1)"
  by (rule read10_reads [OF assms])

theorem read10_end_to_end_witness:
  "\<exists>out t. scsi_cmd_read10 (\<lambda>_. return ESP_OK) (sample_host (disk_device [1, 2, 3, 4])) 10 [9, 9, 9, 9, 9]
      7 2 2 sample_sys = Ret (ESP_OK, out) t \<and> out = [1, 2, 3, 4, 9] \<and>
    (\<exists>es. hist t = hist sample_sys @ es \<and> command_sent 2
      \<lparr>wc_tag = 1, wc_transfer_length = 4, wc_device_to_host = True, wc_lun = 0,
       wc_command = Read_10 7 2\<rparr> es)"
proof -
  have "sample_at sample_sys []"
    by (simp add: sample_at_def sample_sys_def transfer_at_def sample_device_def sample_transfer_def)
  from disk_reads [where data = "[9, 9, 9, 9, 9]" and content = "[1, 2, 3, 4]" and k = 2 and z = 2 and a = 7
      and recover = "\<lambda>_. return ESP_OK", OF this]
  obtain t where run: "scsi_cmd_read10 (\<lambda>_. return ESP_OK) (sample_host (disk_device [1, 2, 3, 4])) 10
      [9, 9, 9, 9, 9] 7 2 2 sample_sys = Ret (ESP_OK, [1, 2, 3, 4, 9]) t"
    by (auto simp: overwrite_def)
  have "devs sample_sys 10 = Some sample_device" "bulk_in_ep (config sample_device) \<noteq> 0"
    by (simp_all add: sample_sys_def sample_device_def sample_config_def)
  from read10_end_to_end [OF run this] run show ?thesis
    by (auto simp: sample_sys_def sample_device_def sample_config_def)
qed

text \<open>C9. The disk layer implements an abstract block store: over a host stack that carries its transfers to
  a device storing blocks, a read of \<open>k\<close> sectors returns \<open>RES_OK\<close> with the stored blocks and leaves the
  store alone, and a write returns \<open>RES_OK\<close> and changes exactly the blocks written, with the data.
  This holds for every state of the driver, any endpoint numbers, packet sizes that make the
  transfer grow, every memory content and up to 65535 sectors a call.\<close>

theorem disk_layer_refines_block_store:
  assumes "disk_store env r0 p d pdrv s bl" and "0 < k" and "k < 2 ^ 16"
  shows "(unat k * unat (block_size (disk d)) \<le> length buff \<longrightarrow>
      (\<exists>t. usb_disk_read depth env pdrv buff a k s = Ret (RES_OK, overwrite (read_blocks (unat k) a bl) buff) t \<and>
        disk_store env r0 p d pdrv t bl)) \<and>
    (length data = unat k * unat (block_size (disk d)) \<longrightarrow>
      (\<exists>t. usb_disk_write depth env pdrv data a k s = Ret RES_OK t \<and>
        disk_store env r0 p d pdrv t (write_blocks (unat (block_size (disk d))) (unat k) a data bl)))"
  using disk_store_reads [OF assms] disk_store_writes [OF assms(1,3)] by blast

theorem disk_layer_refines_block_store_witness:
  "\<exists>t. usb_disk_read 0 (sample_host (ram_device sample_config 16 7 (empty_ram 16))) 0 (replicate 40 9) 5 2
      (sample_sys\<lparr>s_disks := [10]\<rparr>) = Ret (RES_OK, replicate 32 0 @ replicate 8 9) t"
proof -
  have "overwrite (read_blocks (unat (2 :: u32)) 5 (\<lambda>_. replicate 16 0)) (replicate 40 9) = replicate 32 (0 :: u8) @ replicate 8 9"
  proof -
    have two: "unat (2 :: u32) = Suc (Suc 0)" by simp
    have "read_blocks (unat (2 :: u32)) 5 (\<lambda>_. replicate 16 0) = replicate 32 0"
      unfolding two by (simp add: replicate_add [symmetric])
    then show ?thesis by (simp add: overwrite_def)
  qed
  with disk_layer_refines_block_store [OF sample_store, where k = 2 and a = 5 and buff = "replicate 40 9" and depth = 0]
  show ?thesis by (auto simp: sample_device_def)
qed

text \<open>What was written to a disk is read back: a write of \<open>k\<close> sectors followed by a read of the same
  sectors into any buffer of that size returns the data.\<close>

theorem written_sectors_are_read_back:
  assumes "disk_store env r0 p d pdrv s bl" and "0 < k" and "k < 2 ^ 16"
    and "length data = unat k * unat (block_size (disk d))" and "length buff = length data"
  shows "\<exists>t u. usb_disk_write depth env pdrv data a k s = Ret RES_OK t \<and>
    usb_disk_read depth env pdrv buff a k t = Ret (RES_OK, data) u"
  using disk_layer.read_back [OF assms(1) conjI [OF assms(2,3)] assms(4,5), where a = a] by blast

theorem written_sectors_are_read_back_witness:
  "\<exists>t u. usb_disk_write 0 (sample_host (ram_device sample_config 16 7 (empty_ram 16))) 0 (map of_nat [0..<80]) 1000 5
      (sample_sys\<lparr>s_disks := [10]\<rparr>) = Ret RES_OK t \<and>
    usb_disk_read 0 (sample_host (ram_device sample_config 16 7 (empty_ram 16))) 0 (replicate 80 0) 1000 5 t =
      Ret (RES_OK, map of_nat [0..<80]) u"
  by (rule written_sectors_are_read_back [OF sample_store]) (simp_all add: sample_device_def)

text \<open>C10. A device that follows the protocol attaches: on a host stack that answers every call, with two
  endpoints and a sector size, \<open>msc_host_install_device\<close> returns \<open>ESP_OK\<close>, whatever stack is left for
  recoveries, and the new device has the configuration of its descriptors and the size and count
  its READ CAPACITY reports. That count is its last block's address, one less than its blocks.\<close>

theorem conforming_device_attaches:
  assumes "attaches env drv a h cfg" and "carries env cfg z h r0" and "two_endpoints cfg"
    and "s_msc_driver s = Some drv" and "next_ptr s = p" and "p \<noteq> NULL"
    and "r = ram_after cfg z r0 (submits h (hist s))" and "idle z r"
  shows "\<exists>t d. msc_host_install_device depth env a s = Ret (ESP_OK, Some p) t \<and> devs t p = Some d \<and>
    config d = cfg \<and> handle d = h \<and> disk d = \<lparr>block_size = of_nat z, block_count = ram_last r\<rparr> \<and>
    s_msc_driver t = Some (drv\<lparr>devices_tailq := devices_tailq drv @ [p]\<rparr>) \<and> dev_ok p t"
  by (rule attach_on_ram [OF assms])

lemma sample_attaches: "attaches (sample_host device) sample_driver 1 7 sample_config"
proof -
  let ?c = "\<lparr>wTotalLength = 32, cfg_bytes = []\<rparr>"
  let ?env = "sample_host device"
  have "next_endpoint_desc ?env ?c 9 = Some (\<lparr>ep_address = 0x81, wMaxPacketSize = 64\<rparr>, 18)"
    "next_endpoint_desc ?env ?c 18 = Some (\<lparr>ep_address = 2, wMaxPacketSize = 64\<rparr>, 25)"
    by (simp_all add: next_endpoint_desc_def sample_host_def sample_endpoints_def)
  from extract_two_endpoints [OF sample_interface this, of zero_config]
  have "extract_config_from_descriptor ?env ?c zero_config = return (ESP_OK, sample_config)"
    by (simp add: take_endpoint_def is_in_endpoint_def zero_config_def sample_config_def)
  then show ?thesis by (auto simp: attaches_def sample_host_def sample_driver_def)
qed

theorem conforming_device_attaches_witness:
  "\<exists>t d. msc_host_install_device 0 (sample_host (ram_device sample_config 512 7 (empty_ram 512))) 1 sample_sys =
      Ret (ESP_OK, Some 100) t \<and> devs t 100 = Some d \<and> disk d = \<lparr>block_size = 512, block_count = 99\<rparr>"
proof -
  have "two_endpoints sample_config" "next_ptr sample_sys = 100" "ram_last (empty_ram 512) = 99" "idle 512 (empty_ram 512)"
    "empty_ram 512 = ram_after sample_config 512 (empty_ram 512) (submits 7 (hist sample_sys))"
    by (simp_all add: two_endpoints_def sample_config_def sample_sys_def empty_ram_def idle_def blocks_of_def ram_after_def)
  with conforming_device_attaches [OF sample_attaches sample_carries _ sample_fields(1), where r = "empty_ram 512" and
      depth = 0 and p = 100] show ?thesis by fastforce
qed

text \<open>What FatFs is told of a registered disk: \<open>GET_SECTOR_COUNT\<close> is the count stored at attachment, which is
  the last block's address, and \<open>GET_SECTOR_SIZE\<close> its size modulo \<open>2 ^ 16\<close>; the synchronisation
  succeeds, every other command fails, and an unregistered drive aborts.\<close>

theorem disk_ioctl_results:
  assumes "checked_disk pdrv s = Ret p s" and "p \<noteq> NULL" and "devs s p = Some d"
  shows "usb_disk_ioctl pdrv GET_SECTOR_COUNT s = Ret (RES_OK, DWord (block_count (disk d))) s \<and>
    (\<exists>w. usb_disk_ioctl pdrv GET_SECTOR_SIZE s = Ret (RES_OK, Word16 w) s \<and> unat w = unat (block_size (disk d)) mod 2 ^ 16) \<and>
    usb_disk_ioctl pdrv CTRL_SYNC s = Ret (RES_OK, Nothing_Stored) s \<and>
    (\<forall>c. c \<notin> {CTRL_SYNC, GET_SECTOR_COUNT, GET_SECTOR_SIZE} \<longrightarrow>
       usb_disk_ioctl pdrv c s = Ret (RES_ERROR, Nothing_Stored) s) \<and>
    (\<forall>q c. length (s_disks s) \<le> unat q \<or> s_disks s ! unat q = NULL \<longrightarrow> usb_disk_ioctl q c s = Fault AssertFailed)"
  using assms by (auto simp: usb_disk_ioctl_def bind_run checked_disk_faults unsigned_ucast_eq take_bit_eq_mod)

theorem disk_ioctl_results_witness:
  "\<exists>w. usb_disk_ioctl 0 GET_SECTOR_COUNT (sample_sys\<lparr>s_disks := [10]\<rparr>) = Ret (RES_OK, DWord 100) (sample_sys\<lparr>s_disks := [10]\<rparr>) \<and>
    usb_disk_ioctl 0 GET_SECTOR_SIZE (sample_sys\<lparr>s_disks := [10]\<rparr>) = Ret (RES_OK, Word16 w) (sample_sys\<lparr>s_disks := [10]\<rparr>) \<and>
    unat w = 16"
proof -
  have "checked_disk 0 (sample_sys\<lparr>s_disks := [10]\<rparr>) = Ret 10 (sample_sys\<lparr>s_disks := [10]\<rparr>)"
    "(10 :: ptr) \<noteq> NULL" "devs (sample_sys\<lparr>s_disks := [10]\<rparr>) 10 = Some sample_device"
    by (simp_all add: checked_disk_def sample_dev)
  from disk_ioctl_results [OF this] show ?thesis by (auto simp: sample_device_def)
qed

text \<open>C11. A disk that is still registered when its device is detached is read through the freed device: the
  detachment does not remove it from the disk layer, whose next access is to freed memory.\<close>

theorem detached_disk_is_used_after_free:
  assumes "transfer_at s p d x" and "s_msc_driver s = Some drv" and "p \<in> set (devices_tailq drv)"
    and "\<And>h c q i. r_interface_release env h c q i = ESP_OK" and "\<And>h c q. r_device_close env h c q = ESP_OK"
    and "\<And>h q. r_transfer_free env h q = ESP_OK" and "checked_disk pdrv s = Ret p s"
  shows "\<exists>t. msc_host_uninstall_device env p s = Ret ESP_OK t \<and> ff_diskio_get_pdrv_disk p t = Ret (find_pdrv p 0 (s_disks s)) t \<and>
    usb_disk_read depth env pdrv buff a k t = Fault UseAfterFree \<and>
    usb_disk_write depth env pdrv buff a k t = Fault UseAfterFree"
proof -
  have "p \<noteq> NULL" using assms(1) by auto
  have "checked_disk pdrv t = Ret p t" if "s_disks t = s_disks s" for t
    using assms(7) that by (auto simp: checked_disk_def prog_Ret split: if_splits)
  then show ?thesis unfolding uninstall_device_ok [where env = env, OF assms(1-6)]
    using \<open>p \<noteq> NULL\<close>
    by (simp add: usb_disk_read_def usb_disk_write_def bind_run deref_dev_None ff_diskio_get_pdrv_disk_def)
qed

theorem detached_disk_is_used_after_free_witness:
  "\<exists>t. msc_host_uninstall_device (sample_host stalling_device) 10 (sample_sys\<lparr>s_disks := [NULL, 10]\<rparr>) = Ret ESP_OK t \<and>
    usb_disk_read 3 (sample_host stalling_device) 1 [0] 0 1 t = Fault UseAfterFree"
proof -
  let ?s = "sample_sys\<lparr>s_disks := [NULL, 10]\<rparr>"
  have pre: "transfer_at ?s 10 sample_device sample_transfer" "s_msc_driver ?s = Some sample_driver"
    "10 \<in> set (devices_tailq sample_driver)"
    by (simp_all add: transfer_at_def sample_sys_def sample_device_def sample_driver_def)
  have c: "checked_disk 1 ?s = Ret 10 ?s" by (simp add: checked_disk_def)
  have ok: "r_interface_release (sample_host stalling_device) h c q i = ESP_OK" "r_device_close (sample_host stalling_device) h c q = ESP_OK"
    "r_transfer_free (sample_host stalling_device) h q = ESP_OK" for h c q i
    by (simp_all add: sample_host_def)
  from detached_disk_is_used_after_free [OF pre ok c] show ?thesis by blast
qed





text \<open>A firmware that has booted on the sample host stack, and the first event: a device at address 1.\<close>

definition sample_boot :: sys where
  "sample_boot = sample_sys\<lparr>s_msc_driver := Some (sample_driver\<lparr>devices_tailq := []\<rparr>)\<rparr>"

lemma sample_boot_fields:
  "s_msc_driver sample_boot = Some (sample_driver\<lparr>devices_tailq := []\<rparr>)" "hist sample_boot = []" "next_ptr sample_boot = 100"
  by (simp_all add: sample_boot_def sample_fields) (simp add: sample_sys_def)

lemma sample_booted: "booted sample_boot"
  by (simp add: booted_def sample_boot_fields sample_fields) (simp add: sample_boot_def sample_sys_def)

lemma sample_reports: "reports ram_host (USB_HOST_CLIENT_EVENT_NEW_DEV 1) 1 sample_boot"
proof -
  have open_ok: "r_device_open ram_host hs c a = (ESP_OK, 7)" "r_get_config ram_host hs h = (ESP_OK, \<lparr>wTotalLength = 32, cfg_bytes = []\<rparr>)"
    for hs c a h by (simp_all add: ram_host_def sample_fields)
  have found: "find_msc_interface ram_host \<lparr>wTotalLength = 32, cfg_bytes = []\<rparr> 0 =
      return (Some (\<lparr>bInterfaceNumber = 0, bInterfaceClass = 8, bInterfaceSubClass = 6, bInterfaceProtocol = 0x50\<rparr>, 9))"
    unfolding ram_host_def by (rule sample_interface)
  obtain f e where f: "find_msc_interface ram_host \<lparr>wTotalLength = 32, cfg_bytes = []\<rparr> 0 = return f"
    and run: "client_event_cb ram_host (USB_HOST_CLIENT_EVENT_NEW_DEV 1) sample_boot = Ret () (sample_boot\<lparr>hist := hist sample_boot @
      Host (EvDeviceOpen (client_handle (sample_driver\<lparr>devices_tailq := []\<rparr>)) 1 7 ESP_OK) #
      [Host (EvGetConfig 7 ESP_OK), Host (EvDeviceClose (client_handle (sample_driver\<lparr>devices_tailq := []\<rparr>)) 7 e)] @
        (if f \<noteq> None then [Os (EvUserCb (user_cb (sample_driver\<lparr>devices_tailq := []\<rparr>))
          (user_arg (sample_driver\<lparr>devices_tailq := []\<rparr>)) (MSC_DEVICE_CONNECTED 1))] else [])\<rparr>)"
    using new_dev_run [OF ram_host_ok(2) sample_boot_fields(1) open_ok, of 1] by auto
  have some: "f \<noteq> None" using f found by (auto simp: return_def fun_eq_iff)
  show ?thesis unfolding reports_def by (intro exI, intro conjI, rule run) (simp_all add: some callbacks_def submits_def)
qed

lemma sample_boot_attaches: "attaches ram_host (sample_driver\<lparr>devices_tailq := []\<rparr>) 1 7 sample_config"
  using sample_attaches [of "ram_device sample_config 16 7 (empty_ram 16)"]
  by (auto simp: attaches_def sample_driver_def ram_host_def)

lemmas sample_opening = sample_booted sample_reports sample_boot_fields(1) sample_boot_attaches

lemma sample_boot_ram:
  "carries ram_host sample_config 16 7 (empty_ram 16)" "idle 16 (ram_after sample_config 16 (empty_ram 16) (submits 7 (hist sample_boot)))"
  unfolding ram_host_def by (rule sample_carries) (simp add: sample_boot_fields ram_after_def empty_ram_idle)


text \<open>C15. The disconnection of a drive that is being opened is lost. For every device that attaches, the steps can come in this order:
  the main loop has attached the device and not yet stored its handle; the driver reports the disconnection, and the
  event task finds no handle to close; the main loop stores the handle. Then the last event is dealt with, no address
  waits, and the object keeps the handle of a device that is gone and still attached: no event will ever close it.\<close>

theorem disconnection_while_opening_is_lost:
  assumes "booted s0" and "reports env ev a s0" and "s_msc_driver s0 = Some drv"
    and "attaches env drv a h cfg" and "carries env cfg z h r0" and "two_endpoints cfg" and "parser_advances env"
    and "idle z (ram_after cfg z r0 (submits h (hist s0)))"
  shows "\<exists>q t u. (race_step depth env clock tps)\<^sup>*\<^sup>* (race_start s0) q \<and> event_left q = [] \<and> now q = (t, u) \<and>
    last (hist t) = Os (EvUserCb (user_cb drv) (user_arg drv) (MSC_DEVICE_DISCONNECTED (next_ptr s0))) \<and>
    ums_handle u = next_ptr s0 \<and> pending_addr u = - 1 \<and> devs t (next_ptr s0) \<noteq> None"
  by (rule opened_drive_lost [OF assms])

theorem disconnection_while_opening_is_lost_witness:
  "\<exists>q t u. (race_step 0 ram_host (\<lambda>_. 0) True)\<^sup>*\<^sup>* (race_start sample_boot) q \<and> event_left q = [] \<and> now q = (t, u) \<and>
    last (hist t) = Os (EvUserCb 1 0 (MSC_DEVICE_DISCONNECTED 100)) \<and> ums_handle u = 100"
  using disconnection_while_opening_is_lost [OF sample_opening sample_boot_ram(1) sample_endpoints ram_host_ok(2) sample_boot_ram(2),
      of 0 "\<lambda>_. 0" True] by (auto simp: sample_boot_fields sample_fields)

text \<open>C16. The debugging listing logs a directory tree completely: with one stack frame for each level, \<open>ls_all_device\<close> returns \<open>Ok\<close>
  and has logged every file and directory once, each directory followed by what is in it.\<close>

theorem listing_is_complete:
  assumes "holds fs path (Folder n ts)" and "height (Folder n ts) \<le> depth"
  shows "ls_all_device depth fs (path @ [n]) lines =
    Ret (Inr ()) (lines @ Listing (path @ [n]) # concat (map (lines_of (path @ [n])) ts))"
  by (rule ls_lists_tree [OF assms])

theorem listing_is_complete_witness:
  "ls_all_device 2 \<lparr>read_dir = (\<lambda>p. if p = [''usb''] then Inr [Inr [''usb'', ''a''], Inr [''usb'', ''d'']]
        else if p = [''usb'', ''d''] then Inr [Inr [''usb'', ''d'', ''b'']] else Inl 2),
      is_dir = (\<lambda>p. p = [''usb''] \<or> p = [''usb'', ''d''])\<rparr> [''usb''] [] =
    Ret (Inr ()) [Listing [''usb''], Entry [''usb'', ''a''], Entry [''usb'', ''d''], Listing [''usb'', ''d''], Entry [''usb'', ''d'', ''b'']]"
  by (subst listing_is_complete [where path = "[]" and n = "''usb''" and ts = "[File ''a'', Folder ''d'' [File ''b'']]", simplified append_Nil]) simp_all

text \<open>C17. The SPI link is safe against every master: whatever bytes it sends and however its transfers end, any number
  of rounds keeps the sizes of the four buffers and a usable drive; no slice is out of range, no DMA transfer is longer than
  its buffer, and the only panic is the overflow check of a debug build. What remains are two faults of the C driver,
  an overlong answer of the drive and one that never stops stalling.\<close>

theorem spi_link_is_safe:
  assumes "link_ok l" and "host_ok env"
  shows "case spi_rounds n build depth env master l of
      Ret _ m \<Rightarrow> link_ok m
    | Fault f \<Rightarrow> f \<in> {BufferOverflow, StackExhausted} \<or> f = Panicked \<and> build = Debug"
  using runs_at [OF spi_rounds_run [OF assms(2), of build n depth master] assms(1)]
  by (cases "spi_rounds n build depth env master l") auto

theorem spi_link_is_safe_witness:
  "case spi_rounds 1000 Release 0 ram_host (\<lambda>es sent. (of_nat (length es), [0x42, 0x4B, 1, 4])) sample_link of
      Ret _ m \<Rightarrow> link_ok m | Fault f \<Rightarrow> f \<in> {BufferOverflow, StackExhausted}"
  using spi_link_is_safe [OF sample_link_ok ram_host_ok(1), where n = 1000 and build = Release and depth = 0 and master = "\<lambda>es sent. (of_nat (length es), [0x42, 0x4B, 1, 4])"]
  by (auto split: outcome.splits)

text \<open>C18. Every chunk that \<open>compute_chunk\<close> allows, for any request of the master, fills whole blocks, fits the payload of a frame,
  lies below the block count and in its request; in a debug build its address is the one the request means. And
  every chunk of a request below the block count is allowed, with that address, in both builds.\<close>

theorem chunks_stay_in_drive:
  fixes s :: "'s"
  shows "(compute_chunk build u a n i s = Ret (Inr (lba, k, m)) t \<longrightarrow>
      m = unat k * unat (ums_block_size u) \<and> 0 < unat k \<and> m \<le> 8192 \<and> unat lba + unat k \<le> unat (ums_block_count u) \<and>
      unat i * (8192 div unat (ums_block_size u)) + unat k \<le> unat n \<and>
      (build = Debug \<longrightarrow> unat lba = unat a + unat i * (8192 div unat (ums_block_size u)))) \<and>
    (request_fits u a n \<and> unat i * (8192 div unat (ums_block_size u)) < unat n \<longrightarrow>
      (\<exists>k m. compute_chunk build u a n i s = Ret (Inr (a + of_nat (unat i * (8192 div unat (ums_block_size u))), k, m)) s \<and>
        unat k = min (8192 div unat (ums_block_size u)) (unat n - unat i * (8192 div unat (ums_block_size u)))))"
proof -
  have per: "8192 div unat (ums_block_size u) = per_chunk (unat (ums_block_size u))" by (simp add: per_chunk_def)
  show ?thesis unfolding per
  proof (intro conjI impI)
    assume "request_fits u a n \<and> unat i * per_chunk (unat (ums_block_size u)) < unat n"
    then have f: "request_fits u a n" "unat i * per_chunk (unat (ums_block_size u)) < unat n"
      and z: "sizes_ok (unat (ums_block_size u))" by (auto simp: request_fits_def)
    show "\<exists>k m. compute_chunk build u a n i s = Ret (Inr (a + of_nat (unat i * per_chunk (unat (ums_block_size u))), k, m)) s \<and>
        unat k = min (per_chunk (unat (ums_block_size u))) (unat n - unat i * per_chunk (unat (ums_block_size u)))"
      using compute_chunk_fits [OF f, of build s] chunk_bounds(3) [OF z f(2)] unfolding chunk_blocks_def by blast
  qed (auto dest: compute_chunk_allowed(2-5,7,8))
qed

theorem chunks_stay_in_drive_witness:
  "\<exists>k m. compute_chunk Release sample_usb 5 600 1 sample_sys = Ret (Inr (517, k, m)) sample_sys \<and> unat k = 88"
proof -
  have "request_fits sample_usb 5 600" by (simp add: request_fits_def sample_usb_fields sample_sizes)
  then show ?thesis
    using chunks_stay_in_drive [where u = sample_usb and build = Release and a = 5 and n = 600 and i = 1 and s = sample_sys] by (simp add: sample_usb_fields)
qed

text \<open>C19. The address of a chunk can wrap: for a request past the last 32-bit address, a debug build panics on the sum of start and offset,
  and a release build serves the chunk at the wrapped address, below the start of the request: a write that should be
  refused overwrites the first blocks of the drive.\<close>

theorem chunk_address_wraps:
  fixes i :: u16
  assumes "sizes_ok (unat (ums_block_size u))" and "unat n * unat (ums_block_size u) < 2 ^ 32"
    and "unat i * per_chunk (unat (ums_block_size u)) < unat n"
    and "2 ^ 32 \<le> unat a + unat i * per_chunk (unat (ums_block_size u))"
    and "unat a + unat n \<le> unat (ums_block_count u) + 2 ^ 32"
  shows "compute_chunk Debug u a n i s = Fault Panicked \<and>
    (\<exists>lba k m. compute_chunk Release u a n i s = Ret (Inr (lba, k, m)) s \<and> lba < a \<and>
      unat lba = unat a + unat i * per_chunk (unat (ums_block_size u)) - 2 ^ 32)"
proof -
  let ?w = "unat a + unat i * per_chunk (unat (ums_block_size u)) - 2 ^ 32"
  have "unat n < 2 ^ LENGTH(32)" "unat a < 2 ^ LENGTH(32)" by (rule unsigned_less)+
  then have w: "?w < unat a" "?w < 2 ^ 32" using assms(3,4) by auto
  then have "unat (of_nat ?w :: u32) = ?w" by (intro unat_of_nat_small)
  with compute_chunk_wraps [OF assms, of s] w(1) show ?thesis by (fastforce simp: word_less_nat_alt)
qed

theorem chunk_address_wraps_witness:
  "\<exists>k m. compute_chunk Release sample_usb 0xFFFFFE00 600 1 sample_sys = Ret (Inr (0, k, m)) sample_sys"
proof -
  have "\<exists>lba k m. compute_chunk Release sample_usb 0xFFFFFE00 600 1 sample_sys = Ret (Inr (lba, k, m)) sample_sys \<and> unat lba = 0"
    using chunk_address_wraps [of sample_usb 600 1 "0xFFFFFE00" sample_sys] by (auto simp: sample_usb_fields sample_sizes)
  then show ?thesis by (auto simp: unat_eq_0)
qed

text \<open>C20. The last block cannot be used: READ CAPACITY answers with the address of the last block, the firmware takes it for the number
  of blocks, and so refuses to read or write that block, before it asks the drive.\<close>

theorem last_block_unreachable:
  assumes "carries env (config d) z (handle d) r0" and "on_ram env z p d r0 s r" and "two_endpoints (config d)" and "idle z r"
    and "ums_handle u = p" and "0 < z" and "z < 2 ^ 32" and "ram_last r \<noteq> 0" and "ram_last r \<noteq> 0xFFFFFFFF"
  shows "\<exists>u' t. bd_refresh_capacity depth env u s = Ret (Inr (of_nat z, ram_last r), u') t \<and>
    (\<forall>out. bd_read_blocks build depth env u' (ram_last r) 1 out t = Ret (Inl ESP_ERR_INVALID_ARG, out) t) \<and>
    (\<forall>data. bd_write_blocks build depth env u' (ram_last r) 1 data t = Ret (Inl ESP_ERR_INVALID_ARG) t)"
proof -
  let ?u = "u\<lparr>ums_block_size := of_nat z, ums_block_count := ram_last r\<rparr>"
  have p: "ums_handle u \<noteq> NULL" using on_ram_device [OF assms(2)] assms(5) by simp
  obtain t where "scsi_cmd_read_capacity (recovery_at depth env) env p 0 0 s = Ret (ESP_OK, of_nat z, ram_last r) t"
    using ram_capacity [OF assms(1-4)] by blast
  then have run: "bd_refresh_capacity depth env u s = Ret (Inr (of_nat z, ram_last r), ?u) t"
    using p assms(5) by (simp add: bd_refresh_capacity_def bind_run)
  have "unat (of_nat z :: u32) = z" using assms(7) by (rule unat_of_nat_small)
  then have "(of_nat z :: u32) \<noteq> 0" using assms(6) by auto
  then have "bd_check build ?u (ram_last r) 1 n t = Ret (Inl ESP_ERR_INVALID_ARG) t" for n
    using p assms(8,9) by (intro last_block_excluded) (simp_all add: word_neq_0_conv)
  with run show ?thesis
    by (intro exI [of _ ?u] exI [of _ t]) (simp add: bd_read_blocks_def bd_write_blocks_def bind_run)
qed

theorem last_block_unreachable_witness:
  "\<exists>u' t. bd_refresh_capacity 0 ram_host sample_usb sample_sys = Ret (Inr (16, 99), u') t \<and>
    bd_read_blocks Release 0 ram_host u' 99 1 (replicate 16 0) t = Ret (Inl ESP_ERR_INVALID_ARG, replicate 16 0) t"
proof -
  have c: "carries ram_host (config sample_device) 16 (handle sample_device) (empty_ram 16)"
    unfolding sample_device_fields ram_host_def by (rule sample_carries)
  have last: "ram_last (empty_ram 16) = 99" by (simp add: empty_ram_def)
  from last_block_unreachable [OF c sample_on_ram _ empty_ram_idle, where u = sample_usb and depth = 0 and build = Release]
  show ?thesis unfolding last by (auto simp: sample_device_fields sample_endpoints sample_usb_fields)
qed

text \<open>C21. A disconnection frees the device under the SPI task: the callback of the C driver runs on another core and takes no lock, so
  it can come after \<open>bd_read_blocks\<close> or \<open>bd_write_blocks\<close> has found the handle and the range good and before it calls
  the driver. The command then uses the freed device.\<close>

theorem disconnection_frees_device_in_use:
  assumes "storage_ok s u" and "bd_check build u lba n len s = Ret (Inr ()) s"
    and "\<And>h c q i. r_interface_release env h c q i = ESP_OK" and "\<And>h c q. r_device_close env h c q = ESP_OK"
    and "\<And>h q. r_transfer_free env h q = ESP_OK"
  shows "\<exists>u' t. handle_raw_event env (MSC_DEVICE_DISCONNECTED q) u s = Ret u' t \<and>
    scsi_cmd_read10 recover env (ums_handle u) out lba n z t = Fault UseAfterFree \<and>
    scsi_cmd_write10 recover env (ums_handle u) data lba n z t = Fault UseAfterFree"
proof -
  have h: "ums_handle u \<noteq> NULL" using bd_check_cases(3) [OF assms(2)] by blast
  from disconnected_handle_freed [OF assms(1) h assms(3-5)] obtain u' t where
    "handle_raw_event env (MSC_DEVICE_DISCONNECTED q) u s = Ret u' t" "devs t (ums_handle u) = None" by blast
  with freed_device_command [OF _ h] show ?thesis by blast
qed

theorem disconnection_frees_device_in_use_witness:
  "\<exists>u' t. handle_raw_event ram_host (MSC_DEVICE_DISCONNECTED 10) sample_usb sample_sys = Ret u' t \<and>
    scsi_cmd_read10 (recovery_at 0 ram_host) ram_host 10 (replicate 16 0) 5 1 16 t = Fault UseAfterFree"
proof -
  have "bd_check Release sample_usb 5 1 16 sample_sys = Ret (Inr ()) sample_sys"
    by (rule bd_check_ok) (simp_all add: sample_usb_fields)
  from disconnection_frees_device_in_use [OF sample_storage_ok this, of ram_host] show ?thesis
    by (simp add: sample_usb_fields ram_host_def sample_host_def) blast
qed

text \<open>A new connection loses an open drive: the event clears the handle without a call to the driver, so the device stays in the
  driver's list; the disconnection of that device then closes nothing, and the driver can no longer be uninstalled.\<close>

theorem connection_loses_open_drive:
  assumes "storage_ok s u" and "ums_handle u \<noteq> NULL"
  shows "\<exists>u1 u2. handle_raw_event env (MSC_DEVICE_CONNECTED a) u s = Ret u1 s \<and> ums_handle u1 = NULL \<and>
    handle_raw_event env (MSC_DEVICE_DISCONNECTED (ums_handle u)) u1 s = Ret u2 s \<and> ums_handle u2 = NULL \<and>
    devs s (ums_handle u) \<noteq> None \<and> msc_host_uninstall env s = Ret ESP_ERR_INVALID_STATE s"
proof -
  from assms obtain drv where drv: "driver_ok s drv" "ums_handle u \<in> set (devices_tailq drv)"
    by (auto simp: storage_ok_def handle_ok_def)
  then have "devs s (ums_handle u) \<noteq> None" "s_msc_driver s = Some drv" "devices_tailq drv \<noteq> []"
    by (auto simp: driver_ok_def)
  with uninstall_rejects [of s env] show ?thesis
    by (simp add: handle_raw_event_def unmount_vfs_def close_device_def)
qed

theorem connection_loses_open_drive_witness:
  "\<exists>u1. handle_raw_event ram_host (MSC_DEVICE_CONNECTED 2) sample_usb sample_sys = Ret u1 sample_sys \<and> ums_handle u1 = NULL \<and>
    devs sample_sys 10 \<noteq> None \<and> msc_host_uninstall ram_host sample_sys = Ret ESP_ERR_INVALID_STATE sample_sys"
  using connection_loses_open_drive [OF sample_storage_ok, of ram_host 2] by (auto simp: sample_usb_fields)

text \<open>C22. Opening a drive is given up: after a connection at most three polls call \<open>msc_host_install_device\<close>, in whatever way they end.
  A drive given up after three times \<open>ESP_ERR_INVALID_STATE\<close> keeps its address, so a poll without events does nothing from then on
  but handle events: it neither tries again nor, through the watchdog, switches the power of the drive off and on.\<close>

theorem opening_is_given_up:
  assumes "handle_raw_event env (MSC_DEVICE_CONNECTED a) u s = Ret u1 s" and "3 \<le> n" and "open_tries n depth env u1 t = Ret u2 t'"
  shows "try_open_and_mount depth env u2 v = Ret u2 v \<and>
    (\<forall>drv. 0 \<le> pending_addr u2 \<and> s_msc_driver v = Some drv \<and> \<not> end_client_event_handling drv \<and>
        (\<forall>h c. fst (r_handle_events env h c 10) = []) \<longrightarrow>
      (\<exists>es w. poll depth env clock tps u2 v = Ret (u2\<lparr>no_device_since := None\<rparr>) w \<and>
        hist w = hist v @ [Host (EvLibHandleEvents 10), Host (EvHandleEvents (client_handle drv) 10 es)]))"
proof -
  have "attempts u1 = 3" using assms(1) by (auto simp: handle_raw_event_def attempts_def)
  then have none: "attempts u2 = 0" using open_tries_count [OF assms(3)] assms(2) by simp
  have "given_up u2" if "0 \<le> pending_addr u2" using none that by (auto simp: attempts_def given_up_def)
  with given_up_poll [of u2 v _ env depth clock tps] no_attempt_left [OF none] show ?thesis by blast
qed

theorem opening_is_given_up_witness:
  "\<exists>u1 u2 t w. handle_raw_event shut_host (MSC_DEVICE_CONNECTED 1) ums_new sample_sys = Ret u1 sample_sys \<and>
    open_tries 3 0 shut_host u1 sample_sys = Ret u2 t \<and> pending_addr u2 = 1 \<and>
    poll 0 shut_host (\<lambda>_. 0) True u2 t = Ret (u2\<lparr>no_device_since := None\<rparr>) w"
proof -
  obtain u1 where u1: "handle_raw_event shut_host (MSC_DEVICE_CONNECTED 1) ums_new sample_sys = Ret u1 sample_sys"
    "pending_addr u1 = 1" "retries_left u1 = 3" by (simp add: handle_raw_event_def)
  have "11 \<le> next_ptr sample_sys" by (simp add: sample_sys_def)
  then obtain t where t: "open_tries 3 0 shut_host u1 sample_sys = Ret (u1\<lparr>retries_left := 0\<rparr>) t" "s_msc_driver t = Some sample_driver"
    using refused_tries [of u1 sample_sys 0] u1 by (auto simp: sample_fields)
  have "\<not> end_client_event_handling sample_driver" by (simp add: sample_driver_def)
  with opening_is_given_up [OF u1(1) order_refl t(1), where v = t and clock = "\<lambda>_. 0" and tps = True] t(2) u1(2) shut_host_fields(4)
  obtain w where "poll 0 shut_host (\<lambda>_. 0) True (u1\<lparr>retries_left := 0\<rparr>) t = Ret (u1\<lparr>retries_left := 0, no_device_since := None\<rparr>) w"
    by auto
  with u1 t show ?thesis by (intro exI [of _ u1] exI [of _ "u1\<lparr>retries_left := 0\<rparr>"] exI [of _ t] exI [of _ w]) simp
qed

text \<open>C23. WRITE(10): when it returns \<open>ESP_OK\<close>, a command a device decodes as WRITE(10) of \<open>k\<close> sectors
  at \<open>a\<close> with the next tag was sent first, then one transfer of exactly \<open>k * z\<close> bytes that starts
  with the caller's data, and the last status is that of a passed command with the same tag.\<close>

theorem write10_end_to_end:
  assumes "scsi_cmd_write10 recover env p data a k z s = Ret ESP_OK t"
    and "devs s p = Some d" and "bulk_in_ep (config d) \<noteq> 0" and "unat (k * z) = length data"
  shows "(\<exists>es1 x es2. hist t = hist s @ es1 @ Usb (EvSubmit x ESP_OK) # es2 \<and>
     command_sent (bulk_out_ep (config d))
      \<lparr>wc_tag = cbw_tag s + 1, wc_transfer_length = k * z, wc_device_to_host = False, wc_lun = 0,
       wc_command = Write_10 a (ucast k)\<rparr> es1 \<and>
     bEndpointAddress x = bulk_out_ep (config d) \<and> num_bytes x = length data \<and>
     take (length data) (data_buffer x) = data) \<and>
    status_passed env (bulk_in_ep (config d)) (bulk_transfer_size env d CSW_SIZE MSC_EP_IN) (cbw_tag s + 1)"
  using write10_writes [OF assms(1-3)] assms(4) by (metis mem_read_exact)

theorem write10_end_to_end_witness:
  "\<exists>(t :: sys) es1 x es2. hist t = hist sample_sys @ es1 @ Usb (EvSubmit x ESP_OK) # es2 \<and>
     bEndpointAddress x = 2 \<and> num_bytes x = 4 \<and> take 4 (data_buffer x) = [1, 2, 3, 4]"
proof -
  obtain t where run: "scsi_cmd_write10 (\<lambda>_. return ESP_OK) (sample_host (disk_device [])) 10 [1, 2, 3, 4] 7 2 2
      sample_sys = Ret ESP_OK t"
    using disk_writes [where k = 2 and z = 2 and recover = "\<lambda>_. return ESP_OK" and content = "[]" and
        data = "[1, 2, 3, 4]" and a = 7, OF sample_at_start] by auto
  have ep: "bulk_in_ep (config sample_device) \<noteq> 0" and n: "unat (2 * 2 :: u32) = length [1, 2, 3, 4 :: u8]"
    and out: "bulk_out_ep (config sample_device) = 2" and len: "length [1, 2, 3, 4 :: u8] = 4"
    by (simp_all add: sample_device_def sample_config_def)
  from write10_end_to_end [OF run sample_dev ep n] show ?thesis
    unfolding out len by blast
qed

text \<open>C24. The other commands on the wire: what a conforming device decodes from the 31 bytes sent,
  whatever memory follows the command struct. MODE SENSE(10) asks for 2048 bytes, not for the 8
  of its response buffer: its length field is the only one that is not byte-swapped.\<close>

theorem commands_on_the_wire:
  "device_reads (mem_read g CBW_SIZE (bytes_cbw_read_capacity (init_read_capacity t))) =
     Some \<lparr>wc_tag = t, wc_transfer_length = 8, wc_device_to_host = True, wc_lun = 0,
       wc_command = Read_Capacity_10\<rparr> \<and>
   device_reads (mem_read g CBW_SIZE (bytes_cbw_unit_ready (init_unit_ready t))) =
     Some \<lparr>wc_tag = t, wc_transfer_length = 0, wc_device_to_host = True, wc_lun = 0,
       wc_command = Test_Unit_Ready\<rparr> \<and>
   device_reads (mem_read g CBW_SIZE (bytes_cbw_sense (init_sense t))) =
     Some \<lparr>wc_tag = t, wc_transfer_length = 18, wc_device_to_host = True, wc_lun = 0,
       wc_command = Request_Sense 18\<rparr> \<and>
   device_reads (mem_read g CBW_SIZE (bytes_cbw_inquiry (init_inquiry t))) =
     Some \<lparr>wc_tag = t, wc_transfer_length = 36, wc_device_to_host = True, wc_lun = 0,
       wc_command = Inquiry 36\<rparr> \<and>
   device_reads (mem_read g CBW_SIZE (bytes_mode_sense (init_mode_sense t))) =
     Some \<lparr>wc_tag = t, wc_transfer_length = 8, wc_device_to_host = True, wc_lun = 0,
       wc_command = Mode_Sense_10 0x3F 2048\<rparr> \<and>
   device_reads (mem_read g CBW_SIZE (bytes_prevent_removal (init_prevent_removal t b))) =
     Some \<lparr>wc_tag = t, wc_transfer_length = 0, wc_device_to_host = False, wc_lun = 0,
       wc_command = Prevent_Removal b\<rparr>"
  by (simp only: reads_read_capacity reads_unit_ready reads_sense reads_inquiry reads_mode_sense
      reads_prevent_removal simp_thms)

text \<open>C25. A bulk-IN transfer never writes past the caller's memory when that memory is a multiple of
  the endpoint's packet size and the host stack keeps its contract; it returns, and the device
  stays usable. (Every sector read with a block size that is a multiple of 512 is such a transfer.)\<close>

theorem aligned_reads_fit:
  assumes "host_ok env" and "honest_host env" and "rounds_up env" and "dev_ok p s" and "devs s p = Some d"
    and "0 < length data" and "unat (bulk_in_mps (config d)) dvd length data" and "bulk_in_mps (config d) \<noteq> 0"
  shows "\<exists>e data' t. msc_bulk_transfer env p data (length data) MSC_EP_IN s = Ret (e, data') t \<and>
    dev_ok p t \<and> length data' = length data"
proof -
  have "0 < unat (bulk_in_mps (config d))" using assms(8) by (simp add: unat_gt_0)
  then have ts: "bulk_transfer_size env d (length data) MSC_EP_IN = length data"
    using rounds_up_exact [OF assms(3,6,7)] by (simp add: bulk_transfer_size_def)
  have "\<not> (delivers env (length data) k \<and> length data < k)" for k
    using delivers_honest [OF assms(2)] by (meson not_less)
  then show ?thesis
    using bulk_transfer_cases [where env = env and n = "length data" and ep = MSC_EP_IN and data = data,
      OF _ _ assms(4,5)] assms(1)
    unfolding ts host_ok_def by blast
qed

theorem aligned_reads_fit_witness:
  "\<exists>e data' t. msc_bulk_transfer (sample_host stalling_device) 10 (replicate 512 0) 512 MSC_EP_IN sample_sys
     = Ret (e, data') t \<and> dev_ok 10 t \<and> length data' = 512"
proof -
  have "honest_host (sample_host stalling_device)"
    by (simp add: honest_host_def sample_host_def stalling_device_def completed_def)
  from aligned_reads_fit [OF sample_host_ok this sample_rounds_up sample_dev_ok sample_dev, of "replicate 512 0"]
  show ?thesis by (simp add: sample_device_def sample_config_def)
qed

text \<open>C26. A device may answer the status phase with more than 13 bytes (the transfer is rounded up to
  a whole packet): \<open>msc_bulk_transfer\<close> then copies all of them over the 13-byte wrapper on the
  stack.\<close>

theorem long_status_overflows:
  assumes "answers env" and "transfer_at s p d x"
    and "bulk_transfer_size env d CSW_SIZE MSC_EP_IN \<le> length (data_buffer x)"
    and "\<And>h y. bEndpointAddress y = bulk_in_ep (config d) \<Longrightarrow>
      cmp_status (r_completion env h y) = USB_TRANSFER_STATUS_COMPLETED \<and>
      CSW_SIZE < cmp_actual (r_completion env h y)"
  shows "status_transport recover env p s = Fault BufferOverflow"
proof -
  let ?mem = "map (r_memory env (hist s)) [0..<CSW_SIZE]"
  obtain y where y: "y = loaded_transfer env (hist s) p d x ?mem CSW_SIZE
      (bulk_transfer_size env d CSW_SIZE MSC_EP_IN) MSC_EP_IN" by blast
  obtain u where u: "u = after_submit env p d x ?mem CSW_SIZE MSC_EP_IN s" by blast
  let ?t = "awaited env (transfer_done d) (xfer d) y u"
  have ep: "bEndpointAddress y = bulk_in_ep (config d)" by (simp add: y loaded_transfer_def)
  have "xfer d \<noteq> NULL" using assms(2) by auto
  moreover have "xfers ?t (xfer d) = Some (complete_transfer (r_completion env (hist u) y) y)"
    by (simp add: awaited_def)
  ultimately have "finish_transfer (xfer d) ?mem MSC_EP_IN USB_TRANSFER_STATUS_COMPLETED ?t = Fault BufferOverflow"
    using assms(4) [OF ep, of "hist u"] by (simp add: finish_transfer_cases)
  with bulk_exact [OF assms(1-3) y u] assms(4) [OF ep, of "hist u"]
  have "msc_bulk_transfer env p ?mem CSW_SIZE MSC_EP_IN s = Fault BufferOverflow" by simp
  then show ?thesis by (simp add: status_transport_def uninitialised_def)
qed

theorem long_status_overflows_witness:
  "status_transport (\<lambda>_. return ESP_OK) (sample_host (\<lambda>_ _. completed (replicate 64 0))) 10 sample_sys = Fault BufferOverflow"
proof -
  let ?env = "sample_host (\<lambda>_ _. completed (replicate 64 0))"
  have "answers ?env" using sample_host_ok by (simp add: answers_def sample_host_def completed_def)
  moreover have "transfer_at sample_sys 10 sample_device sample_transfer"
    by (simp add: transfer_at_def sample_sys_def sample_device_def)
  moreover have "bulk_transfer_size ?env sample_device CSW_SIZE MSC_EP_IN \<le> length (data_buffer sample_transfer)"
    by (simp add: bulk_transfer_size_def sample_host_def sample_device_def sample_config_def sample_transfer_def
        sample_round_def)
  ultimately show ?thesis
    by (rule long_status_overflows) (simp_all add: sample_host_def completed_def)
qed

text \<open>The driver always sends 31 bytes of a 27-byte (for WRITE(10) 25-byte) struct: the last bytes on
  the wire are memory that does not belong to the command.\<close>

theorem cbw_sends_foreign_memory:
  "mem_read g CBW_SIZE (bytes_cbw_read10 (init_read10 t a n z)) =
     bytes_cbw_read10 (init_read10 t a n z) @ [g 27, g 28, g 29, g 30] \<and>
   mem_read g CBW_SIZE (bytes_cbw_write10 (init_write10 t a n z)) =
     bytes_cbw_write10 (init_write10 t a n z) @ [g 25, g 26, g 27, g 28, g 29, g 30]"
  by (simp add: mem_read_def upt_rec)

text \<open>C27. When the larger transfer cannot be allocated, the command fails with the error, but the device
  still points to the transfer that was freed: the next command of any kind uses it.\<close>

theorem failed_realloc_dangles:
  assumes "transfer_at s p d x" and "length (data_buffer x) < bulk_transfer_size env d n ep"
    and "r_transfer_free env (hist s) (xfer d) = ESP_OK"
    and "\<And>h k. r_transfer_alloc env h k = ESP_ERR_NO_MEM"
  shows "\<exists>t. msc_bulk_transfer env p data n ep s = Ret (ESP_ERR_NO_MEM, data) t \<and>
    msc_bulk_transfer env p data' n' ep' t = Fault UseAfterFree \<and>
    msc_mass_reset env p t = Fault UseAfterFree"
proof -
  let ?h = "hist s @ [Usb (EvXferFree (xfer d) ESP_OK)]"
  let ?t = "s\<lparr>hist := ?h @ [Usb (EvXferAlloc (bulk_transfer_size env d n ep) NULL ESP_ERR_NO_MEM)],
    xfers := (xfers s)(xfer d := None)\<rparr>"
  from assms have "grow_transfer env p (bulk_transfer_size env d n ep) s = Ret ESP_ERR_NO_MEM ?t"
    by (simp add: grow_transfer_def usb_host_transfer_free_def usb_host_transfer_alloc_def Let_def transfer_atD)
  then have "msc_bulk_transfer env p data n ep s = Ret (ESP_ERR_NO_MEM, data) ?t"
    using assms(1) by (simp add: msc_bulk_transfer_def Let_def)
  moreover have "deref_dev p ?t = Ret d ?t" "deref_xfer (xfer d) ?t = Fault UseAfterFree"
    using transfer_atD [OF assms(1)] by (simp_all add: deref_xfer_None)
  then have "msc_bulk_transfer env p data' n' ep' ?t = Fault UseAfterFree"
    "msc_mass_reset env p ?t = Fault UseAfterFree"
    by (simp_all add: msc_bulk_transfer_def grow_transfer_def msc_mass_reset_def write_setup_def Let_def)
  ultimately show ?thesis by blast
qed

theorem failed_realloc_dangles_witness:
  "\<exists>t. msc_bulk_transfer (sample_host stalling_device\<lparr>r_transfer_alloc := \<lambda>_ _. ESP_ERR_NO_MEM\<rparr>) 10
      (replicate 100 0) 100 MSC_EP_OUT sample_sys = Ret (ESP_ERR_NO_MEM, replicate 100 0) t \<and>
    msc_mass_reset (sample_host stalling_device\<lparr>r_transfer_alloc := \<lambda>_ _. ESP_ERR_NO_MEM\<rparr>) 10 t = Fault UseAfterFree"
proof -
  let ?env = "sample_host stalling_device\<lparr>r_transfer_alloc := \<lambda>_ _. ESP_ERR_NO_MEM\<rparr>"
  have "transfer_at sample_sys 10 sample_device sample_transfer"
    by (simp add: transfer_at_def sample_sys_def sample_device_def)
  moreover have "length (data_buffer sample_transfer) < bulk_transfer_size ?env sample_device 100 MSC_EP_OUT"
    by (simp add: bulk_transfer_size_def sample_transfer_def)
  ultimately show ?thesis
    using failed_realloc_dangles [of sample_sys 10 sample_device sample_transfer ?env 100 MSC_EP_OUT
        "replicate 100 0"] by (simp add: sample_host_def) blast
qed

text \<open>READ CAPACITY: a success returns the two big-endian words of the device's response, and the
  response is what the command's data phase left in the buffer.\<close>

theorem read_capacity_result:
  assumes "scsi_cmd_read_capacity recover env p z0 c0 s = Ret (ESP_OK, bsize, bcount) t"
  shows "bot_execute_command recover env p (rc_base (init_read_capacity (cbw_tag s + 1)))
       (bytes_cbw_read_capacity (init_read_capacity (cbw_tag s + 1)))
       (Some (map (r_memory env (hist s)) [0..<8])) 8 (s\<lparr>cbw_tag := cbw_tag s + 1\<rparr>) =
     Ret (ESP_OK, Some (rev (le32 bcount) @ rev (le32 bsize))) t"
proof -
  from assms obtain b where bot: "bot_execute_command recover env p (rc_base (init_read_capacity (cbw_tag s + 1)))
       (bytes_cbw_read_capacity (init_read_capacity (cbw_tag s + 1)))
       (Some (map (r_memory env (hist s)) [0..<8])) 8 (s\<lparr>cbw_tag := cbw_tag s + 1\<rparr>) = Ret (ESP_OK, b) t"
    and res: "bsize = bswap32 (rcr_block_size (read_capacity_response_of_bytes (the b)))"
      "bcount = bswap32 (rcr_block_count (read_capacity_response_of_bytes (the b)))"
    by (auto simp: scsi_cmd_read_capacity_def uninitialised_def next_tag_def Let_def bind_eq_Ret
        error_or_return_eq simp del: upt_Suc split: if_splits)
  obtain bs where b: "b = Some bs" using bot_data_Some [OF bot] by blast
  have "length bs = 8" using bot_data_some [OF bot] by (simp add: b)
  moreover have "read_capacity_response_of_bytes bs =
      \<lparr>rcr_block_count = bswap32 bcount, rcr_block_size = bswap32 bsize\<rparr>"
    using res by (simp add: b)
  ultimately have "bs = rev (le32 bcount) @ rev (le32 bsize)"
    using capacity_format.dec_eq_iff [of bs] by (simp add: bytes_read_capacity_response_def)
  with bot b show ?thesis by simp
qed

theorem read_capacity_result_witness:
  "\<exists>t. bot_execute_command (\<lambda>_. return ESP_OK) (sample_host (disk_device [0, 0, 0, 99, 0, 0, 2, 0])) 10
       (rc_base (init_read_capacity 1)) (bytes_cbw_read_capacity (init_read_capacity 1))
       (Some (map of_nat [0..<8])) 8 (sample_sys\<lparr>cbw_tag := 1\<rparr>) =
     Ret (ESP_OK, Some [0, 0, 0, 99, 0, 0, 2, 0]) t"
proof -
  have content: "[0, 0, 0, 99, 0, 0, 2, 0] = rev (le32 99) @ rev (le32 512) @ []"
    by (simp add: le32_def)
  obtain t where run: "scsi_cmd_read_capacity (\<lambda>_. return ESP_OK) (sample_host (disk_device [0, 0, 0, 99, 0, 0, 2, 0]))
      10 0 0 sample_sys = Ret (ESP_OK, 512, 99) t"
    using disk_capacity [OF sample_at_start content] by blast
  have "cbw_tag sample_sys + 1 = 1" "r_memory (sample_host f) = (\<lambda>_. of_nat)" for f
    by (simp_all add: sample_sys_def sample_host_def)
  with read_capacity_result [OF run] content show ?thesis by (simp del: upt_Suc)
qed

text \<open>A command that returns \<open>ESP_OK\<close> has executed without error: fetching the sense data after a
  failure, which succeeds in most cases, never hides the failure.\<close>

theorem errors_are_not_hidden:
  "(scsi_cmd_unit_ready recover env p s = Ret ESP_OK t \<longleftrightarrow>
      (\<exists>out. bot_execute_command recover env p (ur_base (init_unit_ready (cbw_tag s + 1)))
         (bytes_cbw_unit_ready (init_unit_ready (cbw_tag s + 1))) None 0 (s\<lparr>cbw_tag := cbw_tag s + 1\<rparr>)
         = Ret (ESP_OK, out) t)) \<and>
   (scsi_cmd_inquiry recover env p s = Ret ESP_OK t \<longleftrightarrow>
      (\<exists>out. bot_execute_command recover env p (iq_base (init_inquiry (cbw_tag s + 1)))
         (bytes_cbw_inquiry (init_inquiry (cbw_tag s + 1))) (Some (replicate 36 0)) 36
         (s\<lparr>cbw_tag := cbw_tag s + 1\<rparr>) = Ret (ESP_OK, out) t)) \<and>
   (scsi_cmd_mode_sense recover env p s = Ret ESP_OK t \<longleftrightarrow>
      (\<exists>out. bot_execute_command recover env p (ms_base (init_mode_sense (cbw_tag s + 1)))
         (bytes_mode_sense (init_mode_sense (cbw_tag s + 1))) (Some (replicate 8 0)) 8
         (s\<lparr>cbw_tag := cbw_tag s + 1\<rparr>) = Ret (ESP_OK, out) t)) \<and>
   (scsi_cmd_prevent_removal recover env p b s = Ret ESP_OK t \<longleftrightarrow>
      (\<exists>out. bot_execute_command recover env p (pr_base (init_prevent_removal (cbw_tag s + 1) b))
         (bytes_prevent_removal (init_prevent_removal (cbw_tag s + 1) b)) None 0
         (s\<lparr>cbw_tag := cbw_tag s + 1\<rparr>) = Ret (ESP_OK, out) t))"
  by (auto simp: scsi_cmd_unit_ready_def scsi_cmd_inquiry_def scsi_cmd_mode_sense_def
      scsi_cmd_prevent_removal_def next_tag_def Let_def bind_eq_Ret error_or_return_eq split: if_splits)


lemma sample_mount:
  "(10 :: ptr) \<noteq> NULL" "devs (sample_sys\<lparr>s_disks := [NULL, NULL]\<rparr>) 10 = Some sample_device"
  "next_ptr (sample_sys\<lparr>s_disks := [NULL, NULL]\<rparr>) \<noteq> NULL"
  "vfss (sample_sys\<lparr>s_disks := [NULL, NULL]\<rparr>) (next_ptr (sample_sys\<lparr>s_disks := [NULL, NULL]\<rparr>)) = None"
  "drives_exist (sample_host device) (sample_sys\<lparr>s_disks := [NULL, NULL]\<rparr>)"
  by (simp_all add: sample_sys_def drives_exist_def sample_host_def)


text \<open>C29. A mount formats the device only if the caller allowed it and the first \<open>f_mount\<close> of the same
  drive reported a missing file system or an internal error: no other failure costs the user's data.\<close>

theorem mount_formats_only_when_allowed:
  assumes "device \<noteq> NULL" and "devs s device = Some d" and "out \<noteq> NULL" and "next_ptr s \<noteq> NULL"
    and "vfss s (next_ptr s) = None" and "drives_exist env s"
  shows "\<exists>r t es. msc_host_vfs_register env device (Some path) (Some cfg) out s = Ret r t \<and> hist t = hist s @ es \<and>
    (\<forall>drv n k. Fs (EvMkfs drv n k) \<in> set es \<longrightarrow> format_if_mount_failed cfg \<and>
      (\<exists>fs. Fs (EvMount fs drv 1 FR_NO_FILESYSTEM) \<in> set es \<or> Fs (EvMount fs drv 1 FR_INT_ERR) \<in> set es))"
  using register_cases [OF assms, of path cfg]
  by (auto simp: register_outcome_def formats_when_allowed_def)

theorem mount_formats_only_when_allowed_witness:
  "\<exists>r t es. msc_host_vfs_register (sample_host stalling_device) 10 (Some ''/usb'')
      (Some \<lparr>format_if_mount_failed = False, max_files = 5, allocation_unit_size = 4096\<rparr>) 1
      (sample_sys\<lparr>s_disks := [NULL, NULL]\<rparr>) = Ret r t \<and> hist t = es \<and> (\<forall>drv n k. Fs (EvMkfs drv n k) \<notin> set es)"
proof -
  have "hist (sample_sys\<lparr>s_disks := [NULL, NULL]\<rparr>) = []" by (simp add: sample_sys_def)
  with mount_formats_only_when_allowed [where env = "sample_host stalling_device" and out = 1 and path = "''/usb''" and
      cfg = "\<lparr>format_if_mount_failed = False, max_files = 5, allocation_unit_size = 4096\<rparr>",
      OF sample_mount(1,2) _ sample_mount(3,4) sample_mount(5)]
  show ?thesis by fastforce
qed

text \<open>C30. Unmounting what a mount returned unmounts the drive, removes the disk and the path from FatFs and
  the VFS and frees the mount, in this order, and leaves the mounts as they were before. The disk
  layer's own table is not cleared: the device's drive can still be looked up in it.\<close>

theorem unmount_undoes_mount:
  assumes "device \<noteq> NULL" and "devs s device = Some d" and "out \<noteq> NULL" and "next_ptr s \<noteq> NULL"
    and "vfss s (next_ptr s) = None" and "drives_exist env s" and "device \<notin> set (s_disks s)"
    and "msc_host_vfs_register env device (Some path) (Some cfg) out s = Ret (ESP_OK, h) t"
  shows "\<exists>vfs pdrv copy u. h = Some vfs \<and> msc_host_vfs_unregister env vfs t = Ret ESP_OK u \<and> vfss u = vfss s \<and>
    hist u = hist t @ [Fs (EvUnmount (drive_name pdrv)), Fs (EvDiskUnregister pdrv), Fs (EvVfsUnregister path),
      Os (EvFree copy), Os (EvFree vfs)] \<and>
    Fs (EvDiskRegister pdrv) \<in> set (hist t) \<and> ff_diskio_get_pdrv_disk device u = Ret pdrv u"
proof -
  from register_cases [OF assms(1-6), of path cfg] assms(8)
  have "register_outcome device path cfg s (ESP_OK, h) t" by auto
  then obtain vfs pdrv es where h: "h = Some vfs" and m: "mounted t vfs device path pdrv" and none: "vfss s vfs = None"
    and other: "\<forall>q. q \<noteq> vfs \<longrightarrow> vfss t q = vfss s q" and disks: "s_disks t = (s_disks s)[unat pdrv := device]"
    and ev: "hist t = hist s @ es" "Fs (EvDiskRegister pdrv) \<in> set es"
    by (auto simp: register_outcome_def)
  from m obtain copy where v: "vfs \<noteq> NULL"
    "vfss t vfs = Some \<lparr>vfs_drive = drive_name pdrv, vfs_base_path = Some (copy, path), vfs_pdrv = pdrv\<rparr>"
    and len: "unat pdrv < length (s_disks s)"
    using disks by (auto simp: mounted_def)
  have "(vfss t)(vfs := None) = vfss s" using none other by (auto simp: fun_eq_iff)
  then show ?thesis using h v ev len unregister_run [OF v(2,1), of copy path env]
    by (auto simp: ff_diskio_get_pdrv_disk_def disks find_pdrv_update [OF len assms(7)])
qed


lemma sample_mounts:
  assumes s: "s = sample_sys\<lparr>s_disks := [NULL, NULL]\<rparr>"
  shows "\<exists>t. msc_host_vfs_register (sample_host device) 10 (Some path) (Some cfg) 1 s = Ret (ESP_OK, Some 100) t"
proof -
  let ?env = "sample_host device"
  have env: "r_calloc ?env h" "r_get_drive ?env h = (ESP_OK, 0)" "r_vfs_register ?env h path drv n = (ESP_OK, 7)"
    "r_mount ?env h drv n = FR_OK" for h path drv n
    by (simp_all add: sample_host_def)
  have "next_ptr s = 100" "s_disks s = [NULL, NULL]" "devs s 10 = Some sample_device" "vfss s 100 = None"
    by (simp_all add: s sample_sys_def)
  then have "mounting ?env 10 sample_device 1 0 s" by (simp add: mounting_def env)
  from register_to_mount [OF this env(1,3)] show ?thesis
    by (simp add: mount_volume_def f_mount_def env bind_run \<open>next_ptr s = 100\<close>)
qed

theorem unmount_undoes_mount_witness:
  "\<exists>vfs pdrv t u. msc_host_vfs_register (sample_host stalling_device) 10 (Some ''/usb'')
      (Some \<lparr>format_if_mount_failed = False, max_files = 5, allocation_unit_size = 4096\<rparr>) 1
      (sample_sys\<lparr>s_disks := [NULL, NULL]\<rparr>) = Ret (ESP_OK, Some vfs) t \<and>
    msc_host_vfs_unregister (sample_host stalling_device) vfs t = Ret ESP_OK u \<and> vfss u = (\<lambda>_. None) \<and>
    ff_diskio_get_pdrv_disk 10 u = Ret pdrv u"
proof -
  let ?cfg = "\<lparr>format_if_mount_failed = False, max_files = 5, allocation_unit_size = 4096\<rparr>"
  obtain t where run: "msc_host_vfs_register (sample_host stalling_device) 10 (Some ''/usb'') (Some ?cfg) 1
      (sample_sys\<lparr>s_disks := [NULL, NULL]\<rparr>) = Ret (ESP_OK, Some 100) t"
    using sample_mounts by blast
  have fresh: "10 \<notin> set (s_disks (sample_sys\<lparr>s_disks := [NULL, NULL]\<rparr>))"
    and none: "vfss (sample_sys\<lparr>s_disks := [NULL, NULL]\<rparr>) = (\<lambda>_. None)"
    by (simp_all add: sample_sys_def)
  from unmount_undoes_mount [OF sample_mount(1,2) _ sample_mount(3,4,5) fresh run] run none
  show ?thesis by auto
qed

text \<open>When the VFS refuses the path of a new mount, because another device is mounted there, the
  clean-up still removes the registration of that path: the call ends that other device's mount.\<close>

theorem refused_mount_removes_foreign_path:
  assumes "mounting env device d out p s" and "\<And>h. r_calloc env h"
    and "\<And>h drv n. r_vfs_register env h path drv n = (ESP_ERR_INVALID_STATE, NULL)"
  shows "\<exists>t es. msc_host_vfs_register env device (Some path) (Some cfg) out s = Ret (ESP_ERR_INVALID_STATE, None) t \<and>
    hist t = hist s @ es \<and> (\<forall>drv n. Fs (EvVfsRegister path drv n ESP_OK) \<notin> set es) \<and> Fs (EvVfsUnregister path) \<in> set es"
  using register_refused [OF assms(1,2,3)]
  by (auto simp: after_drive_def fail_events_def full_vfs_def)

theorem refused_mount_removes_foreign_path_witness:
  "\<exists>t. msc_host_vfs_register (sample_host stalling_device\<lparr>r_vfs_register := \<lambda>_ _ _ _. (ESP_ERR_INVALID_STATE, NULL)\<rparr>)
      10 (Some ''/usb'') (Some \<lparr>format_if_mount_failed = False, max_files = 5, allocation_unit_size = 4096\<rparr>) 1
      (sample_sys\<lparr>s_disks := [NULL, NULL]\<rparr>) = Ret (ESP_ERR_INVALID_STATE, None) t \<and>
    Fs (EvVfsUnregister ''/usb'') \<in> set (hist t)"
proof -
  let ?env = "sample_host stalling_device\<lparr>r_vfs_register := \<lambda>_ _ _ _. (ESP_ERR_INVALID_STATE, NULL)\<rparr>"
  have m: "mounting ?env 10 sample_device 1 0 (sample_sys\<lparr>s_disks := [NULL, NULL]\<rparr>)"
    by (simp add: mounting_def sample_sys_def sample_host_def)
  have env: "r_calloc ?env h" "r_vfs_register ?env h path drv n = (ESP_ERR_INVALID_STATE, NULL)" for h path drv n
    by (simp_all add: sample_host_def)
  from refused_mount_removes_foreign_path [OF m env] show ?thesis by fastforce
qed



text \<open>Detaching a usable device releases its interface, closes it, frees its transfer and then the
  device, in this order, and takes it out of the list.\<close>

theorem uninstall_device_releases:
  assumes "transfer_at s p d x" and "s_msc_driver s = Some drv" and "p \<in> set (devices_tailq drv)"
    and "\<And>h c q i. r_interface_release env h c q i = ESP_OK" and "\<And>h c q. r_device_close env h c q = ESP_OK"
    and "\<And>h q. r_transfer_free env h q = ESP_OK"
  shows "\<exists>t. msc_host_uninstall_device env p s = Ret ESP_OK t \<and>
     hist t = hist s @ (if transfer_done d \<noteq> NULL then [Os (EvSemDelete (transfer_done d))] else []) @
       [Host (EvRelease (client_handle drv) (handle d) (iface_num (config d)) ESP_OK),
        Host (EvDeviceClose (client_handle drv) (handle d) ESP_OK), Usb (EvXferFree (xfer d) ESP_OK), Os (EvFree p)] \<and>
     s_msc_driver t = Some (drv\<lparr>devices_tailq := remove1 p (devices_tailq drv)\<rparr>) \<and>
     devs t = (devs s)(p := None) \<and> xfers t = (xfers s)(xfer d := None)"
  unfolding uninstall_device_ok [where env = env, OF assms] by simp

theorem uninstall_device_releases_witness:
  "\<exists>t. msc_host_uninstall_device (sample_host stalling_device) 10 sample_sys = Ret ESP_OK t \<and>
     s_msc_driver t = Some (sample_driver\<lparr>devices_tailq := []\<rparr>) \<and> devs t 10 = None \<and> xfers t 12 = None"
proof -
  have "transfer_at sample_sys 10 sample_device sample_transfer" "s_msc_driver sample_sys = Some sample_driver"
    "10 \<in> set (devices_tailq sample_driver)"
    by (simp_all add: transfer_at_def sample_sys_def sample_device_def sample_driver_def)
  from uninstall_device_releases [where env = "sample_host stalling_device", OF this]
  show ?thesis by (fastforce simp: sample_host_def sample_driver_def sample_device_def)
qed

text \<open>When releasing the interface fails, the device is already out of the list and stays allocated:
  the caller that tries again runs off the end of the list.\<close>

theorem failed_uninstall_device_cannot_be_retried:
  assumes "transfer_at s p d x" and "s_msc_driver s = Some drv" and "p \<in> set (devices_tailq drv)"
    and "distinct (devices_tailq drv)" and "\<And>h c q i. r_interface_release env h c q i = e" and "e \<noteq> ESP_OK"
  shows "\<exists>t. msc_host_uninstall_device env p s = Ret e t \<and> devs t p = Some d \<and>
    s_msc_driver t = Some (drv\<lparr>devices_tailq := remove1 p (devices_tailq drv)\<rparr>) \<and>
    msc_host_uninstall_device env p t = Fault NullDeref"
  by (rule uninstall_device_error [OF assms])

theorem failed_uninstall_device_cannot_be_retried_witness:
  "\<exists>t. msc_host_uninstall_device (sample_host stalling_device\<lparr>r_interface_release := \<lambda>_ _ _ _. ESP_ERR_INVALID_STATE\<rparr>)
      10 sample_sys = Ret ESP_ERR_INVALID_STATE t \<and> devs t 10 = Some sample_device \<and>
    msc_host_uninstall_device (sample_host stalling_device\<lparr>r_interface_release := \<lambda>_ _ _ _. ESP_ERR_INVALID_STATE\<rparr>)
      10 t = Fault NullDeref"
proof -
  have "transfer_at sample_sys 10 sample_device sample_transfer" "s_msc_driver sample_sys = Some sample_driver"
    "10 \<in> set (devices_tailq sample_driver)" "distinct (devices_tailq sample_driver)"
    by (simp_all add: transfer_at_def sample_sys_def sample_device_def sample_driver_def)
  from failed_uninstall_device_cannot_be_retried [where e = ESP_ERR_INVALID_STATE and
      env = "sample_host stalling_device\<lparr>r_interface_release := \<lambda>_ _ _ _. ESP_ERR_INVALID_STATE\<rparr>", OF this]
  show ?thesis by auto
qed

text \<open>Attaching a device when no driver is installed should return \<open>ESP_ERR_INVALID_STATE\<close>; its
  clean-up removes the device from the list of the driver that does not exist.\<close>

theorem install_device_without_driver:
  assumes "s_msc_driver s = None" and "r_calloc env (hist s)" and "next_ptr s \<noteq> NULL"
  shows "msc_host_install_device depth env a s = Fault NullDeref"
  using assms by (simp add: msc_host_install_device_def new_ptr_def msc_deinit_device_def stailq_remove_def Let_def bind_run then_do_def)

theorem install_device_without_driver_witness:
  "msc_host_install_device 5 (sample_host stalling_device) 1 (sample_sys\<lparr>s_msc_driver := None\<rparr>) = Fault NullDeref"
  by (rule install_device_without_driver) (simp_all add: sample_sys_def sample_host_def)

text \<open>C32. Installing the driver with a valid configuration always returns: with \<open>ESP_OK\<close> a driver with the
  caller's callback, a semaphore and no devices is installed; with any error none is, and
  everything acquired on the way (driver object, semaphore, client) was given back. An invalid
  configuration and a second installation change nothing.\<close>

theorem driver_install_outcome:
  assumes "next_ptr s \<noteq> NULL"
  shows "if \<not> config_ok c then msc_host_install env c s = Ret ESP_ERR_INVALID_ARG s
    else if s_msc_driver s \<noteq> None then msc_host_install env c s = Ret ESP_ERR_INVALID_STATE s
    else \<exists>e t es. msc_host_install env c s = Ret e t \<and> hist t = hist s @ es \<and> devs t = devs s \<and> xfers t = xfers s \<and>
      (e = ESP_OK \<and> (\<exists>client sem. sem \<noteq> NULL \<and> s_msc_driver t = Some (fresh_driver (the c) client sem)) \<or>
       e \<noteq> ESP_OK \<and> s_msc_driver t = None \<and> balanced es)"
proof (cases c)
  case None
  then show ?thesis by (simp add: install_rejects config_ok_def)
next
  case (Some cfg)
  then show ?thesis
    using install_cases [where env = env, OF _ _ assms, of cfg] install_rejects [of c env s] install_twice [of c s _ env]
    by auto blast+
qed

theorem driver_install_outcome_witness:
  "\<exists>e t. msc_host_install (sample_host stalling_device\<lparr>r_task_create := \<lambda>_ _ _ _. False\<rparr>)
      (Some \<lparr>create_backround_task = True, task_priority = 1, stack_size = 4096, core_id = 0, cb_callback = 1, cb_callback_arg = 0\<rparr>)
      (sample_sys\<lparr>s_msc_driver := None\<rparr>) = Ret e t \<and> devs t = devs sample_sys"
  using driver_install_outcome [of "sample_sys\<lparr>s_msc_driver := None\<rparr>"
      "Some \<lparr>create_backround_task = True, task_priority = 1, stack_size = 4096, core_id = 0, cb_callback = 1, cb_callback_arg = 0\<rparr>"
      "sample_host stalling_device\<lparr>r_task_create := \<lambda>_ _ _ _. False\<rparr>"]
  by (auto simp: config_ok_def sample_sys_def)

text \<open>Uninstalling the driver is refused while a device is attached, while another task uninstalls it,
  or when there is none; otherwise it first ends the event handling and waits for it, and only
  then deletes the semaphore, deregisters the client and frees the driver.\<close>

theorem driver_uninstall_order:
  assumes "\<And>h c. r_client_unblock env h c = ESP_OK" and "\<And>h c. r_client_deregister env h c = ESP_OK"
    and "flush_completes env"
  shows "case s_msc_driver s of
      None \<Rightarrow> msc_host_uninstall env s = Ret ESP_ERR_INVALID_STATE s
    | Some drv \<Rightarrow>
        if end_client_event_handling drv \<or> devices_tailq drv \<noteq> []
        then msc_host_uninstall env s = Ret ESP_ERR_INVALID_STATE s
        else msc_host_uninstall env s = Ret ESP_OK (s\<lparr>s_msc_driver := None, hist := hist s @
          (if event_handling_started drv then [Host (EvClientUnblock (client_handle drv) ESP_OK),
             Usb (EvTakeForever (all_events_handled drv))] else []) @
          [Os (EvSemDelete (all_events_handled drv)), Host (EvClientDeregister (client_handle drv) ESP_OK),
           Os (EvFree (driver_addr s))]\<rparr>)"
proof (cases "s_msc_driver s")
  case None
  then show ?thesis using uninstall_rejects [of s env] by simp
next
  case (Some drv)
  then show ?thesis
    using uninstall_rejects [of s env] uninstall_run [OF Some _ _ assms] by simp
qed

theorem driver_uninstall_order_witness:
  "msc_host_uninstall (sample_host stalling_device)
     (sample_sys\<lparr>s_msc_driver := Some (sample_driver\<lparr>devices_tailq := []\<rparr>)\<rparr>) =
   Ret ESP_OK (sample_sys\<lparr>s_msc_driver := None, hist := [Host (EvClientUnblock 5 ESP_OK), Usb (EvTakeForever 4),
     Os (EvSemDelete 4), Host (EvClientDeregister 5 ESP_OK), Os (EvFree 3)]\<rparr>)"
  using driver_uninstall_order [of "sample_host stalling_device"
      "sample_sys\<lparr>s_msc_driver := Some (sample_driver\<lparr>devices_tailq := []\<rparr>)\<rparr>"]
  by (simp add: sample_sys_def sample_driver_def sample_host_def flush_completes_def)



text \<open>The configuration of a device with one bulk-IN and one bulk-OUT endpoint, in either order, has both
  endpoints and the packet size of the IN endpoint. Two endpoints of the same direction are
  accepted as well: then the other direction keeps endpoint 0, the control endpoint.\<close>

theorem endpoints_extracted:
  assumes "find_msc_interface env c 0 = return (Some (i, off))"
    and "next_endpoint_desc env c off = Some (e1, off1)" and "next_endpoint_desc env c off1 = Some (e2, off2)"
  shows "\<exists>cfg. extract_config_from_descriptor env c zero_config s = Ret (ESP_OK, cfg) s \<and>
    iface_num cfg = bInterfaceNumber i \<and>
    (is_in_endpoint (ep_address e1) \<and> \<not> is_in_endpoint (ep_address e2) \<longrightarrow>
       bulk_in_ep cfg = ep_address e1 \<and> bulk_out_ep cfg = ep_address e2 \<and> bulk_in_mps cfg = wMaxPacketSize e1) \<and>
    (\<not> is_in_endpoint (ep_address e1) \<and> is_in_endpoint (ep_address e2) \<longrightarrow>
       bulk_in_ep cfg = ep_address e2 \<and> bulk_out_ep cfg = ep_address e1 \<and> bulk_in_mps cfg = wMaxPacketSize e2) \<and>
    (is_in_endpoint (ep_address e1) \<and> is_in_endpoint (ep_address e2) \<longrightarrow> bulk_out_ep cfg = 0) \<and>
    (\<not> is_in_endpoint (ep_address e1) \<and> \<not> is_in_endpoint (ep_address e2) \<longrightarrow> bulk_in_ep cfg = 0)"
  using extract_two_endpoints [OF assms, of zero_config] by (simp add: take_endpoint_def zero_config_def)

theorem endpoints_extracted_witness:
  "\<exists>cfg. extract_config_from_descriptor (sample_host stalling_device) \<lparr>wTotalLength = 32, cfg_bytes = []\<rparr>
      zero_config sample_sys = Ret (ESP_OK, cfg) sample_sys \<and> bulk_in_ep cfg = 0x81 \<and> bulk_out_ep cfg = 2"
proof -
  let ?c = "\<lparr>wTotalLength = 32, cfg_bytes = []\<rparr>"
  let ?env = "sample_host stalling_device"
  have "next_endpoint_desc ?env ?c 9 = Some (\<lparr>ep_address = 0x81, wMaxPacketSize = 64\<rparr>, 18)"
    "next_endpoint_desc ?env ?c 18 = Some (\<lparr>ep_address = 2, wMaxPacketSize = 64\<rparr>, 25)"
    by (simp_all add: next_endpoint_desc_def sample_host_def sample_endpoints_def)
  from endpoints_extracted [OF sample_interface this, of sample_sys] show ?thesis by (auto simp: is_in_endpoint_def)
qed

text \<open>A disconnection is reported to the user with the first device of the list that has the handle of the
  event, and with no other; for a handle that is not in the list nothing is reported.\<close>

theorem disconnection_reported:
  assumes "s_msc_driver s = Some drv" and "list_live s"
  shows "client_event_cb env (USB_HOST_CLIENT_EVENT_DEV_GONE h) s =
    (case find (\<lambda>p. h = handle (the (devs s p))) (devices_tailq drv) of
       None \<Rightarrow> Ret () s
     | Some p \<Rightarrow> Ret () (s\<lparr>hist := hist s @ [Os (EvUserCb (user_cb drv) (user_arg drv) (MSC_DEVICE_DISCONNECTED p))]\<rparr>))"
  by (rule gone_event_run [OF assms])

theorem disconnection_reported_witness:
  "client_event_cb (sample_host stalling_device) (USB_HOST_CLIENT_EVENT_DEV_GONE 7) sample_sys =
     Ret () (sample_sys\<lparr>hist := [Os (EvUserCb 1 0 (MSC_DEVICE_DISCONNECTED 10))]\<rparr>)"
  by (subst disconnection_reported [of sample_sys sample_driver])
    (simp_all add: list_live_def sample_sys_def sample_driver_def sample_device_def)

text \<open>A new device is reported exactly when it could be opened and configured and has a mass-storage
  interface; whenever it was opened it is closed again, before the user is told.\<close>

theorem connection_reported:
  assumes "parser_advances env" and "s_msc_driver s = Some drv"
    and "r_device_open env (hist s) (client_handle drv) a = (e1, h)"
    and "r_get_config env (hist s @ [Host (EvDeviceOpen (client_handle drv) a h e1)]) h = (e2, c)"
  shows "\<exists>found e. find_msc_interface env c 0 = return found \<and>
    client_event_cb env (USB_HOST_CLIENT_EVENT_NEW_DEV a) s = Ret () (s\<lparr>hist := hist s @
      Host (EvDeviceOpen (client_handle drv) a h e1) #
      (if e1 \<noteq> ESP_OK then []
       else [Host (EvGetConfig h e2), Host (EvDeviceClose (client_handle drv) h e)] @
         (if e2 = ESP_OK \<and> found \<noteq> None
          then [Os (EvUserCb (user_cb drv) (user_arg drv) (MSC_DEVICE_CONNECTED a))] else []))\<rparr>)"
  by (rule new_dev_run [OF assms])

theorem connection_reported_witness:
  "\<exists>found e. find_msc_interface (sample_host stalling_device) \<lparr>wTotalLength = 32, cfg_bytes = []\<rparr> 0 = return found \<and>
    client_event_cb (sample_host stalling_device) (USB_HOST_CLIENT_EVENT_NEW_DEV 3) sample_sys =
      Ret () (sample_sys\<lparr>hist := Host (EvDeviceOpen 5 3 7 ESP_OK) # [Host (EvGetConfig 7 ESP_OK), Host (EvDeviceClose 5 7 e)] @
         (if found \<noteq> None then [Os (EvUserCb 1 0 (MSC_DEVICE_CONNECTED 3))] else [])\<rparr>)"
  using connection_reported [where a = 3, OF sample_parser [of stalling_device] sample_fields(1)
      sample_fields(7) [of stalling_device "hist sample_sys"] sample_fields(8)]
  by (simp add: sample_fields cong: if_cong split del: if_split)



text \<open>C35. Two concurrent calls can leave the system without a driver although one returned \<open>ESP_OK\<close>: the call
  that finds another driver in its critical section resets \<open>s_msc_driver\<close> on its way out. The other
  call's driver stays allocated, and nothing refers to it any more.\<close>

theorem concurrent_install_loses_driver:
  "\<exists>s. install_step\<^sup>*\<^sup>* no_driver s \<and> ipc s 0 = Returned ESP_OK \<and> ipc s 1 = Returned ESP_ERR_INVALID_STATE \<and>
    s_driver s = NULL \<and> own s 0 \<in> objects s"
  using lost_driver_reachable by (intro exI [of _ lost_driver]) (simp add: install_reachable_def lost_driver_def)

text \<open>C36. Once the event handling has begun, uninstalling beside the event task is safe: in every interleaving
  the task never touches the freed driver or the deleted semaphore, and the driver is deleted only
  after the task has left its loop because the driver is ending.\<close>

theorem uninstall_waits_for_event_task:
  assumes "tasks_step\<^sup>*\<^sup>* (handling True pc) s" and "pc \<in> {H_Test, H_Mark, H_Wait, H_Ending}"
  shows "hpc s \<noteq> Crashed \<and> (upc s \<in> {U_Delete, U_Deregister, U_Free, U_Null, U_Done} \<longrightarrow> hpc s = H_Stopped) \<and>
    (object s \<noteq> Live_Driver \<or> \<not> semaphore s \<longrightarrow> hpc s = H_Stopped)"
proof -
  have "tasks_inv s" by (rule tasks_inv_reach [OF _ assms(2)]) (simp add: tasks_reach_def assms(1))
  then show ?thesis by (cases "upc s"; cases "hpc s") (simp_all add: tasks_inv_def)
qed

theorem uninstall_waits_for_event_task_witness:
  "hpc (handling True H_Wait) \<noteq> Crashed \<and> object (handling True H_Wait) = Live_Driver"
  using uninstall_waits_for_event_task [where s = "handling True H_Wait" and pc = H_Wait] by (auto simp: handling_def)

text \<open>C37. Such an uninstallation can finish, from every state it can reach, exactly when no error of the host
  library has ended the event task: otherwise the semaphore is never given, and
  \<open>msc_host_uninstall\<close> waits for ever.\<close>

theorem uninstall_finishes_unless_task_failed:
  assumes "tasks_step\<^sup>*\<^sup>* (handling True pc) s" and "pc \<in> {H_Test, H_Mark, H_Wait, H_Ending}"
  shows "(\<exists>t. tasks_step\<^sup>*\<^sup>* s t \<and> upc t = U_Done) \<longleftrightarrow> (\<forall>e. hpc s \<noteq> H_Returned e)"
proof -
  have inv: "tasks_inv s" by (rule tasks_inv_reach [OF _ assms(2)]) (simp add: tasks_reach_def assms(1))
  show ?thesis using uninstall_can_finish [OF inv] returned_blocks [OF _ inv] by (auto simp: returned_iff)
qed

theorem uninstall_finishes_unless_task_failed_witness: "\<exists>t. tasks_step\<^sup>*\<^sup>* (handling True H_Test) t \<and> upc t = U_Done"
  using uninstall_finishes_unless_task_failed [of H_Test "handling True H_Test"] by (auto simp: handling_def)

text \<open>If the driver is uninstalled before its event task has marked the handling as begun, the wait is
  skipped: the task that has passed its test of \<open>s_msc_driver\<close> goes on with a driver that is gone.\<close>

theorem early_uninstall_crashes_event_task:
  "\<exists>s. tasks_step\<^sup>*\<^sup>* (handling False H_Test) s \<and> upc s = U_Done \<and> hpc s = Crashed"
  using late_task_crashes by (auto simp: tasks_reach_def gone_def)

text \<open>C38. A reset recovery first sends the three requests the Bulk-Only Transport asks for, in its order and
  byte for byte: the mass storage reset to the interface, then the clearing of the halt of the IN
  endpoint and of the OUT endpoint. Only then does it wait for the unit.\<close>

theorem reset_recovery_order:
  assumes "control_completes env" and "connected p d s"
  shows "\<exists>t. msc_host_reset_recovery (Suc depth) env p s =
      msc_wait_for_ready_state (msc_host_reset_recovery depth env) env p WAIT_FOR_READY_TIMEOUT_MS t \<and>
    requests (hist t) = requests (hist s) @ [[0x21, 0xFF, 0, 0, iface_num (config d), 0, 0, 0],
      [0x02, 0x01, 0, 0, bulk_in_ep (config d), 0, 0, 0], [0x02, 0x01, 0, 0, bulk_out_ep (config d), 0, 0, 0]]"
  using recovery_run [OF assms] unfolding recovery_bytes by blast

theorem reset_recovery_order_witness:
  "\<exists>t. msc_host_reset_recovery 4 (sample_host (disk_device [])) 10 sample_sys =
      msc_wait_for_ready_state (msc_host_reset_recovery 3 (sample_host (disk_device []))) (sample_host (disk_device [])) 10
        WAIT_FOR_READY_TIMEOUT_MS t \<and>
    requests (hist t) = [[0x21, 0xFF, 0, 0, 0, 0, 0, 0], [0x02, 0x01, 0, 0, 0x81, 0, 0, 0], [0x02, 0x01, 0, 0, 2, 0, 0, 0]]"
proof -
  have "control_completes (sample_host (disk_device []))"
    using disk_answers [of "[]"] by (auto simp: control_completes_def sample_host_def disk_device_def completed_def)
  moreover have "connected 10 sample_device sample_sys"
    by (auto simp: connected_def transfer_at_def sample_sys_def sample_device_def sample_transfer_def)
  moreover have "requests (hist sample_sys) = []" "config sample_device = sample_config"
    by (simp_all add: sample_fields sample_device_def)
  ultimately show ?thesis
    using reset_recovery_order [where depth = 3 and p = 10 and d = sample_device and s = sample_sys]
    by (simp add: sample_config_def numeral_eq_Suc del: WAIT_FOR_READY_TIMEOUT_MS_def)
qed

text \<open>One round of event handling, whatever events the host library delivers: it refuses without a
  driver, marks the handling as begun, and reports \<open>ESP_FAIL\<close> and gives the semaphore exactly when an
  uninstallation waits for it; then the background task ends as well.\<close>

theorem event_handling_round:
  assumes "parser_advances env" and "list_live s"
  shows "case s_msc_driver s of
      None \<Rightarrow> msc_host_handle_events env timeout s = Ret ESP_ERR_INVALID_STATE s \<and>
        event_handler_task (Suc rounds) env s = Ret True (s\<lparr>hist := hist s @ [Os EvTaskDelete]\<rparr>)
    | Some drv \<Rightarrow> \<exists>es e t. hist t = hist s @ Host (EvHandleEvents (client_handle drv) timeout e) # es \<and>
        s_msc_driver t = Some (drv\<lparr>event_handling_started := True\<rparr>) \<and> devs t = devs s \<and> xfers t = xfers s \<and>
        (if end_client_event_handling drv
         then msc_host_handle_events env timeout s = Ret ESP_FAIL t \<and> last es = Os (EvSemGive (all_events_handled drv)) \<and>
           (timeout = - 1 \<longrightarrow> event_handler_task (Suc rounds) env s = Ret True (t\<lparr>hist := hist t @ [Os EvTaskDelete]\<rparr>))
         else msc_host_handle_events env timeout s = Ret e t)"
proof (cases "s_msc_driver s")
  case None
  then show ?thesis by (simp add: msc_host_handle_events_def)
next
  case (Some drv)
  from handle_events_run [OF assms(1) Some assms(2), of timeout] obtain es e where run:
    "msc_host_handle_events env timeout s = Ret (if end_client_event_handling drv then ESP_FAIL else e)
        (s\<lparr>s_msc_driver := Some (drv\<lparr>event_handling_started := True\<rparr>),
           hist := hist s @ Host (EvHandleEvents (client_handle drv) timeout e) # es @
             (if end_client_event_handling drv then [Os (EvSemGive (all_events_handled drv))] else [])\<rparr>)" by blast
  show ?thesis
    unfolding Some option.case
    by (intro exI [of _ "es @ (if end_client_event_handling drv then [Os (EvSemGive (all_events_handled drv))] else [])"]
        exI [of _ e] exI [of _ "s\<lparr>s_msc_driver := Some (drv\<lparr>event_handling_started := True\<rparr>),
           hist := hist s @ Host (EvHandleEvents (client_handle drv) timeout e) # es @
             (if end_client_event_handling drv then [Os (EvSemGive (all_events_handled drv))] else [])\<rparr>"])
      (use run in auto)
qed

theorem event_handling_round_witness:
  "\<exists>t. event_handler_task 5 (sample_host stalling_device)
      (sample_sys\<lparr>s_msc_driver := Some (sample_driver\<lparr>end_client_event_handling := True\<rparr>)\<rparr>) = Ret True t"
proof -
  let ?s = "sample_sys\<lparr>s_msc_driver := Some (sample_driver\<lparr>end_client_event_handling := True\<rparr>)\<rparr>"
  have live: "list_live ?s" by (simp add: list_live_def sample_fields sample_dev)
  from event_handling_round [where timeout = "- 1" and rounds = 4, OF sample_parser [of stalling_device] live]
  show ?thesis by (auto simp: numeral_eq_Suc)
qed

text \<open>C39. A string descriptor is copied within the 32 characters it is given: at most 31 characters and a
  terminator. The exception is a descriptor whose length field is 0, which makes the copy run over
  the end of every buffer the address space has.\<close>

theorem string_copy_bounds:
  assumes "length dest = MSC_STR_DESC_SIZE"
  shows "case src of
      None \<Rightarrow> copy_string_desc env dest src s = Ret (0 # tl dest) s
    | Some d \<Rightarrow>
        if bLength d = 0 then copy_string_desc env dest src s = Fault BufferOverflow
        else \<exists>out n. copy_string_desc env dest src s = Ret out s \<and> length out = MSC_STR_DESC_SIZE \<and>
          n < MSC_STR_DESC_SIZE \<and> out ! n = 0 \<and> (\<forall>i < n. i < length (wData d) \<longrightarrow> out ! i = ucast (wData d ! i))"
proof (cases src)
  case None
  with assms show ?thesis by (cases dest) (simp_all add: copy_string_desc_def)
next
  case (Some d)
  show ?thesis
  proof (cases "bLength d = 0")
    case True
    with Some assms string_len_zero show ?thesis by (simp add: copy_string_desc_def Let_def bind_run then_do_def)
  next
    case False
    with Some string_copied [OF assms False, of env s] string_len_bound [OF False] show ?thesis
      by (auto intro!: exI [of _ "string_len (bLength d)"])
  qed
qed

theorem string_copy_bounds_witness:
  "copy_string_desc (sample_host stalling_device) (replicate 32 7) (Some \<lparr>bLength = 0, wData = []\<rparr>) sample_sys = Fault BufferOverflow \<and>
   (\<exists>out. copy_string_desc (sample_host stalling_device) (replicate 32 7) (Some \<lparr>bLength = 6, wData = [65, 66]\<rparr>) sample_sys =
      Ret out sample_sys \<and> length out = 32)"
proof -
  have len: "length (replicate 32 (7 :: u32)) = MSC_STR_DESC_SIZE" by simp
  from string_copy_bounds [where env = "sample_host stalling_device" and s = sample_sys, OF len, of "Some \<lparr>bLength = 0, wData = []\<rparr>"]
    string_copy_bounds [where env = "sample_host stalling_device" and s = sample_sys, OF len, of "Some \<lparr>bLength = 6, wData = [65, 66]\<rparr>"]
  show ?thesis by auto
qed

text \<open>C40. The test device starts its SD card completely or not at all: with no host running and a card object
  that is new, \<open>storage_init_sdmmc\<close> ends with the error of its first failing step, and then every card
  and the SD host are as before; or it returns \<open>ESP_OK\<close> with the new card, and the host runs.\<close>

theorem sdcard_starts_or_cleans_up:
  assumes "\<not> host_on h" and "b_malloc board h \<notin> cards h"
  shows "\<exists>t. storage_init_sdmmc board h =
      Ret (sdmmc_error board h, if sdmmc_error board h = ESP_OK then Some (b_malloc board h) else None) t \<and>
    (if sdmmc_error board h = ESP_OK
     then b_malloc board h \<noteq> NULL \<and> cards t = insert (b_malloc board h) (cards h) \<and> host_on t
     else cards t = cards h \<and> \<not> host_on t)"
  by (rule storage_init_sdmmc_run [OF assms])

theorem sdcard_starts_or_cleans_up_witness:
  "\<exists>t. storage_init_sdmmc (sample_board ESP_ERR_TIMEOUT) [] = Ret (ESP_ERR_TIMEOUT, None) t \<and> cards t = {} \<and> \<not> host_on t"
proof -
  have none: "\<not> host_on []" "b_malloc (sample_board e) [] \<notin> cards []" for e by (simp_all add: host_on_def cards_def)
  have "sdmmc_error (sample_board ESP_ERR_TIMEOUT) [] = ESP_ERR_TIMEOUT"
    by (simp add: sdmmc_error_def Let_def sample_board_def)
  with sdcard_starts_or_cleans_up [OF none, of ESP_ERR_TIMEOUT] show ?thesis by (simp add: cards_def)
qed

end
